(* ===== verification/Prelude.thy ===== *)
theory Prelude
  imports Main "HOL-Library.Word" "HOL-Library.Char_ord" "HOL-Library.List_Lexorder"
    "HOL-Library.Multiset"
begin

text \<open>
  Shared vocabulary of the development: results, machine integers, UTF-8 strings as byte
  lists, the standard-library operations on vectors, deques and strings that several crates
  use (\<open>position\<close>, \<open>swap_remove\<close>, \<open>split_once\<close>, \<open>trim\<close>, \<open>push_back\<close> with a cap), mutexes,
  and the generic lemmas about them. The named collections below are filled by the component
  theories.
\<close>

unbundle bit_operations_syntax

named_theorems slot_simps "projections and updates of server slots"
named_theorems agg_frames "what each aggregator operation leaves untouched"
named_theorems inv_intros "operations that preserve an invariant"

section \<open>Results\<close>

text \<open>A Rust \<open>Result<T, E>\<close> is a sum: \<open>Inl\<close> carries the error and \<open>Inr\<close> the value.\<close>

abbreviation Err :: "'e \<Rightarrow> 'e + 'a" where "Err \<equiv> Inl"
abbreviation Ok :: "'a \<Rightarrow> 'e + 'a" where "Ok \<equiv> Inr"

fun is_ok :: "'e + 'a \<Rightarrow> bool" where
  "is_ok (Inl e) = False"
| "is_ok (Inr a) = True"

fun ok_or :: "'a option \<Rightarrow> 'e \<Rightarrow> 'e + 'a" where
  "ok_or None e = Err e"
| "ok_or (Some a) e = Ok a"

fun map_err :: "('e \<Rightarrow> 'f) \<Rightarrow> 'e + 'a \<Rightarrow> 'f + 'a" where
  "map_err f (Inl e) = Err (f e)"
| "map_err f (Inr a) = Ok a"

lemma is_ok_iff: "is_ok r \<longleftrightarrow> (\<exists>a. r = Ok a)"
  by (cases r) auto

lemma ok_or_Inr [simp]: "ok_or x e = Ok a \<longleftrightarrow> x = Some a"
  by (cases x) auto

lemma ok_or_Inl [simp]: "ok_or x e = Err e' \<longleftrightarrow> x = None \<and> e' = e"
  by (cases x) auto

lemma map_err_Inr [simp]: "map_err f r = Ok a \<longleftrightarrow> r = Ok a"
  by (cases r) auto

lemma map_err_Inl: "map_err f r = Err e' \<longleftrightarrow> (\<exists>e. r = Err e \<and> e' = f e)"
  by (cases r) auto

section \<open>Machine integers\<close>

type_synonym u8 = "8 word"
type_synonym u32 = "32 word"
type_synonym u64 = "64 word"

text \<open>\<open>u64::saturating_add\<close> and \<open>u64::saturating_sub\<close>.\<close>

definition sat_add :: "u64 \<Rightarrow> u64 \<Rightarrow> u64" where
  "sat_add a b = (if 2 ^ 64 \<le> unat a + unat b then - 1 else a + b)"

definition sat_sub :: "u64 \<Rightarrow> u64 \<Rightarrow> u64" where
  "sat_sub a b = (if a < b then 0 else a - b)"

lemma unat_sat_add: "unat (sat_add a b) = min (unat a + unat b) (2 ^ 64 - 1)"
proof (cases "2 ^ 64 \<le> unat a + unat b")
  case True
  then show ?thesis by (simp add: sat_add_def unsigned_minus_1_eq_mask mask_eq_exp_minus_1)
next
  case False
  then have "unat (a + b) = unat a + unat b"
    by (simp add: unat_word_ariths)
  with False show ?thesis by (simp add: sat_add_def)
qed

lemma unat_sat_sub: "unat (sat_sub a b) = unat a - unat b"
proof (cases "a < b")
  case True
  then have "unat a < unat b" by (simp add: word_less_nat_alt)
  then show ?thesis using True by (simp add: sat_sub_def)
next
  case False
  then have "b \<le> a" by simp
  then have "unat (a - b) = unat a - unat b" by (simp add: unat_sub)
  then show ?thesis using False by (simp add: sat_sub_def)
qed

lemma sat_add_ge: "a \<le> sat_add a b"
proof -
  have "unat a < 2 ^ 64" using unsigned_less [where 'a = nat and w = a] by simp
  then have "unat a \<le> 2 ^ 64 - 1" by simp
  then show ?thesis by (simp add: word_le_nat_alt unat_sat_add)
qed

lemma sat_sub_self [simp]: "sat_sub a a = 0"
  by (simp add: sat_sub_def)

lemma sat_sub_future: "a \<le> b \<Longrightarrow> sat_sub a b = 0"
  by (auto simp: sat_sub_def)

lemma sat_sub_mono: "a \<le> a' \<Longrightarrow> sat_sub a b \<le> sat_sub a' b"
  by (simp add: word_le_nat_alt unat_sat_sub)

section \<open>Vectors and deques\<close>

text \<open>\<open>Iterator::position\<close>.\<close>

fun position :: "('a \<Rightarrow> bool) \<Rightarrow> 'a list \<Rightarrow> nat option" where
  "position P [] = None"
| "position P (x # xs) = (if P x then Some 0 else map_option Suc (position P xs))"

lemma position_Some:
  "position P xs = Some i \<Longrightarrow> i < length xs \<and> P (xs ! i) \<and> (\<forall>j < i. \<not> P (xs ! j))"
proof (induction xs arbitrary: i)
  case Nil
  then show ?case by simp
next
  case (Cons x xs)
  then show ?case by (auto simp: less_Suc_eq_0_disj split: if_splits)
qed

lemma position_None: "position P xs = None \<longleftrightarrow> (\<forall>x \<in> set xs. \<not> P x)"
  by (induction xs) auto

text \<open>\<open>Vec::swap_remove\<close>: the last element takes the place of the removed one.\<close>

definition swap_remove :: "nat \<Rightarrow> 'a list \<Rightarrow> 'a list" where
  "swap_remove i xs = (if i < length xs then butlast (xs[i := last xs]) else xs)"

lemma mset_swap_remove:
  assumes "i < length xs"
  shows "mset (swap_remove i xs) = mset xs - {#xs ! i#}"
proof -
  from assms obtain ys l where xs: "xs = ys @ [l]"
    by (metis list.size(3) not_less_zero rev_exhaust)
  show ?thesis
  proof (cases "i = length ys")
    case True
    then show ?thesis by (simp add: swap_remove_def xs)
  next
    case False
    with assms xs have i: "i < length ys" by simp
    then have "swap_remove i xs = ys[i := l]"
      by (simp add: swap_remove_def xs list_update_append)
    with i xs show ?thesis
      by (simp add: mset_update nth_append add_mset_remove_trivial_If)
  qed
qed

lemma length_swap_remove [simp]: "i < length xs \<Longrightarrow> length (swap_remove i xs) = length xs - 1"
  by (simp add: swap_remove_def)

lemma set_swap_remove: "set (swap_remove i xs) \<subseteq> set xs"
proof (cases "i < length xs")
  case True
  then have "set_mset (mset (swap_remove i xs)) \<subseteq> set_mset (mset xs)"
    by (metis mset_swap_remove diff_subset_eq_self mset_subset_eqD subsetI)
  then show ?thesis by simp
next
  case False
  then show ?thesis by (simp add: swap_remove_def)
qed

text \<open>\<open>iter_mut().find(p)\<close> followed by an update of the element found.\<close>

fun update_first :: "('a \<Rightarrow> bool) \<Rightarrow> ('a \<Rightarrow> 'a) \<Rightarrow> 'a list \<Rightarrow> 'a list" where
  "update_first P f [] = []"
| "update_first P f (x # xs) = (if P x then f x # xs else x # update_first P f xs)"

lemma update_first_none [simp]: "find P xs = None \<Longrightarrow> update_first P f xs = xs"
  by (induction xs) (auto split: if_splits)

lemma map_update_first:
  "(\<And>x. g (f x) = g x) \<Longrightarrow> map g (update_first P f xs) = map g xs"
  by (induction xs) auto

lemma length_update_first [simp]: "length (update_first P f xs) = length xs"
  by (induction xs) auto

lemma find_update_first_same:
  "(\<And>x. P (f x) = P x) \<Longrightarrow> find P (update_first P f xs) = map_option f (find P xs)"
  by (induction xs) auto

lemma find_update_first_other:
  "(\<And>x. P x \<Longrightarrow> \<not> Q x) \<Longrightarrow> (\<And>x. P x \<Longrightarrow> \<not> Q (f x)) \<Longrightarrow>
    find Q (update_first P f xs) = find Q xs"
  by (induction xs) auto

lemma set_update_first: "y \<in> set (update_first P f xs) \<Longrightarrow> y \<in> set xs \<or> (\<exists>x \<in> set xs. P x \<and> y = f x)"
  by (induction xs) (auto split: if_splits)

lemma find_SomeD: "find P xs = Some x \<Longrightarrow> x \<in> set xs \<and> P x"
  by (induction xs) (auto split: if_splits)

lemma find_key: "x \<in> set xs \<Longrightarrow> distinct (map f xs) \<Longrightarrow> find (\<lambda>y. f y = f x) xs = Some x"
  by (induction xs) auto

lemma find_key_None: "find (\<lambda>y. f y = k) xs = None \<longleftrightarrow> k \<notin> set (map f xs)"
  by (induction xs) auto

lemma set_map_filter: "y \<in> set (List.map_filter f xs) \<longleftrightarrow> (\<exists>x \<in> set xs. f x = Some y)"
  by (force simp: List.map_filter_def)

text \<open>
  A capped deque: \<open>push_back\<close>, then \<open>pop_front\<close> while the length exceeds the cap.
\<close>

fun pop_excess :: "nat \<Rightarrow> 'a list \<Rightarrow> 'a list" where
  "pop_excess cap [] = []"
| "pop_excess cap (x # xs) = (if cap < length (x # xs) then pop_excess cap xs else x # xs)"

definition push_capped :: "nat \<Rightarrow> 'a list \<Rightarrow> 'a \<Rightarrow> 'a list" where
  "push_capped cap xs x = pop_excess cap (xs @ [x])"

lemma pop_excess_drop: "pop_excess cap xs = drop (length xs - cap) xs"
  by (induction xs) (auto simp: Suc_diff_le)

lemma length_push_capped: "length (push_capped cap xs x) = min cap (Suc (length xs))"
  by (auto simp: push_capped_def pop_excess_drop)

lemma last_push_capped: "0 < cap \<Longrightarrow> last (push_capped cap xs x) = x"
  by (simp add: push_capped_def pop_excess_drop)

lemma mem_push_capped: "0 < cap \<Longrightarrow> x \<in> set (push_capped cap xs x)"
  by (metis last_push_capped last_in_set length_push_capped length_greater_0_conv min_less_iff_conj
      zero_less_Suc)

lemma push_capped_room: "length xs < cap \<Longrightarrow> push_capped cap xs x = xs @ [x]"
  by (simp add: push_capped_def pop_excess_drop)

section \<open>Mutexes\<close>

text \<open>
  A \<open>std::sync::Mutex\<close>: \<open>lock()\<close> fails once a thread has panicked while holding the guard
  (the mutex is poisoned). Handlers hold a guard for a whole critical section, so a critical
  section is one atomic update of the guarded value.
\<close>

datatype 'a mutex = Mutex (poisoned: bool) (guarded: 'a)

abbreviation mutex_new :: "'a \<Rightarrow> 'a mutex" where "mutex_new \<equiv> Mutex False"

fun lock :: "'a mutex \<Rightarrow> 'a option" where
  "lock (Mutex p v) = (if p then None else Some v)"

fun put :: "'a mutex \<Rightarrow> 'a \<Rightarrow> 'a mutex" where
  "put (Mutex p v) v' = Mutex p v'"

lemma lock_Some: "lock m = Some v \<longleftrightarrow> m = Mutex False v"
  by (cases m) auto

lemma lock_None: "lock m = None \<longleftrightarrow> poisoned m"
  by (cases m) auto

lemma guarded_put [simp]: "guarded (put m v) = v"
  by (cases m) auto

lemma poisoned_put [simp]: "poisoned (put m v) = poisoned m"
  by (cases m) auto

lemma lock_guarded: "lock m = Some v \<Longrightarrow> guarded m = v"
  by (cases m) (auto split: if_splits)

end
