(* ===== verification/Strings.thy ===== *)
theory Strings
  imports Prelude
begin

text \<open>
  Rust strings. A \<open>String\<close> or \<open>&str\<close> is its UTF-8 byte sequence, and Isabelle's \<open>char\<close> is a
  byte, so a Rust string is a \<open>char list\<close>: \<open>len()\<close> is \<open>length\<close>, \<open>==\<close> is equality and \<open>Ord\<close> is
  the lexicographic order of \<open>HOL-Library.List_Lexorder\<close>. This theory holds the string
  operations of the standard library that the crates call: \<open>split_once\<close>, \<open>starts_with\<close>,
  \<open>strip_prefix\<close>, \<open>trim\<close>, \<open>to_ascii_uppercase\<close>, \<open>get(i..j)\<close>, \<open>join\<close> and the decimal formatting
  and radix parsing of integers.
\<close>

section \<open>Bytes\<close>

abbreviation byte :: "char \<Rightarrow> nat" where "byte \<equiv> of_char"

lemma byte_less_256: "byte c < 256"
proof -
  have "byte c = byte c mod 256" using of_char_of [where 'a = nat, of "byte c"] by simp
  then show ?thesis by (metis mod_less_divisor zero_less_numeral)
qed

definition as_bytes :: "string \<Rightarrow> u8 list" where
  "as_bytes s = map of_char s"

lemma inj_of_char_u8: "inj (of_char :: char \<Rightarrow> u8)"
proof (rule injI)
  fix c d :: char
  assume eq: "(of_char c :: u8) = of_char d"
  have "(word_of_nat (of_char c :: nat) :: u8) = of_char c"
    and "(word_of_nat (of_char d :: nat) :: u8) = of_char d"
    by (rule of_nat_of_char)+
  with eq have "(word_of_nat (of_char c :: nat) :: u8) = word_of_nat (of_char d :: nat)"
    by simp
  then have "(of_char c :: nat) mod 2 ^ 8 = of_char d mod 2 ^ 8"
    by (simp add: word_of_nat_eq_iff take_bit_eq_mod)
  then show "c = d"
    using byte_less_256 [of c] byte_less_256 [of d] by simp
qed

lemma as_bytes_inj [simp]: "as_bytes s = as_bytes t \<longleftrightarrow> s = t"
  unfolding as_bytes_def by (simp add: inj_of_char_u8 inj_map_eq_map)

lemma length_as_bytes [simp]: "length (as_bytes s) = length s"
  by (simp add: as_bytes_def)

section \<open>Splitting and prefixes\<close>

text \<open>\<open>str::split_once(c)\<close> for an ASCII separator: at the first occurrence.\<close>

fun split_once :: "char \<Rightarrow> string \<Rightarrow> (string \<times> string) option" where
  "split_once c [] = None"
| "split_once c (x # xs) =
     (if x = c then Some ([], xs)
      else map_option (\<lambda>(a, b). (x # a, b)) (split_once c xs))"

lemma split_once_Some: "split_once c s = Some (a, b) \<longleftrightarrow> s = a @ c # b \<and> c \<notin> set a"
proof (induction s arbitrary: a)
  case Nil
  then show ?case by simp
next
  case (Cons x s)
  show ?case
  proof (cases a)
    case Nil
    then show ?thesis by auto
  next
    case (Cons y a')
    then show ?thesis using Cons.IH [of a'] by auto
  qed
qed

lemma split_once_None: "split_once c s = None \<longleftrightarrow> c \<notin> set s"
  by (induction s) auto

lemma split_once_join [simp]: "c \<notin> set a \<Longrightarrow> split_once c (a @ c # b) = Some (a, b)"
  by (simp add: split_once_Some)

fun starts_with :: "string \<Rightarrow> string \<Rightarrow> bool" where
  "starts_with [] s = True"
| "starts_with (p # ps) [] = False"
| "starts_with (p # ps) (c # cs) = (p = c \<and> starts_with ps cs)"

lemma starts_with_iff: "starts_with p s \<longleftrightarrow> (\<exists>r. s = p @ r)"
  by (induction p s rule: starts_with.induct) auto

definition strip_prefix :: "string \<Rightarrow> string \<Rightarrow> string option" where
  "strip_prefix p s = (if starts_with p s then Some (drop (length p) s) else None)"

lemma strip_prefix_Some: "strip_prefix p s = Some r \<longleftrightarrow> s = p @ r"
  by (auto simp: strip_prefix_def starts_with_iff)

section \<open>Case mapping of ASCII letters\<close>

text \<open>\<open>to_ascii_uppercase\<close> changes the bytes \<open>a\<close> to \<open>z\<close> only.\<close>

definition ascii_upper :: "char \<Rightarrow> char" where
  "ascii_upper c = (if 97 \<le> byte c \<and> byte c \<le> 122 then char_of (byte c - 32) else c)"

definition to_ascii_uppercase :: "string \<Rightarrow> string" where
  "to_ascii_uppercase s = map ascii_upper s"

section \<open>Whitespace\<close>

text \<open>
  \<open>char::is_whitespace\<close> is the Unicode property \<open>White_Space\<close>. In UTF-8 its members are the six
  one-byte sequences \<open>09..0D\<close> and \<open>20\<close>, the two-byte sequences \<open>C2 85\<close> and \<open>C2 A0\<close> and the
  three-byte sequences \<open>E1 9A 80\<close>, \<open>E2 80 80..8A\<close>, \<open>E2 80 A8\<close>, \<open>E2 80 A9\<close>, \<open>E2 80 AF\<close>,
  \<open>E2 81 9F\<close> and \<open>E3 80 80\<close>.
\<close>

definition ws1 :: "char \<Rightarrow> bool" where
  "ws1 a \<longleftrightarrow> (9 \<le> byte a \<and> byte a \<le> 13) \<or> byte a = 32"

definition ws2 :: "char \<Rightarrow> char \<Rightarrow> bool" where
  "ws2 a b \<longleftrightarrow> byte a = 194 \<and> (byte b = 133 \<or> byte b = 160)"

definition ws3 :: "char \<Rightarrow> char \<Rightarrow> char \<Rightarrow> bool" where
  "ws3 a b c \<longleftrightarrow>
     (byte a = 225 \<and> byte b = 154 \<and> byte c = 128) \<or>
     (byte a = 226 \<and> byte b = 128 \<and>
        (128 \<le> byte c \<and> byte c \<le> 138 \<or> byte c = 168 \<or> byte c = 169 \<or> byte c = 175)) \<or>
     (byte a = 226 \<and> byte b = 129 \<and> byte c = 159) \<or>
     (byte a = 227 \<and> byte b = 128 \<and> byte c = 128)"

fun trim_start :: "string \<Rightarrow> string" where
  "trim_start (a # b # c # s) =
     (if ws1 a then trim_start (b # c # s)
      else if ws2 a b then trim_start (c # s)
      else if ws3 a b c then trim_start s else a # b # c # s)"
| "trim_start [a, b] = (if ws1 a then trim_start [b] else if ws2 a b then [] else [a, b])"
| "trim_start [a] = (if ws1 a then [] else [a])"
| "trim_start [] = []"

text \<open>\<open>trim_end\<close> reads the string from its end, so it works on the reversed bytes.\<close>

fun trim_rev :: "string \<Rightarrow> string" where
  "trim_rev (c # b # a # s) =
     (if ws1 c then trim_rev (b # a # s)
      else if ws2 b c then trim_rev (a # s)
      else if ws3 a b c then trim_rev s else c # b # a # s)"
| "trim_rev [b, a] = (if ws1 b then trim_rev [a] else if ws2 a b then [] else [b, a])"
| "trim_rev [a] = (if ws1 a then [] else [a])"
| "trim_rev [] = []"

definition trim_end :: "string \<Rightarrow> string" where
  "trim_end s = rev (trim_rev (rev s))"

definition trim :: "string \<Rightarrow> string" where
  "trim s = trim_end (trim_start s)"

definition blank :: "string \<Rightarrow> bool" where
  "blank s \<longleftrightarrow> trim s = []"

lemma trim_rev_suffix: "\<exists>w. s = w @ trim_rev s"
proof (induction s rule: trim_rev.induct)
  case (1 c b a s)
  then show ?case
    by (auto intro: exI [of _ "c # _"]) (metis append_Cons)+
qed auto

lemma trim_start_suffix: "\<exists>w. s = w @ trim_start s"
proof (induction s rule: trim_start.induct)
  case (1 a b c s)
  then show ?case
    by (auto intro: exI [of _ "a # _"]) (metis append_Cons)+
qed auto

lemma trim_infix: "\<exists>u v. s = u @ trim s @ v"
proof -
  obtain u where u: "s = u @ trim_start s" using trim_start_suffix by blast
  obtain w where "rev (trim_start s) = w @ trim_rev (rev (trim_start s))"
    using trim_rev_suffix by blast
  then have "trim_start s = trim s @ rev w"
    by (metis trim_def trim_end_def rev_append rev_rev_ident)
  with u show ?thesis by metis
qed

lemma trim_Nil [simp]: "trim [] = []"
  by (simp add: trim_def trim_end_def)

lemma blank_Nil [simp]: "blank []"
  by (simp add: blank_def)

section \<open>Slices on character boundaries\<close>

text \<open>
  \<open>str::get(i..j)\<close> is \<open>None\<close> when an end is past the string or inside a character; a byte
  \<open>80..BF\<close> continues a character.
\<close>

definition continuation :: "char \<Rightarrow> bool" where
  "continuation c \<longleftrightarrow> 128 \<le> byte c \<and> byte c \<le> 191"

definition char_boundary :: "string \<Rightarrow> nat \<Rightarrow> bool" where
  "char_boundary s i \<longleftrightarrow> i = length s \<or> (i < length s \<and> \<not> continuation (s ! i))"

definition str_get :: "string \<Rightarrow> nat \<Rightarrow> nat \<Rightarrow> string option" where
  "str_get s i j =
     (if i \<le> j \<and> j \<le> length s \<and> char_boundary s i \<and> char_boundary s j
      then Some (take (j - i) (drop i s)) else None)"

section \<open>Joining\<close>

fun join :: "string \<Rightarrow> string list \<Rightarrow> string" where
  "join sep [] = []"
| "join sep [x] = x"
| "join sep (x # y # xs) = x @ sep @ join sep (y # xs)"

section \<open>UTF-8 and byte streams\<close>

text \<open>
  The bytes that may follow a leading byte, as ranges, by the table of well-formed byte
  sequences of the Unicode standard; \<open>None\<close> for a byte that cannot lead.
\<close>

definition utf8_follow :: "nat \<Rightarrow> (nat \<times> nat) list option" where
  "utf8_follow b =
     (if b < 128 then Some []
      else if 194 \<le> b \<and> b \<le> 223 then Some [(128, 191)]
      else if b = 224 then Some [(160, 191), (128, 191)]
      else if b = 237 then Some [(128, 159), (128, 191)]
      else if 225 \<le> b \<and> b \<le> 239 then Some [(128, 191), (128, 191)]
      else if b = 240 then Some [(144, 191), (128, 191), (128, 191)]
      else if 241 \<le> b \<and> b \<le> 243 then Some [(128, 191), (128, 191), (128, 191)]
      else if b = 244 then Some [(128, 143), (128, 191), (128, 191)]
      else None)"

fun utf8_scan :: "(nat \<times> nat) list \<Rightarrow> string \<Rightarrow> bool" where
  "utf8_scan [] [] = True"
| "utf8_scan (r # rs) [] = False"
| "utf8_scan [] (c # cs) =
     (case utf8_follow (byte c) of None \<Rightarrow> False | Some rs \<Rightarrow> utf8_scan rs cs)"
| "utf8_scan ((lo, hi) # rs) (c # cs) = (lo \<le> byte c \<and> byte c \<le> hi \<and> utf8_scan rs cs)"

definition utf8_valid :: "string \<Rightarrow> bool" where
  "utf8_valid s = utf8_scan [] s"

lemma utf8_ascii: "list_all (\<lambda>c. byte c < 128) s \<Longrightarrow> utf8_valid s"
  by (induction s) (simp_all add: utf8_valid_def utf8_follow_def)

text \<open>A byte stream is the bytes it still delivers and how it ends.\<close>

datatype stream_end = Eof | Broken string

text \<open>
  \<open>BufRead::read_line\<close>: the bytes up to and with the first newline, which must be UTF-8; an error
  of the stream goes before that of the bytes read so far.
\<close>

definition invalid_utf8_text :: string where
  "invalid_utf8_text = ''stream did not contain valid UTF-8''"

definition read_line :: "string \<Rightarrow> stream_end \<Rightarrow> string + string" where
  "read_line bytes fin =
     (case split_once CHR 0x0A bytes of
        Some (l, rest) \<Rightarrow>
          (if utf8_valid (l @ [CHR 0x0A]) then Inr (l @ [CHR 0x0A]) else Inl invalid_utf8_text)
      | None \<Rightarrow>
          (case fin of
             Broken e \<Rightarrow> Inl e
           | Eof \<Rightarrow> if utf8_valid bytes then Inr bytes else Inl invalid_utf8_text))"

text \<open>\<open>take(limit).read_to_string\<close>.\<close>

definition read_to_string :: "nat \<Rightarrow> string \<Rightarrow> stream_end \<Rightarrow> string option" where
  "read_to_string limit bytes fin =
     (if length bytes < limit \<and> fin \<noteq> Eof then None
      else if utf8_valid (take limit bytes) then Some (take limit bytes)
      else None)"

end
