(* ===== verification/OrdMap.thy ===== *)
theory OrdMap
  imports Strings
begin

text \<open>
  \<open>BTreeMap<String, V>\<close>. The map is its in-order sequence of entries, an association list whose
  keys increase strictly; iteration, \<open>keys()\<close> and \<open>collect()\<close> follow that order. What a client
  relies on is the interface \<open>keyed_store\<close>: lookups after an update, and an invariant kept by
  every update. The aggregator's children and tool definitions, the client registry, the
  manifest's tool tables and JSON objects are all instances.
\<close>

section \<open>The interface\<close>

locale keyed_store =
  fixes empty :: "'m"
    and get :: "'m \<Rightarrow> string \<Rightarrow> 'v option"
    and insert :: "string \<Rightarrow> 'v \<Rightarrow> 'm \<Rightarrow> 'm"
    and remove :: "string \<Rightarrow> 'm \<Rightarrow> 'm"
    and ok :: "'m \<Rightarrow> bool"
  assumes get_empty: "get empty k = None"
    and get_insert: "ok m \<Longrightarrow> get (insert k v m) j = (if j = k then Some v else get m j)"
    and get_remove: "ok m \<Longrightarrow> get (remove k m) j = (if j = k then None else get m j)"
    and ok_empty: "ok empty"
    and ok_insert: "ok m \<Longrightarrow> ok (insert k v m)"
    and ok_remove: "ok m \<Longrightarrow> ok (remove k m)"
begin

text \<open>\<open>collect()\<close> inserts the pairs of an iterator one after the other; later pairs win.\<close>

lemma ok_fold: "ok m \<Longrightarrow> ok (fold (\<lambda>(k, v). insert k v) ps m)"
  by (induction ps arbitrary: m) (auto simp: ok_insert)

lemma get_fold:
  "ok m \<Longrightarrow> get (fold (\<lambda>(k, v). insert k v) ps m) j =
     (case map_of (rev ps) j of None \<Rightarrow> get m j | Some v \<Rightarrow> Some v)"
proof (induction ps arbitrary: m)
  case Nil
  then show ?case by simp
next
  case (Cons p ps)
  obtain k v where p: "p = (k, v)" by force
  from Cons.prems have "ok (insert k v m)" by (rule ok_insert)
  from Cons.IH [OF this] show ?case
    using Cons.prems by (auto simp: p get_insert map_add_def split: option.splits)
qed

lemma get_collect: "get (fold (\<lambda>(k, v). insert k v) ps empty) j = map_of (rev ps) j"
  by (simp add: get_fold ok_empty get_empty split: option.split)

lemma ok_collect: "ok (fold (\<lambda>(k, v). insert k v) ps empty)"
  by (rule ok_fold) (rule ok_empty)

lemma insert_shadows: "ok m \<Longrightarrow> get (insert k v (insert k w m)) j = get (insert k v m) j"
  by (simp add: get_insert ok_insert)

lemma remove_insert: "ok m \<Longrightarrow> get (remove k (insert k v m)) j = get (remove k m) j"
  by (simp add: get_insert get_remove ok_insert)

end

section \<open>The implementation\<close>

type_synonym 'v smap = "(string \<times> 'v) list"

abbreviation sm_get :: "'v smap \<Rightarrow> string \<Rightarrow> 'v option" where "sm_get \<equiv> map_of"

fun sm_insert :: "string \<Rightarrow> 'v \<Rightarrow> 'v smap \<Rightarrow> 'v smap" where
  "sm_insert k v [] = [(k, v)]"
| "sm_insert k v ((j, w) # m) =
     (if k = j then (k, v) # m
      else if k < j then (k, v) # (j, w) # m
      else (j, w) # sm_insert k v m)"

fun sm_remove :: "string \<Rightarrow> 'v smap \<Rightarrow> 'v smap" where
  "sm_remove k [] = []"
| "sm_remove k ((j, w) # m) = (if k = j then m else (j, w) # sm_remove k m)"

definition sm_ok :: "'v smap \<Rightarrow> bool" where
  "sm_ok m \<longleftrightarrow> sorted_wrt (<) (map fst m)"

definition sm_collect :: "(string \<times> 'v) list \<Rightarrow> 'v smap" where
  "sm_collect ps = fold (\<lambda>(k, v). sm_insert k v) ps []"

definition sm_keys :: "'v smap \<Rightarrow> string list" where
  "sm_keys m = map fst m"

definition sm_contains :: "'v smap \<Rightarrow> string \<Rightarrow> bool" where
  "sm_contains m k \<longleftrightarrow> sm_get m k \<noteq> None"

lemma sm_ok_Nil [simp]: "sm_ok []"
  by (simp add: sm_ok_def)

lemma sm_ok_Cons: "sm_ok ((k, v) # m) \<longleftrightarrow> (\<forall>j \<in> fst ` set m. k < j) \<and> sm_ok m"
  by (auto simp: sm_ok_def)

lemma sm_get_above: "\<forall>j \<in> fst ` set m. k < j \<Longrightarrow> sm_get m k = None"
  by (auto simp: map_of_eq_None_iff)

lemma fst_set_sm_insert: "fst ` set (sm_insert k v m) = insert k (fst ` set m)"
  by (induction k v m rule: sm_insert.induct) (simp_all add: insert_commute)

lemma fst_set_sm_remove: "fst ` set (sm_remove k m) \<subseteq> fst ` set m"
  by (induction k m rule: sm_remove.induct) (simp_all add: subset_insertI2 subset_insertI)

lemma sm_get_insert: "sm_ok m \<Longrightarrow> sm_get (sm_insert k v m) j = (if j = k then Some v else sm_get m j)"
  by (induction m) (auto simp: sm_ok_Cons)

lemma sm_get_remove: "sm_ok m \<Longrightarrow> sm_get (sm_remove k m) j = (if j = k then None else sm_get m j)"
  by (induction m) (auto simp: sm_ok_Cons sm_get_above)

lemma sm_ok_insert: "sm_ok m \<Longrightarrow> sm_ok (sm_insert k v m)"
proof (induction m)
  case Nil
  then show ?case by (simp add: sm_ok_def)
next
  case (Cons p m)
  obtain j w where p: "p = (j, w)" by force
  from Cons.prems have lt: "\<forall>i \<in> fst ` set m. j < i" and "sm_ok m"
    by (auto simp: p sm_ok_Cons)
  then have "sm_ok (sm_insert k v m)" by (blast intro: Cons.IH)
  then show ?case
    using Cons.prems lt
    by (auto simp: p sm_ok_Cons fst_set_sm_insert dest: less_trans)
qed

lemma sm_ok_remove: "sm_ok m \<Longrightarrow> sm_ok (sm_remove k m)"
proof (induction m)
  case Nil
  then show ?case by simp
next
  case (Cons p m)
  obtain j w where p: "p = (j, w)" by force
  from Cons.prems have lt: "\<forall>i \<in> fst ` set m. j < i" and "sm_ok m"
    by (auto simp: p sm_ok_Cons)
  then have "sm_ok (sm_remove k m)" by (blast intro: Cons.IH)
  moreover have "\<forall>i \<in> fst ` set (sm_remove k m). j < i"
    using lt fst_set_sm_remove [of k m] by blast
  ultimately show ?case using \<open>sm_ok m\<close> by (simp add: p sm_ok_Cons)
qed

interpretation sm: keyed_store "[]" sm_get sm_insert sm_remove sm_ok
  by unfold_locales (simp_all add: sm_get_insert sm_get_remove sm_ok_insert sm_ok_remove)

lemma sm_get_collect: "sm_get (sm_collect ps) j = map_of (rev ps) j"
  unfolding sm_collect_def by (rule sm.get_collect)

lemma sm_collect_dom: "sm_get (sm_collect ps) j \<noteq> None \<longleftrightarrow> j \<in> fst ` set ps"
  unfolding sm_get_collect by (simp add: map_of_eq_None_iff flip: not_None_eq)

lemma sm_collect_SomeD: "sm_get (sm_collect ps) j = Some v \<Longrightarrow> j \<in> fst ` set ps"
  using sm_collect_dom [of ps j] by simp

lemma sm_ok_collect [simp]: "sm_ok (sm_collect ps)"
  unfolding sm_collect_def by (rule sm.ok_collect)

lemma sm_ok_distinct: "sm_ok m \<Longrightarrow> distinct (map fst m)"
  by (simp add: sm_ok_def strict_sorted_iff)

lemma sm_ok_sorted_keys: "sm_ok m \<Longrightarrow> sorted (sm_keys m)"
  by (simp add: sm_ok_def sm_keys_def strict_sorted_iff)

lemma set_sm_keys: "k \<in> set (sm_keys m) \<longleftrightarrow> sm_get m k \<noteq> None"
  by (force simp: sm_keys_def map_of_eq_None_iff)

lemma sm_contains_insert [simp]:
  "sm_ok m \<Longrightarrow> sm_contains (sm_insert k v m) j \<longleftrightarrow> j = k \<or> sm_contains m j"
  by (simp add: sm_contains_def sm.get_insert)

lemma sm_contains_remove [simp]:
  "sm_ok m \<Longrightarrow> sm_contains (sm_remove k m) j \<longleftrightarrow> j \<noteq> k \<and> sm_contains m j"
  by (simp add: sm_contains_def sm.get_remove)

lemma map_of_rev_distinct: "distinct (map fst xs) \<Longrightarrow> map_of (rev xs) = map_of xs"
  by (subst map_of_inject_set) (simp_all add: rev_map [symmetric])

text \<open>A value is replaced in place, as \<open>get_mut\<close> allows.\<close>

fun sm_update :: "string \<Rightarrow> ('v \<Rightarrow> 'v) \<Rightarrow> 'v smap \<Rightarrow> 'v smap" where
  "sm_update k f [] = []"
| "sm_update k f ((j, w) # m) = (if k = j then (j, f w) # m else (j, w) # sm_update k f m)"

lemma map_fst_sm_update [simp]: "map fst (sm_update k f m) = map fst m"
  by (induction k f m rule: sm_update.induct) auto

lemma sm_ok_update [simp]: "sm_ok (sm_update k f m) = sm_ok m"
  by (simp add: sm_ok_def)

lemma sm_get_update: "sm_get (sm_update k f m) j = (if j = k then map_option f (sm_get m j) else sm_get m j)"
  by (induction k f m rule: sm_update.induct) auto

end
