(* ===== verification/Numeric.thy ===== *)
theory Numeric
  imports OrdMap
begin

text \<open>
  Numbers as text: decimal formatting (\<open>{}\<close>), two-digit lowercase hexadecimal (\<open>{:02x}\<close>),
  \<open>char::to_digit\<close> and the integer parsers \<open>from_str\<close> and \<open>from_str_radix\<close> of the standard
  library, and the three hex codecs the crates build from them: the printer \<open>to_hex\<close> (nonces
  and the CLI), the fixed-length array parser (nonces, public keys, signing seeds) and the
  strict parser \<open>decode_hex\<close> of the control handler.
\<close>

section \<open>Digits\<close>

definition to_digit :: "nat \<Rightarrow> char \<Rightarrow> nat option" where
  "to_digit r c =
     (let d = (if 48 \<le> byte c \<and> byte c \<le> 57 then byte c - 48
               else if 97 \<le> byte c \<and> byte c \<le> 122 then byte c - 87
               else if 65 \<le> byte c \<and> byte c \<le> 90 then byte c - 55
               else r)
      in if d < r then Some d else None)"

definition digit_char :: "nat \<Rightarrow> char" where
  "digit_char d = char_of (if d < 10 then 48 + d else 87 + d)"

lemma byte_digit_char: "d < 36 \<Longrightarrow> byte (digit_char d) = (if d < 10 then 48 + d else 87 + d)"
  by (simp add: digit_char_def)

lemma to_digit_digit_char: "d < r \<Longrightarrow> r \<le> 36 \<Longrightarrow> to_digit r (digit_char d) = Some d"
  by (simp add: to_digit_def byte_digit_char Let_def)

lemma to_digit_less: "to_digit r c = Some d \<Longrightarrow> d < r"
  by (auto simp: to_digit_def Let_def split: if_splits)

lemma to_digit_ascii: "to_digit r c = Some d \<Longrightarrow> byte c < 123"
  by (auto simp: to_digit_def Let_def split: if_splits)

section \<open>Decimal formatting\<close>

fun dec :: "nat \<Rightarrow> string" where
  "dec n = (if n < 10 then [digit_char n] else dec (n div 10) @ [digit_char (n mod 10)])"

declare dec.simps [simp del]

lemma dec_nonempty: "dec n \<noteq> []"
  by (subst dec.simps) simp

section \<open>Radix parsing\<close>

text \<open>
  \<open>uN::from_str_radix\<close>: an empty string and a lone sign are errors, one leading \<open>+\<close> is
  skipped (the type is unsigned, so \<open>-\<close> is an invalid digit), and every step is
  overflow-checked against the type's bound.
\<close>

fun digits_val :: "nat \<Rightarrow> nat \<Rightarrow> nat \<Rightarrow> string \<Rightarrow> nat option" where
  "digits_val r bound acc [] = Some acc"
| "digits_val r bound acc (c # cs) =
     (case to_digit r c of
        None \<Rightarrow> None
      | Some d \<Rightarrow>
          if acc * r + d < bound then digits_val r bound (acc * r + d) cs else None)"

definition parse_uint :: "nat \<Rightarrow> nat \<Rightarrow> string \<Rightarrow> nat option" where
  "parse_uint r bound s =
     (case s of
        [] \<Rightarrow> None
      | c # cs \<Rightarrow>
          if c = CHR ''+'' \<or> c = CHR ''-'' then
            (if cs = [] then None
             else if c = CHR ''+'' then digits_val r bound 0 cs
             else digits_val r bound 0 s)
          else digits_val r bound 0 s)"

lemma digits_val_append:
  "digits_val r bound acc (s @ t) =
     (case digits_val r bound acc s of None \<Rightarrow> None | Some v \<Rightarrow> digits_val r bound v t)"
  by (induction s arbitrary: acc) (auto split: option.splits)

lemma digits_val_bound: "digits_val r bound acc s = Some v \<Longrightarrow> acc < bound \<Longrightarrow> v < bound"
  by (induction s arbitrary: acc) (auto split: option.splits if_splits)

lemma parse_uint_bound: "parse_uint r bound s = Some v \<Longrightarrow> 0 < bound \<Longrightarrow> v < bound"
  by (auto simp: parse_uint_def simp del: digits_val.simps dest: digits_val_bound
      split: list.splits if_splits)

lemma to_digit_plus [simp]: "to_digit r CHR ''+'' = None" "to_digit r CHR ''-'' = None"
  by (simp_all add: to_digit_def)

lemma parse_uint_digits: "digits_val r bound 0 s = Some v \<Longrightarrow> s \<noteq> [] \<Longrightarrow> parse_uint r bound s = Some v"
  by (auto simp: parse_uint_def split: list.splits)

lemma digits_val_dec: "n < bound \<Longrightarrow> digits_val 10 bound 0 (dec n) = Some n"
proof (induction n rule: dec.induct)
  case (1 n)
  show ?case
  proof (cases "n < 10")
    case True
    with 1 show ?thesis by (subst dec.simps) (simp add: to_digit_digit_char)
  next
    case False
    then have "digits_val 10 bound 0 (dec (n div 10)) = Some (n div 10)"
      using 1 by simp
    moreover have "n div 10 * 10 + n mod 10 = n" by simp
    ultimately show ?thesis
      using False 1(2) by (subst dec.simps) (simp add: digits_val_append to_digit_digit_char)
  qed
qed

lemma parse_dec: "n < bound \<Longrightarrow> parse_uint 10 bound (dec n) = Some n"
  by (rule parse_uint_digits) (simp_all add: digits_val_dec dec_nonempty)

lemma dec_inj: "dec m = dec n \<longleftrightarrow> m = n"
proof
  assume eq: "dec m = dec n"
  have m: "parse_uint 10 (m + n + 1) (dec m) = Some m" by (rule parse_dec) simp
  have n: "parse_uint 10 (m + n + 1) (dec n) = Some n" by (rule parse_dec) simp
  from m have "parse_uint 10 (m + n + 1) (dec n) = Some m" unfolding eq .
  with n show "m = n" by (metis option.inject)
qed (rule arg_cong)

section \<open>Hexadecimal printing\<close>

definition fmt_02x :: "u8 \<Rightarrow> string" where
  "fmt_02x b = [digit_char (unat b div 16), digit_char (unat b mod 16)]"

definition to_hex :: "u8 list \<Rightarrow> string" where
  "to_hex bs = concat (map fmt_02x bs)"

lemma u8_less: "unat (b :: u8) < 256"
  using unsigned_less [where 'a = nat and w = b] by simp

lemma to_hex_Nil [simp]: "to_hex [] = []"
  by (simp add: to_hex_def)

lemma to_hex_Cons:
  "to_hex (b # bs) = digit_char (unat b div 16) # digit_char (unat b mod 16) # to_hex bs"
  by (simp add: to_hex_def fmt_02x_def)

lemma length_to_hex [simp]: "length (to_hex bs) = 2 * length bs"
  by (induction bs) (simp_all add: to_hex_Cons)

lemma hex_digits_of_byte:
  fixes b :: u8
  shows "to_digit 16 (digit_char (unat b div 16)) = Some (unat b div 16)"
    and "to_digit 16 (digit_char (unat b mod 16)) = Some (unat b mod 16)"
  using u8_less [of b] by (simp_all add: to_digit_digit_char less_mult_imp_div_less)

lemma to_hex_ascii: "c \<in> set (to_hex bs) \<Longrightarrow> byte c < 123"
proof (induction bs)
  case Nil
  then show ?case by simp
next
  case (Cons b bs)
  then show ?case
    using hex_digits_of_byte [of b] by (auto simp: to_hex_Cons dest: to_digit_ascii)
qed

section \<open>Fixed-length hex arrays\<close>

text \<open>
  \<open>Nonce::from_hex\<close>, \<open>decode_pubkey\<close> and \<open>decode_32\<close> share one loop: byte \<open>i\<close> is
  \<open>u8::from_str_radix(s.get(i*2..i*2+2)?, 16)\<close>, after a check of the total length.
\<close>

fun hex_array_loop :: "string \<Rightarrow> nat \<Rightarrow> nat \<Rightarrow> u8 list option" where
  "hex_array_loop s i 0 = Some []"
| "hex_array_loop s i (Suc n) =
     (case str_get s (i * 2) (i * 2 + 2) of
        None \<Rightarrow> None
      | Some t \<Rightarrow>
          (case parse_uint 16 256 t of
             None \<Rightarrow> None
           | Some v \<Rightarrow> map_option ((#) (word_of_nat v)) (hex_array_loop s (Suc i) n)))"

definition hex_array :: "nat \<Rightarrow> string \<Rightarrow> u8 list option" where
  "hex_array n s = (if length s \<noteq> n * 2 then None else hex_array_loop s 0 n)"

lemma length_hex_array_loop: "hex_array_loop s i n = Some bs \<Longrightarrow> length bs = n"
  by (induction s i n arbitrary: bs rule: hex_array_loop.induct) (auto split: option.splits)

lemma length_hex_array: "hex_array n s = Some bs \<Longrightarrow> length bs = n"
  by (auto simp: hex_array_def dest: length_hex_array_loop split: if_splits)

lemma parse_hex_pair:
  fixes b :: u8
  shows "parse_uint 16 256 [digit_char (unat b div 16), digit_char (unat b mod 16)] = Some (unat b)"
proof -
  have "unat b div 16 < 256" using u8_less [of b] by simp
  then have "digits_val 16 256 0 [digit_char (unat b div 16), digit_char (unat b mod 16)] = Some (unat b)"
    using u8_less [of b] by (simp add: hex_digits_of_byte)
  then show ?thesis by (simp add: parse_uint_digits)
qed

lemma str_get_ascii:
  assumes "\<forall>c \<in> set s. byte c < 123" and "s = p @ q @ r"
  shows "str_get s (length p) (length p + length q) = Some q"
proof -
  have "\<not> continuation (s ! i)" if "i < length s" for i
    using assms(1) nth_mem [OF that] by (force simp: continuation_def)
  then have "char_boundary s i" if "i \<le> length s" for i
    using that by (cases "i = length s") (auto simp: char_boundary_def)
  then show ?thesis using assms(2) by (simp add: str_get_def)
qed

lemma hex_array_loop_to_hex:
  "hex_array_loop (to_hex (as @ bs)) (length as) (length bs) = Some bs"
proof (induction bs arbitrary: as)
  case Nil
  then show ?case by simp
next
  case (Cons b bs)
  have "str_get (to_hex (as @ b # bs)) (length (to_hex as)) (length (to_hex as) + length (to_hex [b])) =
      Some (to_hex [b])"
  proof (rule str_get_ascii)
    show "\<forall>c \<in> set (to_hex (as @ b # bs)). byte c < 123" by (blast intro: to_hex_ascii)
    show "to_hex (as @ b # bs) = to_hex as @ to_hex [b] @ to_hex bs" by (simp add: to_hex_def)
  qed
  then have "str_get (to_hex (as @ b # bs)) (length as * 2) (length as * 2 + 2) =
      Some [digit_char (unat b div 16), digit_char (unat b mod 16)]"
    by (simp add: to_hex_Cons mult.commute)
  moreover have "hex_array_loop (to_hex (as @ b # bs)) (Suc (length as)) (length bs) = Some bs"
    using Cons.IH [of "as @ [b]"] by simp
  ultimately show ?case by (simp add: parse_hex_pair)
qed

lemma hex_array_to_hex: "length bs = n \<Longrightarrow> hex_array n (to_hex bs) = Some bs"
  using hex_array_loop_to_hex [of "[]" bs] by (auto simp: hex_array_def)

lemma to_hex_inj: "to_hex bs = to_hex cs \<longleftrightarrow> bs = cs"
proof
  assume eq: "to_hex bs = to_hex cs"
  then have "2 * length bs = 2 * length cs" by (metis length_to_hex)
  then have "hex_array (length bs) (to_hex cs) = Some cs" by (simp add: hex_array_to_hex)
  moreover have "hex_array (length bs) (to_hex bs) = Some bs" by (simp add: hex_array_to_hex)
  ultimately show "bs = cs" using eq by simp
qed simp

section \<open>The strict decoder of the control handler\<close>

fun decode_hex_loop :: "string \<Rightarrow> u8 list option" where
  "decode_hex_loop (h # l # s) =
     (case to_digit 16 h of
        None \<Rightarrow> None
      | Some hi \<Rightarrow>
          (case to_digit 16 l of
             None \<Rightarrow> None
           | Some lo \<Rightarrow> map_option ((#) (word_of_nat (hi * 16 + lo))) (decode_hex_loop s)))"
| "decode_hex_loop s = Some []"

definition decode_hex :: "string \<Rightarrow> u8 list option" where
  "decode_hex s = (if length s mod 2 \<noteq> 0 then None else decode_hex_loop s)"

lemma decode_hex_to_hex: "decode_hex (to_hex bs) = Some bs"
proof -
  have "decode_hex_loop (to_hex bs) = Some bs"
  proof (induction bs)
    case Nil
    then show ?case by simp
  next
    case (Cons b bs)
    have "unat b div 16 * 16 + unat b mod 16 = unat b" by simp
    then show ?case using Cons by (simp add: to_hex_Cons hex_digits_of_byte)
  qed
  then show ?thesis by (simp add: decode_hex_def)
qed

lemma length_decode_hex: "decode_hex s = Some bs \<Longrightarrow> length s = 2 * length bs"
proof -
  have "decode_hex_loop s = Some bs \<Longrightarrow> even (length s) \<Longrightarrow> length s = 2 * length bs"
    by (induction s arbitrary: bs rule: decode_hex_loop.induct) (auto split: option.splits)
  then show "decode_hex s = Some bs \<Longrightarrow> length s = 2 * length bs"
    by (auto simp: decode_hex_def even_iff_mod_2_eq_zero split: if_splits)
qed

end
