(* ===== verification/Json.thy ===== *)
theory Json
  imports Numeric
begin

text \<open>
  \<open>serde_json::Value\<close> as the crates use it: its variants, the accessors \<open>as_object\<close>,
  \<open>as_array\<close>, \<open>as_str\<close>, \<open>as_u64\<close>, \<open>as_i64\<close>, \<open>get\<close> and \<open>is_array\<close>, and the objects the \<open>json!\<close>
  macro builds. An object is a map ordered by key (\<open>serde_json\<close> is built without
  \<open>preserve_order\<close>). The text parser and printer of \<open>serde_json\<close> are arguments of the
  definitions that call them.
\<close>

text \<open>A number is a \<open>u64\<close>, a negative \<open>i64\<close>, or a float given by its bits.\<close>

datatype jnum = PosInt u64 | NegInt int | Float u64

datatype json =
    JNull
  | JBool bool
  | JNum jnum
  | JStr string
  | JArr "json list"
  | JObj "json smap"

fun as_object :: "json \<Rightarrow> json smap option" where
  "as_object (JObj m) = Some m"
| "as_object _ = None"

fun as_array :: "json \<Rightarrow> json list option" where
  "as_array (JArr xs) = Some xs"
| "as_array _ = None"

fun as_str :: "json \<Rightarrow> string option" where
  "as_str (JStr s) = Some s"
| "as_str _ = None"

fun num_u64 :: "jnum \<Rightarrow> u64 option" where
  "num_u64 (PosInt n) = Some n"
| "num_u64 _ = None"

fun num_i64 :: "jnum \<Rightarrow> int option" where
  "num_i64 (PosInt n) = (if unat n < 2 ^ 63 then Some (uint n) else None)"
| "num_i64 (NegInt i) = Some i"
| "num_i64 (Float f) = None"

fun as_u64 :: "json \<Rightarrow> u64 option" where
  "as_u64 (JNum n) = num_u64 n"
| "as_u64 _ = None"

fun as_i64 :: "json \<Rightarrow> int option" where
  "as_i64 (JNum n) = num_i64 n"
| "as_i64 _ = None"

fun jget :: "json \<Rightarrow> string \<Rightarrow> json option" where
  "jget (JObj m) k = sm_get m k"
| "jget _ k = None"

fun is_array :: "json \<Rightarrow> bool" where
  "is_array (JArr xs) = True"
| "is_array _ = False"

definition jobj :: "(string \<times> json) list \<Rightarrow> json" where
  "jobj ps = JObj (sm_collect ps)"

lemma as_object_Some: "as_object v = Some m \<longleftrightarrow> v = JObj m"
  by (cases v) auto

lemma as_array_Some: "as_array v = Some xs \<longleftrightarrow> v = JArr xs"
  by (cases v) auto

lemma as_str_Some: "as_str v = Some s \<longleftrightarrow> v = JStr s"
  by (cases v) auto

lemma as_u64_Some: "as_u64 v = Some n \<longleftrightarrow> v = JNum (PosInt n)"
  by (cases v; cases "case v of JNum x \<Rightarrow> x | _ \<Rightarrow> Float 0") (auto split: json.splits)

lemma num_u64_Some: "num_u64 n = Some v \<longleftrightarrow> n = PosInt v"
  by (cases n) auto

lemma jget_Some_object: "jget v k = Some w \<Longrightarrow> \<exists>m. v = JObj m \<and> sm_get m k = Some w"
  by (cases v) auto

lemma jget_jobj: "jget (jobj ps) k = map_of (rev ps) k"
  by (simp add: jobj_def sm_get_collect)

lemmas json_get_simps = jget_jobj map_add_def

end
