(* ===== verification/Render.thy ===== *)
theory Render
  imports Numeric
begin

text \<open>
  The rendering of the standard library's \<open>Debug\<close> output, as \<open>{:?}\<close> prints it: escaped strings,
  \<open>debug_struct\<close>, lists, options and the derived output of plain enums. A character past ASCII
  prints as it is or as an escape, by the Unicode tables of the library; \<open>wide\<close> is that choice.
\<close>

section \<open>Strings\<close>

text \<open>The hexadecimal digits of a number, without leading zeros.\<close>

fun hex_digits :: "nat \<Rightarrow> string" where
  "hex_digits n = (if n < 16 then [digit_char n] else hex_digits (n div 16) @ [digit_char (n mod 16)])"

declare hex_digits.simps [simp del]

definition ascii_debug :: "char \<Rightarrow> string" where
  "ascii_debug c =
     (if c = CHR 0x00 then [CHR 0x5C, CHR ''0'']
      else if c = CHR 0x09 then [CHR 0x5C, CHR ''t'']
      else if c = CHR 0x0A then [CHR 0x5C, CHR ''n'']
      else if c = CHR 0x0D then [CHR 0x5C, CHR ''r'']
      else if c = CHR 0x22 \<or> c = CHR 0x5C then [CHR 0x5C, c]
      else if byte c < 32 \<or> byte c = 127 then CHR 0x5C # ''u{'' @ hex_digits (byte c) @ ''}''
      else [c])"

function escape_debug :: "(string \<Rightarrow> string) \<Rightarrow> string \<Rightarrow> string" where
  "escape_debug wide [] = []"
| "escape_debug wide (c # s) =
     (if byte c < 128 then ascii_debug c @ escape_debug wide s
      else wide (c # takeWhile continuation s) @ escape_debug wide (dropWhile continuation s))"
  by pat_completeness auto
termination
  by (relation "measure (length o snd)") (auto simp: le_imp_less_Suc length_dropWhile_le)

definition str_debug :: "(string \<Rightarrow> string) \<Rightarrow> string \<Rightarrow> string" where
  "str_debug wide s = CHR 0x22 # escape_debug wide s @ [CHR 0x22]"

section \<open>Structures\<close>

definition braces :: "string \<Rightarrow> string" where
  "braces s = '' { '' @ s @ '' }''"

definition debug_struct :: "string \<Rightarrow> (string \<times> string) list \<Rightarrow> string" where
  "debug_struct name members =
     name @ (if members = [] then []
             else braces (join '', '' (map (\<lambda>(f, v). f @ '': '' @ v) members)))"

definition debug_list :: "string list \<Rightarrow> string" where
  "debug_list vs = ''['' @ join '', '' vs @ '']''"

definition debug_bool :: "bool \<Rightarrow> string" where
  "debug_bool b = (if b then ''true'' else ''false'')"

text \<open>Two texts that the programs print: a name in single quotes, and the long dash in UTF-8.\<close>

definition quoted :: "string \<Rightarrow> string" where "quoted s = CHR 0x27 # s @ [CHR 0x27]"
definition em_dash :: string where "em_dash = [CHR 0xE2, CHR 0x80, CHR 0x94]"

text \<open>\<open>Path::display\<close> prints a path that is UTF-8 as it is; \<open>lossy\<close> is what it makes of another.\<close>

definition display_path :: "(string \<Rightarrow> string) \<Rightarrow> string \<Rightarrow> string" where
  "display_path lossy p = (if utf8_valid p then p else lossy p)"

text \<open>What the handwritten outputs print in place of a secret.\<close>

definition redacted :: "(string \<Rightarrow> string) \<Rightarrow> string" where
  "redacted wide = str_debug wide ''<redacted>''"

section \<open>Facts\<close>

text \<open>A control byte is below the blank, or DEL.\<close>

definition control_byte :: "char \<Rightarrow> bool" where
  "control_byte c \<longleftrightarrow> byte c < 32 \<or> byte c = 127"

lemma control_byte_literal [simp]:
  "\<not> control_byte CHR 0x5C" "\<not> control_byte CHR 0x22" "\<not> control_byte CHR ''0''"
  "\<not> control_byte CHR ''t''" "\<not> control_byte CHR ''n''" "\<not> control_byte CHR ''r''"
  "\<not> control_byte CHR ''u''" "\<not> control_byte CHR 0x7B" "\<not> control_byte CHR 0x7D"
  by (simp_all add: control_byte_def)

lemma control_byte_digit [simp]: "d < 36 \<Longrightarrow> \<not> control_byte (digit_char d)"
  by (simp add: control_byte_def byte_digit_char)

lemma control_free_hex_digits: "c \<in> set (hex_digits n) \<Longrightarrow> \<not> control_byte c"
proof (induction n arbitrary: c rule: less_induct)
  case (less n)
  show ?case
  proof (cases "n < 16")
    case True
    then show ?thesis using less.prems hex_digits.simps [of n] by simp
  next
    case False
    then have "n div 16 < n" by simp
    from less.IH [OF this] less.prems False show ?thesis
      using hex_digits.simps [of n] by auto
  qed
qed

lemma control_free_ascii_debug: "d \<in> set (ascii_debug c) \<Longrightarrow> \<not> control_byte d"
  by (auto simp: ascii_debug_def control_byte_def [of c] dest: control_free_hex_digits split: if_splits)

text \<open>
  What \<open>{:?}\<close> prints for a string holds no control byte, so an identifier that is quoted this
  way in a message cannot break the line or drive the terminal.
\<close>

lemma control_free_str_debug:
  assumes wide: "\<And>u c. c \<in> set (wide u) \<Longrightarrow> \<not> control_byte c"
  shows "c \<in> set (str_debug wide s) \<Longrightarrow> \<not> control_byte c"
proof -
  have "c \<in> set (escape_debug wide s) \<Longrightarrow> \<not> control_byte c" for c
    using wide
    by (induction wide s rule: escape_debug.induct)
      (auto dest: control_free_ascii_debug split: if_splits)
  then show "c \<in> set (str_debug wide s) \<Longrightarrow> \<not> control_byte c"
    by (auto simp: str_debug_def)
qed

end
