(* ===== verification/Manifest.thy ===== *)
theory Manifest
  imports Json Render
begin

text \<open>
  \<open>crates/core/src/manifest.rs\<close>: the operator's description of the supervised servers. The
  tool classes, the bounds on a parsed manifest, the validation of its structure and of the
  environment keys it hands to child processes, and loading from bytes with the integrity
  hash. \<open>serde_json\<close> (text to manifest) and \<open>sha2\<close> (the digest) are arguments. Each message of
  \<open>ManifestError::Invalid\<close> is one constructor of \<open>invalid_reason\<close> with what it interpolates, and
  \<open>invalid_reason_text\<close> is its text.
\<close>

section \<open>Tool classes\<close>

datatype tool_class = Read | Write | Confirm

fun is_read :: "tool_class \<Rightarrow> bool" where
  "is_read Read = True"
| "is_read Write = False"
| "is_read Confirm = False"

definition requires_elevation :: "tool_class \<Rightarrow> bool" where
  "requires_elevation c = (\<not> is_read c)"

fun requires_per_action_presence :: "tool_class \<Rightarrow> bool" where
  "requires_per_action_presence Confirm = True"
| "requires_per_action_presence Read = False"
| "requires_per_action_presence Write = False"

text \<open>
  The classes ordered by how much they gate: \<open>Read\<close> is open, \<open>Write\<close> needs an elevation,
  \<open>Confirm\<close> needs an elevation and a confirmation.
\<close>

fun gates :: "tool_class \<Rightarrow> nat" where
  "gates c = (if requires_elevation c then 1 else 0)
     + (if requires_per_action_presence c then 1 else 0)"

declare gates.simps [simp del]

lemma gates_class [simp]: "gates Read = 0" "gates Write = 1" "gates Confirm = 2"
  by (simp_all add: gates.simps requires_elevation_def)

lemma gates_inj: "gates c = gates d \<longleftrightarrow> c = d"
  by (cases c; cases d) simp_all

instantiation tool_class :: linorder
begin

definition less_eq_tool_class :: "tool_class \<Rightarrow> tool_class \<Rightarrow> bool" where
  "c \<le> d \<longleftrightarrow> gates c \<le> gates d"

definition less_tool_class :: "tool_class \<Rightarrow> tool_class \<Rightarrow> bool" where
  "c < d \<longleftrightarrow> gates c < gates d"

instance
  by standard (auto simp: less_eq_tool_class_def less_tool_class_def gates_inj [symmetric])

end

lemma is_read_iff: "is_read c \<longleftrightarrow> c = Read"
  by (cases c) auto

lemma is_read_antimono: "c \<le> d \<Longrightarrow> is_read d \<Longrightarrow> is_read c"
  by (cases c; cases d) (simp_all add: less_eq_tool_class_def)

lemma confirm_iff: "requires_per_action_presence c \<longleftrightarrow> c = Confirm"
  by (cases c) auto

fun propose_from_hint :: "bool option \<Rightarrow> tool_class" where
  "propose_from_hint (Some True) = Read"
| "propose_from_hint _ = Write"

section \<open>Servers and manifests\<close>

record server_manifest =
  srv_id :: string
  srv_command :: string
  srv_args :: "string list"
  srv_env :: "string smap"
  srv_tools :: "tool_class smap"

record manifest =
  mf_servers :: "server_manifest list"

definition max_manifest_bytes :: nat where "max_manifest_bytes = 1048576"
definition max_servers :: nat where "max_servers = 256"
definition max_tools_per_server :: nat where "max_tools_per_server = 1024"
definition max_env_per_server :: nat where "max_env_per_server = 256"
definition max_args :: nat where "max_args = 256"
definition max_id_len :: nat where "max_id_len = 128"
definition max_name_len :: nat where "max_name_len = 128"
definition max_command_len :: nat where "max_command_len = 4096"
definition max_value_len :: nat where "max_value_len = 8192"
definition max_env_key_len :: nat where "max_env_key_len = 256"

lemmas manifest_bounds =
  max_manifest_bytes_def max_servers_def max_tools_per_server_def max_env_per_server_def
  max_args_def max_id_len_def max_name_len_def max_command_len_def max_value_len_def
  max_env_key_len_def

datatype key_fault = KeyEmpty | KeyTooLong | KeyBadByte | KeyLoader

datatype invalid_reason =
    TooLarge nat
  | TooManyServers
  | EmptyId
  | IdTooLong string
  | EmptyCommand string
  | CommandTooLong string
  | TooManyArgs string
  | ArgTooLong string
  | TooManyTools string
  | ToolNameTooLong string
  | TooManyEnv string
  | BadEnvKey string string key_fault
  | EnvValueTooLong string string
  | DuplicateId string

datatype manifest_error = MfIo string | MfParse string | MfInvalid invalid_reason

section \<open>Messages\<close>

fun key_fault_text :: "key_fault \<Rightarrow> string" where
  "key_fault_text KeyEmpty = ''is empty''"
| "key_fault_text KeyTooLong = ''is too long''"
| "key_fault_text KeyBadByte =
     ''contains '' @ quoted ''='' @ '', NUL, whitespace, or a control character''"
| "key_fault_text KeyLoader = ''is a dynamic-loader variable and is not allowed in the manifest''"

definition of_server :: "string \<Rightarrow> string \<Rightarrow> string" where
  "of_server sid what = ''server '' @ quoted sid @ '' '' @ what"

definition max_note :: "nat \<Rightarrow> string" where
  "max_note n = '' (max '' @ dec n @ '')''"

fun invalid_reason_text :: "(string \<Rightarrow> string) \<Rightarrow> invalid_reason \<Rightarrow> string" where
  "invalid_reason_text wide (TooLarge n) =
     ''manifest is too large ('' @ dec n @ '' bytes, max '' @ dec max_manifest_bytes @ '')''"
| "invalid_reason_text wide TooManyServers = ''too many servers'' @ max_note max_servers"
| "invalid_reason_text wide EmptyId = ''a server has an empty id''"
| "invalid_reason_text wide (IdTooLong sid) =
     ''server id '' @ str_debug wide sid @ '' is too long'' @ max_note max_id_len"
| "invalid_reason_text wide (EmptyCommand sid) = of_server sid ''has an empty command''"
| "invalid_reason_text wide (CommandTooLong sid) =
     of_server sid (''command is too long'' @ max_note max_command_len)"
| "invalid_reason_text wide (TooManyArgs sid) = of_server sid (''has too many args'' @ max_note max_args)"
| "invalid_reason_text wide (ArgTooLong sid) =
     of_server sid (''has an arg that is too long'' @ max_note max_value_len)"
| "invalid_reason_text wide (TooManyTools sid) =
     of_server sid (''declares too many tools'' @ max_note max_tools_per_server)"
| "invalid_reason_text wide (ToolNameTooLong sid) =
     of_server sid (''has a tool name that is too long'' @ max_note max_name_len)"
| "invalid_reason_text wide (TooManyEnv sid) =
     of_server sid (''declares too many env vars'' @ max_note max_env_per_server)"
| "invalid_reason_text wide (BadEnvKey sid key fault) =
     of_server sid (''env key '' @ str_debug wide key @ '' '' @ key_fault_text fault)"
| "invalid_reason_text wide (EnvValueTooLong sid key) =
     of_server sid (''env value for '' @ str_debug wide key @ '' is too long'' @ max_note max_value_len)"
| "invalid_reason_text wide (DuplicateId sid) = ''duplicate server id: '' @ sid"

fun manifest_error_text :: "(string \<Rightarrow> string) \<Rightarrow> manifest_error \<Rightarrow> string" where
  "manifest_error_text wide (MfIo e) = ''could not read manifest: '' @ e"
| "manifest_error_text wide (MfParse e) = ''could not parse manifest: '' @ e"
| "manifest_error_text wide (MfInvalid e) = ''invalid manifest: '' @ invalid_reason_text wide e"

fun manifest_error_source :: "manifest_error \<Rightarrow> string option" where
  "manifest_error_source (MfIo e) = Some e"
| "manifest_error_source _ = None"

section \<open>Validation\<close>

text \<open>
  The test on each byte of an environment key: \<open>=\<close>, NUL, Latin-1 whitespace
  (\<open>(b as char).is_whitespace()\<close>, which includes \<open>85\<close> and \<open>A0\<close>) or an ASCII control byte.
\<close>

definition bad_key_byte :: "char \<Rightarrow> bool" where
  "bad_key_byte c \<longleftrightarrow>
     byte c = 61 \<or> byte c = 0
     \<or> (9 \<le> byte c \<and> byte c \<le> 13 \<or> byte c = 32 \<or> byte c = 133 \<or> byte c = 160)
     \<or> (byte c < 32 \<or> byte c = 127)"

definition validate_env_key :: "string \<Rightarrow> string \<Rightarrow> invalid_reason + unit" where
  "validate_env_key sid key =
     (if key = [] then Err (BadEnvKey sid key KeyEmpty)
      else if max_env_key_len < length key then Err (BadEnvKey sid key KeyTooLong)
      else if \<exists>b \<in> set key. bad_key_byte b then Err (BadEnvKey sid key KeyBadByte)
      else
        (let upper = to_ascii_uppercase key in
         if starts_with ''LD_'' upper \<or> starts_with ''DYLD_'' upper
         then Err (BadEnvKey sid key KeyLoader)
         else Ok ()))"

fun validate_env :: "string \<Rightarrow> (string \<times> string) list \<Rightarrow> invalid_reason + unit" where
  "validate_env sid [] = Ok ()"
| "validate_env sid ((key, val) # env) =
     (case validate_env_key sid key of
        Inl e \<Rightarrow> Err e
      | Inr u \<Rightarrow>
          if max_value_len < length val then Err (EnvValueTooLong sid key)
          else validate_env sid env)"

text \<open>The checks of one server, in the order of the loop body, up to the duplicate check.\<close>

definition validate_server :: "server_manifest \<Rightarrow> invalid_reason + unit" where
  "validate_server s =
     (if blank (srv_id s) then Err EmptyId
      else if max_id_len < length (srv_id s) then Err (IdTooLong (srv_id s))
      else if blank (srv_command s) then Err (EmptyCommand (srv_id s))
      else if max_command_len < length (srv_command s) then Err (CommandTooLong (srv_id s))
      else if max_args < length (srv_args s) then Err (TooManyArgs (srv_id s))
      else if \<exists>a \<in> set (srv_args s). max_value_len < length a then Err (ArgTooLong (srv_id s))
      else if max_tools_per_server < length (srv_tools s) then Err (TooManyTools (srv_id s))
      else if \<exists>t \<in> set (sm_keys (srv_tools s)). max_name_len < length t
        then Err (ToolNameTooLong (srv_id s))
      else if max_env_per_server < length (srv_env s) then Err (TooManyEnv (srv_id s))
      else validate_env (srv_id s) (srv_env s))"

text \<open>The loop over the servers, with the set of ids seen so far.\<close>

fun validate_servers :: "string set \<Rightarrow> server_manifest list \<Rightarrow> invalid_reason + unit" where
  "validate_servers seen [] = Ok ()"
| "validate_servers seen (s # ss) =
     (case validate_server s of
        Inl e \<Rightarrow> Err e
      | Inr u \<Rightarrow>
          if srv_id s \<in> seen then Err (DuplicateId (srv_id s))
          else validate_servers (insert (srv_id s) seen) ss)"

definition validate :: "manifest \<Rightarrow> invalid_reason + unit" where
  "validate m =
     (if max_servers < length (mf_servers m) then Err TooManyServers
      else validate_servers {} (mf_servers m))"

definition manifest_server :: "manifest \<Rightarrow> string \<Rightarrow> server_manifest option" where
  "manifest_server m i = find (\<lambda>s. srv_id s = i) (mf_servers m)"

subsection \<open>What validation promises\<close>

text \<open>The specification of an acceptable key, server and manifest, without any order of checks.\<close>

definition good_key :: "string \<Rightarrow> bool" where
  "good_key k \<longleftrightarrow> k \<noteq> [] \<and> length k \<le> max_env_key_len \<and> (\<forall>b \<in> set k. \<not> bad_key_byte b)
     \<and> (\<forall>r. to_ascii_uppercase k \<noteq> ''LD_'' @ r) \<and> (\<forall>r. to_ascii_uppercase k \<noteq> ''DYLD_'' @ r)"

definition good_server :: "server_manifest \<Rightarrow> bool" where
  "good_server s \<longleftrightarrow>
     \<not> blank (srv_id s) \<and> length (srv_id s) \<le> max_id_len
     \<and> \<not> blank (srv_command s) \<and> length (srv_command s) \<le> max_command_len
     \<and> length (srv_args s) \<le> max_args \<and> (\<forall>a \<in> set (srv_args s). length a \<le> max_value_len)
     \<and> length (srv_tools s) \<le> max_tools_per_server
     \<and> (\<forall>t \<in> set (sm_keys (srv_tools s)). length t \<le> max_name_len)
     \<and> length (srv_env s) \<le> max_env_per_server
     \<and> (\<forall>(k, v) \<in> set (srv_env s). good_key k \<and> length v \<le> max_value_len)"

definition good_manifest :: "manifest \<Rightarrow> bool" where
  "good_manifest m \<longleftrightarrow>
     length (mf_servers m) \<le> max_servers \<and> (\<forall>s \<in> set (mf_servers m). good_server s)
     \<and> distinct (map srv_id (mf_servers m))"

lemma validate_env_key_ok: "validate_env_key sid k = Ok u \<longleftrightarrow> good_key k"
  by (auto simp: validate_env_key_def good_key_def Let_def starts_with_iff not_less)

lemma validate_env_ok:
  "validate_env sid env = Ok u \<longleftrightarrow> (\<forall>(k, v) \<in> set env. good_key k \<and> length v \<le> max_value_len)"
proof (induction env)
  case Nil
  then show ?case by simp
next
  case (Cons p env)
  obtain k v where p: "p = (k, v)" by force
  show ?case
  proof (cases "validate_env_key sid k")
    case (Inl e)
    then have "\<not> good_key k" using validate_env_key_ok [of sid k "()"] by auto
    then show ?thesis by (simp add: p Inl)
  next
    case (Inr w)
    then have "good_key k" using validate_env_key_ok by blast
    then show ?thesis using Cons by (auto simp: p Inr)
  qed
qed

lemma validate_server_ok: "validate_server s = Ok u \<longleftrightarrow> good_server s"
  by (auto simp: validate_server_def good_server_def validate_env_ok not_less not_le)

lemma validate_servers_ok:
  "validate_servers seen ss = Ok u \<longleftrightarrow>
     (\<forall>s \<in> set ss. good_server s) \<and> distinct (map srv_id ss) \<and> (\<forall>s \<in> set ss. srv_id s \<notin> seen)"
proof (induction ss arbitrary: seen)
  case Nil
  then show ?case by simp
next
  case (Cons s ss)
  show ?case
  proof (cases "validate_server s")
    case (Inl e)
    then have "\<not> good_server s" by (metis Inl_Inr_False validate_server_ok)
    then show ?thesis by (simp add: Inl)
  next
    case (Inr w)
    then have "good_server s" by (simp add: validate_server_ok)
    then show ?thesis using Cons by (auto simp: Inr) (metis imageI)
  qed
qed

lemma validate_ok_iff: "validate m = Ok () \<longleftrightarrow> good_manifest m"
  by (auto simp: validate_def good_manifest_def validate_servers_ok)

section \<open>Loading\<close>

record loaded_manifest =
  lm_manifest :: manifest
  lm_integrity :: string

definition sha256_hex :: "(string \<Rightarrow> u8 list) \<Rightarrow> string \<Rightarrow> string" where
  "sha256_hex sha bytes = to_hex (sha bytes)"

definition load_from_bytes ::
  "(string \<Rightarrow> string + manifest) \<Rightarrow> (string \<Rightarrow> u8 list) \<Rightarrow> string \<Rightarrow>
     manifest_error + loaded_manifest" where
  "load_from_bytes parse sha bytes =
     (if max_manifest_bytes < length bytes then Err (MfInvalid (TooLarge (length bytes)))
      else
        (let integrity = sha256_hex sha bytes in
         case parse bytes of
           Inl e \<Rightarrow> Err (MfParse e)
         | Inr m \<Rightarrow>
             (case validate m of
                Inl e \<Rightarrow> Err (MfInvalid e)
              | Inr u \<Rightarrow> Ok \<lparr>lm_manifest = m, lm_integrity = integrity\<rparr>)))"

definition load_from_path ::
  "(string \<Rightarrow> string + manifest) \<Rightarrow> (string \<Rightarrow> u8 list) \<Rightarrow> (string \<Rightarrow> string + string) \<Rightarrow> string \<Rightarrow>
     manifest_error + loaded_manifest" where
  "load_from_path parse sha read_file path =
     (case read_file path of
        Inl e \<Rightarrow> Err (MfIo e)
      | Inr bytes \<Rightarrow> load_from_bytes parse sha bytes)"

lemma load_from_bytes_ok:
  "load_from_bytes parse sha bytes = Ok l \<longleftrightarrow>
     length bytes \<le> max_manifest_bytes \<and> parse bytes = Ok (lm_manifest l)
     \<and> good_manifest (lm_manifest l) \<and> lm_integrity l = to_hex (sha bytes)"
  by (cases l) (auto simp: load_from_bytes_def sha256_hex_def Let_def validate_ok_iff [symmetric]
      split: sum.splits)

lemma good_manifest_server_unique:
  "good_manifest m \<Longrightarrow> s \<in> set (mf_servers m) \<Longrightarrow> manifest_server m (srv_id s) = Some s"
  by (simp add: manifest_server_def good_manifest_def find_key)

end
