(* ===== verification/Policy.thy ===== *)
theory Policy
  imports Manifest
begin

text \<open>
  \<open>crates/core/src/policy.rs\<close>: the exposure gate. Classification of advertised tool names
  against the operator's table (default-deny), elevations with their expiry on a 64-bit
  clock, and the resolution of the tools a server offers.
\<close>

section \<open>Classification\<close>

record classified_tool =
  ct_name :: string
  ct_class :: tool_class

definition classify :: "tool_class smap \<Rightarrow> string \<Rightarrow> classified_tool" where
  "classify manifest_tools advertised_name =
     (let class = (case sm_get manifest_tools advertised_name of None \<Rightarrow> Write | Some c \<Rightarrow> c)
      in \<lparr>ct_name = advertised_name, ct_class = class\<rparr>)"

definition classify_advertised :: "tool_class smap \<Rightarrow> string list \<Rightarrow> classified_tool list" where
  "classify_advertised manifest_tools advertised = map (classify manifest_tools) advertised"

lemma ct_name_classify [simp]: "ct_name (classify m n) = n"
  by (simp add: classify_def)

lemma classify_default_deny: "sm_get m n = None \<Longrightarrow> ct_class (classify m n) = Write"
  by (simp add: classify_def)

lemma classify_declared: "sm_get m n = Some c \<Longrightarrow> ct_class (classify m n) = c"
  by (simp add: classify_def)

lemma classify_read_iff: "is_read (ct_class (classify m n)) \<longleftrightarrow> sm_get m n = Some Read"
  by (auto simp: classify_def is_read_iff split: option.splits)

lemma map_name_classify_advertised [simp]: "map ct_name (classify_advertised m ns) = ns"
  by (induction ns) (simp_all add: classify_advertised_def)

lemma set_classify_advertised: "t \<in> set (classify_advertised m ns) \<longleftrightarrow> (\<exists>n \<in> set ns. t = classify m n)"
  by (auto simp: classify_advertised_def)

lemma find_classify_advertised:
  "find (\<lambda>t. ct_name t = n) (classify_advertised m ns) = (if n \<in> set ns then Some (classify m n) else None)"
  by (induction ns) (auto simp: classify_advertised_def)

section \<open>Elevation\<close>

type_synonym timestamp = u64

datatype elevation_mode = Duration | UntilRevoked

record elevation =
  granted_at :: timestamp
  expires_at :: "timestamp option"

definition for_duration :: "timestamp \<Rightarrow> timestamp \<Rightarrow> elevation" where
  "for_duration granted ttl = \<lparr>granted_at = granted, expires_at = Some (sat_add granted ttl)\<rparr>"

definition until_revoked :: "timestamp \<Rightarrow> elevation" where
  "until_revoked granted = \<lparr>granted_at = granted, expires_at = None\<rparr>"

definition mode :: "elevation \<Rightarrow> elevation_mode" where
  "mode e = (case expires_at e of Some x \<Rightarrow> Duration | None \<Rightarrow> UntilRevoked)"

definition is_active :: "elevation \<Rightarrow> timestamp \<Rightarrow> bool" where
  "is_active e now = (case expires_at e of Some expiry \<Rightarrow> now < expiry | None \<Rightarrow> True)"

lemma mode_constructors [simp]:
  "mode (for_duration g ttl) = Duration" "mode (until_revoked g) = UntilRevoked"
  by (simp_all add: mode_def for_duration_def until_revoked_def)

lemma is_active_until_revoked [simp]: "is_active (until_revoked g) now"
  by (simp add: is_active_def until_revoked_def)

lemma is_active_for_duration:
  "is_active (for_duration g ttl) now \<longleftrightarrow> unat now < min (unat g + unat ttl) (2 ^ 64 - 1)"
  by (simp add: is_active_def for_duration_def word_less_nat_alt unat_sat_add)

lemma is_active_antimono: "is_active e later \<Longrightarrow> now \<le> later \<Longrightarrow> is_active e now"
  by (auto simp: is_active_def split: option.splits)

section \<open>Exposure\<close>

datatype server_state = Running | Paused | Stopped

fun is_some_and :: "'a option \<Rightarrow> ('a \<Rightarrow> bool) \<Rightarrow> bool" where
  "is_some_and None p = False"
| "is_some_and (Some a) p = p a"

definition resolve_exposure ::
  "classified_tool list \<Rightarrow> server_state \<Rightarrow> elevation option \<Rightarrow> timestamp \<Rightarrow> string list" where
  "resolve_exposure tools state elevation now =
     (if state \<noteq> Running then []
      else
        (let elevated = is_some_and elevation (\<lambda>e. is_active e now)
         in sort (map ct_name (filter (\<lambda>t. is_read (ct_class t) \<or> elevated) tools))))"

lemma is_some_and_iff: "is_some_and x p \<longleftrightarrow> (\<exists>a. x = Some a \<and> p a)"
  by (cases x) auto

lemma set_resolve_exposure:
  "n \<in> set (resolve_exposure tools st el now) \<longleftrightarrow>
     st = Running \<and> (\<exists>t \<in> set tools. ct_name t = n \<and>
       (is_read (ct_class t) \<or> is_some_and el (\<lambda>e. is_active e now)))"
  by (auto simp: resolve_exposure_def Let_def)

lemma resolve_exposure_idle [simp]: "st \<noteq> Running \<Longrightarrow> resolve_exposure tools st el now = []"
  by (simp add: resolve_exposure_def)

lemma resolve_exposure_sorted: "sorted (resolve_exposure tools st el now)"
  by (simp add: resolve_exposure_def Let_def)

lemma resolve_exposure_unelevated:
  "\<not> is_some_and el (\<lambda>e. is_active e now) \<Longrightarrow>
    resolve_exposure tools st el now = resolve_exposure tools st None now"
  by (simp add: resolve_exposure_def)

lemma resolve_exposure_later:
  "now \<le> later \<Longrightarrow>
    set (resolve_exposure tools st el later) \<subseteq> set (resolve_exposure tools st el now)"
  by (fastforce simp: set_resolve_exposure is_some_and_iff intro: is_active_antimono)

text \<open>Tightening the class of tools never opens the gate.\<close>

lemma resolve_exposure_antimono:
  assumes "list_all2 (\<lambda>t u. ct_name t = ct_name u \<and> ct_class t \<le> ct_class u) ts us"
  shows "set (resolve_exposure us st el now) \<subseteq> set (resolve_exposure ts st el now)"
proof
  fix n
  assume "n \<in> set (resolve_exposure us st el now)"
  then obtain u where u: "u \<in> set us" "ct_name u = n" and st: "st = Running"
    and gate: "is_read (ct_class u) \<or> is_some_and el (\<lambda>e. is_active e now)"
    by (auto simp: set_resolve_exposure)
  from u(1) obtain i where "i < length us" "us ! i = u" by (auto simp: in_set_conv_nth)
  with assms have "ts ! i \<in> set ts" "ct_name (ts ! i) = n" "ct_class (ts ! i) \<le> ct_class u"
    using u(2) by (auto simp: list_all2_conv_all_nth)
  with gate st show "n \<in> set (resolve_exposure ts st el now)"
    by (auto simp: set_resolve_exposure dest: is_read_antimono)
qed

end
