(* ===== verification/BrokerCore.thy ===== *)
theory BrokerCore
  imports Policy
begin

text \<open>
  \<open>crates/core/src/broker.rs\<close>: the in-memory state, one slot per supervised server, and the
  transitions over it. Nothing is persisted: a restart is \<open>cold_start\<close> or \<open>from_manifest\<close>.
\<close>

section \<open>Slots\<close>

record server_slot =
  slot_id :: string
  slot_tools :: "classified_tool list"
  slot_state :: server_state
  slot_elevation :: "elevation option"

definition new_running :: "string \<Rightarrow> classified_tool list \<Rightarrow> server_slot" where
  "new_running i tools =
     \<lparr>slot_id = i, slot_tools = tools, slot_state = Running, slot_elevation = None\<rparr>"

definition set_tools :: "classified_tool list \<Rightarrow> server_slot \<Rightarrow> server_slot" where
  "set_tools tools s = s\<lparr>slot_tools := tools\<rparr>"

definition exposed :: "server_slot \<Rightarrow> timestamp \<Rightarrow> string list" where
  "exposed s now = resolve_exposure (slot_tools s) (slot_state s) (slot_elevation s) now"

definition grant_elevation :: "elevation \<Rightarrow> server_slot \<Rightarrow> server_slot" where
  "grant_elevation e s = s\<lparr>slot_elevation := Some e\<rparr>"

definition revoke_elevation :: "server_slot \<Rightarrow> server_slot" where
  "revoke_elevation s = s\<lparr>slot_elevation := None\<rparr>"

definition fail_closed :: "server_slot \<Rightarrow> server_slot" where
  "fail_closed s = s\<lparr>slot_elevation := None\<rparr>"

definition set_slot_state :: "server_state \<Rightarrow> server_slot \<Rightarrow> server_slot" where
  "set_slot_state st s = s\<lparr>slot_state := st\<rparr>"

lemma slot_updates [slot_simps, simp]:
  "slot_id (set_tools ts s) = slot_id s" "slot_id (grant_elevation e s) = slot_id s"
  "slot_id (revoke_elevation s) = slot_id s" "slot_id (fail_closed s) = slot_id s"
  "slot_id (set_slot_state st s) = slot_id s" "slot_id (new_running i ts) = i"
  "slot_tools (set_tools ts s) = ts" "slot_tools (grant_elevation e s) = slot_tools s"
  "slot_tools (revoke_elevation s) = slot_tools s" "slot_tools (fail_closed s) = slot_tools s"
  "slot_tools (set_slot_state st s) = slot_tools s" "slot_tools (new_running i ts) = ts"
  "slot_state (set_tools ts s) = slot_state s" "slot_state (grant_elevation e s) = slot_state s"
  "slot_state (revoke_elevation s) = slot_state s" "slot_state (fail_closed s) = slot_state s"
  "slot_state (set_slot_state st s) = st" "slot_state (new_running i ts) = Running"
  "slot_elevation (set_tools ts s) = slot_elevation s"
  "slot_elevation (grant_elevation e s) = Some e"
  "slot_elevation (revoke_elevation s) = None" "slot_elevation (fail_closed s) = None"
  "slot_elevation (set_slot_state st s) = slot_elevation s"
  "slot_elevation (new_running i ts) = None"
  by (simp_all add: set_tools_def grant_elevation_def revoke_elevation_def fail_closed_def
      set_slot_state_def new_running_def)

definition elevated_at :: "server_slot \<Rightarrow> timestamp \<Rightarrow> bool" where
  "elevated_at s now = is_some_and (slot_elevation s) (\<lambda>e. is_active e now)"

lemma set_exposed:
  "n \<in> set (exposed s now) \<longleftrightarrow>
     slot_state s = Running \<and>
     (\<exists>t \<in> set (slot_tools s). ct_name t = n \<and> (is_read (ct_class t) \<or> elevated_at s now))"
  by (simp add: exposed_def set_resolve_exposure elevated_at_def)

lemma exposed_idle [simp]: "slot_state s \<noteq> Running \<Longrightarrow> exposed s now = []"
  by (simp add: exposed_def)

lemma elevated_at_None [simp]: "slot_elevation s = None \<Longrightarrow> \<not> elevated_at s now"
  by (simp add: elevated_at_def)

section \<open>The broker state\<close>

record broker_state =
  bs_servers :: "server_slot list"

definition cold_start :: "server_slot list \<Rightarrow> broker_state" where
  "cold_start slots = \<lparr>bs_servers = slots\<rparr>"

definition from_manifest :: "loaded_manifest \<Rightarrow> broker_state" where
  "from_manifest loaded =
     \<lparr>bs_servers =
        map (\<lambda>s. let advertised = sm_keys (srv_tools s);
                     classified = classify_advertised (srv_tools s) advertised
                 in new_running (srv_id s) classified)
          (mf_servers (lm_manifest loaded))\<rparr>"

definition server :: "broker_state \<Rightarrow> string \<Rightarrow> server_slot option" where
  "server b i = find (\<lambda>s. slot_id s = i) (bs_servers b)"

text \<open>\<open>server_mut(id)\<close> followed by an update through the reference it returns.\<close>

definition server_mut :: "string \<Rightarrow> (server_slot \<Rightarrow> server_slot) \<Rightarrow> broker_state \<Rightarrow> broker_state" where
  "server_mut i f b = b\<lparr>bs_servers := update_first (\<lambda>s. slot_id s = i) f (bs_servers b)\<rparr>"

definition elevation_count :: "broker_state \<Rightarrow> nat" where
  "elevation_count b = length (filter (\<lambda>s. slot_elevation s \<noteq> None) (bs_servers b))"

definition exposure_snapshot :: "broker_state \<Rightarrow> timestamp \<Rightarrow> string list smap" where
  "exposure_snapshot b now = sm_collect (map (\<lambda>s. (slot_id s, exposed s now)) (bs_servers b))"

lemma server_server_mut_same:
  "(\<And>s. slot_id (f s) = slot_id s) \<Longrightarrow> server (server_mut i f b) i = map_option f (server b i)"
  by (simp add: server_def server_mut_def find_update_first_same)

lemma server_server_mut_other:
  "(\<And>s. slot_id (f s) = slot_id s) \<Longrightarrow> j \<noteq> i \<Longrightarrow> server (server_mut i f b) j = server b j"
  by (simp add: server_def server_mut_def find_update_first_other)

lemma server_server_mut:
  "(\<And>s. slot_id (f s) = slot_id s) \<Longrightarrow>
    server (server_mut i f b) j = (if j = i then map_option f (server b i) else server b j)"
  by (simp add: server_server_mut_same server_server_mut_other)

lemma ids_server_mut [simp]:
  "(\<And>s. slot_id (f s) = slot_id s) \<Longrightarrow>
    map slot_id (bs_servers (server_mut i f b)) = map slot_id (bs_servers b)"
  by (simp add: server_mut_def map_update_first)

lemma server_mut_missing [simp]: "server b i = None \<Longrightarrow> server_mut i f b = b"
  by (simp add: server_def server_mut_def)

lemma server_SomeD: "server b i = Some s \<Longrightarrow> s \<in> set (bs_servers b) \<and> slot_id s = i"
  unfolding server_def by (rule find_SomeD)

lemma server_member:
  "distinct (map slot_id (bs_servers b)) \<Longrightarrow> s \<in> set (bs_servers b) \<Longrightarrow> server b (slot_id s) = Some s"
  by (simp add: server_def find_key)

lemma server_None_ids: "server b i = None \<longleftrightarrow> i \<notin> set (map slot_id (bs_servers b))"
  unfolding server_def by (rule find_key_None)

lemma set_server_mut:
  "s \<in> set (bs_servers (server_mut i f b)) \<Longrightarrow>
    s \<in> set (bs_servers b) \<or> (\<exists>t \<in> set (bs_servers b). slot_id t = i \<and> s = f t)"
  by (auto simp: server_mut_def dest: set_update_first)

text \<open>
  A shared shape: an update that never adds an elevation keeps a broker without elevations
  without elevations.
\<close>

definition unelevated :: "broker_state \<Rightarrow> bool" where
  "unelevated b \<longleftrightarrow> (\<forall>s \<in> set (bs_servers b). slot_elevation s = None)"

lemma unelevated_count: "unelevated b \<longleftrightarrow> elevation_count b = 0"
  by (auto simp: unelevated_def elevation_count_def filter_empty_conv)

lemma unelevated_server_mut [inv_intros]:
  "unelevated b \<Longrightarrow> (\<And>s. slot_elevation s = None \<Longrightarrow> slot_elevation (f s) = None) \<Longrightarrow>
    unelevated (server_mut i f b)"
  by (auto simp: unelevated_def dest: set_server_mut)

lemma unelevated_from_manifest: "unelevated (from_manifest l)"
  by (simp add: unelevated_def from_manifest_def Let_def)

lemma unelevated_exposed:
  assumes "unelevated b" and "s \<in> set (bs_servers b)" and "n \<in> set (exposed s now)"
  shows "\<exists>t \<in> set (slot_tools s). ct_name t = n \<and> ct_class t = Read"
  using assms by (auto simp: unelevated_def set_exposed is_read_iff)

text \<open>The snapshot reads each server back, when ids are unique.\<close>

lemma exposure_snapshot_get:
  assumes "distinct (map slot_id (bs_servers b))"
  shows "sm_get (exposure_snapshot b now) i = map_option (\<lambda>s. exposed s now) (server b i)"
proof -
  have "map_of (map (\<lambda>s. (slot_id s, exposed s now)) ss) i =
      map_option (\<lambda>s. exposed s now) (find (\<lambda>s. slot_id s = i) ss)" for ss
    by (induction ss) auto
  moreover have "map_of (rev (map (\<lambda>s. (slot_id s, exposed s now)) (bs_servers b))) =
      map_of (map (\<lambda>s. (slot_id s, exposed s now)) (bs_servers b))"
    using assms by (simp add: map_of_rev_distinct o_def)
  ultimately show ?thesis by (simp add: exposure_snapshot_def sm_get_collect server_def)
qed

end
