(* ===== verification/SingleUse.thy ===== *)
theory SingleUse
  imports BrokerCore
begin

text \<open>
  Single-use, expiring tokens. The broker keeps two stores of them with the same discipline:
  the nonces of \<open>NonceStore\<close> (60 seconds) and the per-action confirmations of the aggregator
  (30 seconds). A token is taken out with \<open>position\<close> and \<open>swap_remove\<close> before it is acted
  on, and expired tokens are dropped by a \<open>retain\<close>. The interface \<open>single_use\<close> states what a
  store promises; what the rest of the broker needs (a token is spent at most once, only an
  issued token is accepted) is proved once inside it.
\<close>

section \<open>Taking an entry out\<close>

definition take_first :: "('a \<Rightarrow> bool) \<Rightarrow> 'a list \<Rightarrow> ('a \<times> 'a list) option" where
  "take_first P xs =
     (case position P xs of
        None \<Rightarrow> None
      | Some i \<Rightarrow> Some (xs ! i, swap_remove i xs))"

lemma take_first_None: "take_first P xs = None \<longleftrightarrow> (\<forall>x \<in> set xs. \<not> P x)"
  by (auto simp: take_first_def position_None [symmetric] split: option.split)

lemma take_first_Some:
  assumes "take_first P xs = Some (x, ys)"
  shows "P x" and "x \<in> set xs" and "mset ys = mset xs - {#x#}"
  using assms
  by (auto simp: take_first_def mset_swap_remove dest!: position_Some split: option.splits)

lemma length_take_first: "take_first P xs = Some (x, ys) \<Longrightarrow> length ys = length xs - 1"
  by (auto simp: take_first_def dest!: position_Some split: option.splits)

lemma set_take_first: "take_first P xs = Some (x, ys) \<Longrightarrow> set ys \<subseteq> set xs"
  by (auto simp: take_first_def split: option.splits dest: subsetD [OF set_swap_remove])

text \<open>Age of a token against a time to live, as the code computes it.\<close>

definition older_than :: "u64 \<Rightarrow> u64 \<Rightarrow> u64 \<Rightarrow> bool" where
  "older_than ttl stamp now \<longleftrightarrow> ttl < sat_sub now stamp"

lemma older_than_iff: "older_than ttl stamp now \<longleftrightarrow> unat stamp + unat ttl < unat now"
  by (auto simp: older_than_def word_less_nat_alt unat_sat_sub)

lemma older_than_mono: "older_than ttl stamp now \<Longrightarrow> now \<le> later \<Longrightarrow> older_than ttl stamp later"
  by (simp add: older_than_iff word_le_nat_alt)

lemma older_than_fresh [simp]: "\<not> older_than ttl now now"
  by (simp add: older_than_iff)

section \<open>The interface\<close>

locale single_use =
  fixes expired :: "'e \<Rightarrow> u64 \<Rightarrow> bool"
    and usable :: "'q \<Rightarrow> u64 \<Rightarrow> 'e \<Rightarrow> bool"
    and key :: "'q \<Rightarrow> 'e \<Rightarrow> bool"
    and prune :: "u64 \<Rightarrow> 'e list \<Rightarrow> 'e list"
    and spend :: "'q \<Rightarrow> u64 \<Rightarrow> 'e list \<Rightarrow> ('e \<times> 'e list) option"
  assumes prune_filter: "prune now es = filter (\<lambda>e. \<not> expired e now) es"
    and expired_mono: "expired e now \<Longrightarrow> now \<le> later \<Longrightarrow> expired e later"
    and usable_key: "usable q now e \<Longrightarrow> key q e"
    and spend_take: "spend q now es = take_first (usable q now) es"
begin

lemma spend_usable: "spend q now es = Some (e, es') \<Longrightarrow> e \<in> set es \<and> usable q now e"
  unfolding spend_take using take_first_Some by fast

lemma spend_mset: "spend q now es = Some (e, es') \<Longrightarrow> mset es = add_mset e (mset es')"
proof -
  assume sp: "spend q now es = Some (e, es')"
  then have "e \<in># mset es" by (simp add: spend_usable)
  moreover have "mset es' = mset es - {#e#}"
    using sp unfolding spend_take by (rule take_first_Some)
  ultimately show ?thesis by simp
qed

text \<open>Every spend lowers the number of tokens of its key by exactly one.\<close>

lemma spend_count:
  assumes "spend q now es = Some (e, es')"
  shows "size (filter_mset (key q) (mset es)) = Suc (size (filter_mset (key q) (mset es')))"
  using spend_mset [OF assms] spend_usable [OF assms] usable_key by fastforce

text \<open>A token that is alone with its key cannot be spent twice, now or later.\<close>

lemma spend_once:
  assumes "spend q now es = Some (e, es')" and "size (filter_mset (key q) (mset es)) \<le> 1"
  shows "spend q later es' = None"
proof -
  have "filter_mset (key q) (mset es') = {#}"
    using assms(2) spend_count [OF assms(1)] by simp
  then have "\<forall>x \<in> set es'. \<not> usable q later x"
    by (auto simp: filter_mset_eq_mempty_iff dest: usable_key)
  then show ?thesis by (simp add: spend_take take_first_None)
qed

lemma spend_none: "spend q now es = None \<longleftrightarrow> (\<forall>e \<in> set es. \<not> usable q now e)"
  by (simp add: spend_take take_first_None)

lemma set_spend: "spend q now es = Some (e, es') \<Longrightarrow> set es' \<subseteq> set es"
  unfolding spend_take by (rule set_take_first)

lemma prune_subset: "set (prune now es) \<subseteq> set es"
  by (auto simp: prune_filter)

lemma prune_live: "e \<in> set (prune now es) \<Longrightarrow> \<not> expired e now"
  by (auto simp: prune_filter)

lemma prune_count:
  "size (filter_mset (key q) (mset (prune now es))) \<le> size (filter_mset (key q) (mset es))"
  unfolding prune_filter mset_filter
  by (rule size_mset_mono) (simp add: multiset_filter_mono)

lemma length_prune: "length (prune now es) \<le> length es"
  by (simp add: prune_filter)

end

end
