(* ===== verification/Elevation.thy ===== *)
theory Elevation
  imports SingleUse Render
begin

text \<open>
  \<open>crates/core/src/elevation.rs\<close>: nonces, the canonical challenge a client signs, the registry
  of client keys and the store of pending nonces. Ed25519 (\<open>VerifyingKey::from_bytes\<close>,
  \<open>verify_strict\<close>), the JSON printer of the challenge document and the operating system's
  random bytes are arguments.
\<close>

section \<open>Nonces\<close>

definition nonce_len :: nat where "nonce_len = 32"
definition nonce_ttl_secs :: u64 where "nonce_ttl_secs = 60"
definition max_pending_nonces :: nat where "max_pending_nonces = 1024"
definition public_key_len :: nat where "public_key_len = 32"
definition signature_length :: nat where "signature_length = 64"

datatype nonce = Nonce (nonce_bytes: "u8 list")

datatype elevation_error =
    Rng
  | UnknownOrUsedNonce
  | TooManyPending
  | NonceExpired
  | UnknownClient
  | Malformed
  | BadSignature

fun elevation_error_text :: "elevation_error \<Rightarrow> string" where
  "elevation_error_text Rng = ''random number generation failed''"
| "elevation_error_text UnknownOrUsedNonce = ''unknown or already-used nonce''"
| "elevation_error_text TooManyPending = ''too many outstanding nonces''"
| "elevation_error_text NonceExpired = ''nonce expired''"
| "elevation_error_text UnknownClient = ''unknown client''"
| "elevation_error_text Malformed = ''malformed key or signature''"
| "elevation_error_text BadSignature = ''signature verification failed''"

text \<open>\<open>getrandom::fill\<close> gives the bytes of the array or fails.\<close>

definition nonce_generate :: "u8 list option \<Rightarrow> elevation_error + nonce" where
  "nonce_generate random =
     (case random of None \<Rightarrow> Err Rng | Some bytes \<Rightarrow> Ok (Nonce bytes))"

definition nonce_to_hex :: "nonce \<Rightarrow> string" where
  "nonce_to_hex n = to_hex (nonce_bytes n)"

definition nonce_from_hex :: "string \<Rightarrow> nonce option" where
  "nonce_from_hex s = map_option Nonce (hex_array nonce_len s)"

lemma nonce_round_trip:
  "length (nonce_bytes n) = nonce_len \<Longrightarrow> nonce_from_hex (nonce_to_hex n) = Some n"
  by (cases n) (simp add: nonce_from_hex_def nonce_to_hex_def hex_array_to_hex)

lemma nonce_from_hex_length: "nonce_from_hex s = Some n \<Longrightarrow> length (nonce_bytes n) = nonce_len"
  by (auto simp: nonce_from_hex_def dest: length_hex_array)

lemma nonce_to_hex_inj: "nonce_to_hex m = nonce_to_hex n \<longleftrightarrow> m = n"
  by (cases m; cases n) (simp add: nonce_to_hex_def to_hex_inj)

definition debug_nonce :: "nonce \<Rightarrow> string" where
  "debug_nonce n = ''Nonce('' @ nonce_to_hex n @ '')''"

section \<open>Purposes and challenges\<close>

datatype requested_mode = ReqDuration u64 | ReqUntilRevoked

datatype purpose =
    Elevate string requested_mode
  | ConfirmTool string string

datatype verified =
    VElevation string elevation
  | VConfirm string string

record doc =
  doc_v :: u8
  doc_purpose :: string
  doc_client :: string
  doc_nonce :: string
  doc_server :: string
  doc_tool :: "string option"
  doc_mode :: "string option"
  doc_ttl :: "u64 option"

fun challenge_doc :: "nonce \<Rightarrow> string \<Rightarrow> purpose \<Rightarrow> doc" where
  "challenge_doc n client (Elevate server_id m) =
     (let (mode_s, ttl) =
        (case m of
           ReqDuration ttl_secs \<Rightarrow> (''duration'', Some ttl_secs)
         | ReqUntilRevoked \<Rightarrow> (''until_revoked'', None))
      in \<lparr>doc_v = 1, doc_purpose = ''elevate'', doc_client = client, doc_nonce = nonce_to_hex n,
          doc_server = server_id, doc_tool = None, doc_mode = Some mode_s, doc_ttl = ttl\<rparr>)"
| "challenge_doc n client (ConfirmTool server_id tool) =
     \<lparr>doc_v = 1, doc_purpose = ''confirm'', doc_client = client, doc_nonce = nonce_to_hex n,
      doc_server = server_id, doc_tool = Some tool, doc_mode = None, doc_ttl = None\<rparr>"

text \<open>\<open>serde_json::to_vec(&doc).unwrap_or_default()\<close>, with the printer an argument.\<close>

definition challenge_message ::
  "(doc \<Rightarrow> string option) \<Rightarrow> nonce \<Rightarrow> string \<Rightarrow> purpose \<Rightarrow> string" where
  "challenge_message print_doc n client p =
     (case print_doc (challenge_doc n client p) of None \<Rightarrow> [] | Some bytes \<Rightarrow> bytes)"

lemma challenge_doc_inj:
  "challenge_doc n c p = challenge_doc n' c' p' \<longleftrightarrow> n = n' \<and> c = c' \<and> p = p'"
  by (cases p; cases p')
    (auto simp: nonce_to_hex_inj split: requested_mode.splits)

section \<open>The client registry\<close>

text \<open>
  The cryptographic library: key parsing, strict verification, and the printer of the
  challenge document.
\<close>

record 'k crypto =
  key_from_bytes :: "u8 list \<Rightarrow> 'k option"
  verify_strict :: "'k \<Rightarrow> string \<Rightarrow> u8 list \<Rightarrow> bool"
  print_doc :: "doc \<Rightarrow> string option"

type_synonym 'k client_registry = "'k smap"

definition registry_new :: "'k client_registry" where
  "registry_new = []"

definition register ::
  "'k crypto \<Rightarrow> string \<Rightarrow> u8 list \<Rightarrow> 'k client_registry \<Rightarrow> (elevation_error + unit) \<times> 'k client_registry" where
  "register cr cid public_key reg =
     (case key_from_bytes cr public_key of
        None \<Rightarrow> (Err Malformed, reg)
      | Some key \<Rightarrow> (Ok (), sm_insert cid key reg))"

definition registry_is_empty :: "'k client_registry \<Rightarrow> bool" where
  "registry_is_empty reg = (reg = [])"

definition registry_key :: "'k client_registry \<Rightarrow> string \<Rightarrow> 'k option" where
  "registry_key reg cid = sm_get reg cid"

definition debug_client_registry :: "(string \<Rightarrow> string) \<Rightarrow> 'k client_registry \<Rightarrow> string" where
  "debug_client_registry wide reg =
     debug_struct ''ClientRegistry'' [(''clients'', debug_list (map (str_debug wide) (sm_keys reg)))]"

section \<open>The nonce store\<close>

record pending =
  pd_nonce :: nonce
  pd_client :: string
  pd_purpose :: purpose
  pd_issued_at :: timestamp

type_synonym nonce_store = "pending list"

definition debug_nonce_store :: "nonce_store \<Rightarrow> string" where
  "debug_nonce_store st = debug_struct ''NonceStore'' [(''pending'', dec (length st))]"

definition nonces_new :: nonce_store where
  "nonces_new = []"

definition nonces_prune :: "timestamp \<Rightarrow> nonce_store \<Rightarrow> nonce_store" where
  "nonces_prune now st = filter (\<lambda>p. sat_sub now (pd_issued_at p) \<le> nonce_ttl_secs) st"

definition issue ::
  "nonce_store \<Rightarrow> string \<Rightarrow> purpose \<Rightarrow> timestamp \<Rightarrow> u8 list option \<Rightarrow>
     (elevation_error + nonce) \<times> nonce_store" where
  "issue st client p now random =
     (let st' = nonces_prune now st in
      if max_pending_nonces \<le> length st' then (Err TooManyPending, st')
      else
        (case nonce_generate random of
           Inl e \<Rightarrow> (Err e, st')
         | Inr n \<Rightarrow>
             (Ok n, st' @ [\<lparr>pd_nonce = n, pd_client = client, pd_purpose = p, pd_issued_at = now\<rparr>])))"

definition pending_for :: "nonce \<times> string \<Rightarrow> pending \<Rightarrow> bool" where
  "pending_for q p \<longleftrightarrow> pd_nonce p = fst q \<and> pd_client p = snd q"

text \<open>What a pending purpose grants when its signature verifies at \<open>now\<close>.\<close>

fun outcome :: "purpose \<Rightarrow> timestamp \<Rightarrow> verified" where
  "outcome (Elevate server_id (ReqDuration ttl_secs)) now =
     VElevation server_id (for_duration now ttl_secs)"
| "outcome (Elevate server_id ReqUntilRevoked) now = VElevation server_id (until_revoked now)"
| "outcome (ConfirmTool server_id tool) now = VConfirm server_id tool"

definition verify_and_consume ::
  "'k crypto \<Rightarrow> nonce_store \<Rightarrow> string \<Rightarrow> nonce \<Rightarrow> u8 list \<Rightarrow> 'k client_registry \<Rightarrow> timestamp \<Rightarrow>
     (elevation_error + verified) \<times> nonce_store" where
  "verify_and_consume cr st client n signature reg now =
     (case take_first (pending_for (n, client)) st of
        None \<Rightarrow> (Err UnknownOrUsedNonce, st)
      | Some (p, st') \<Rightarrow>
          (if nonce_ttl_secs < sat_sub now (pd_issued_at p) then Err NonceExpired
           else
             (case registry_key reg client of
                None \<Rightarrow> Err UnknownClient
              | Some key \<Rightarrow>
                  if length signature \<noteq> signature_length then Err Malformed
                  else if \<not> verify_strict cr key
                           (challenge_message (print_doc cr) n client (pd_purpose p)) signature
                  then Err BadSignature
                  else Ok (outcome (pd_purpose p) now)), st'))"

definition pending_count :: "nonce_store \<Rightarrow> nat" where
  "pending_count st = length st"

section \<open>The store as a single-use store\<close>

definition nonce_expired :: "pending \<Rightarrow> u64 \<Rightarrow> bool" where
  "nonce_expired p now = older_than nonce_ttl_secs (pd_issued_at p) now"

interpretation nonces: single_use nonce_expired "\<lambda>q now. pending_for q" pending_for nonces_prune
    "\<lambda>q now. take_first (pending_for q)"
  by unfold_locales
    (auto simp: nonces_prune_def nonce_expired_def older_than_def not_less intro: older_than_mono [unfolded older_than_def])

lemma verify_spends:
  "verify_and_consume cr st client n sig reg now = (r, st') \<Longrightarrow>
     (take_first (pending_for (n, client)) st = None \<and> r = Err UnknownOrUsedNonce \<and> st' = st)
     \<or> (\<exists>p. take_first (pending_for (n, client)) st = Some (p, st'))"
  by (auto simp: verify_and_consume_def split: option.splits)

text \<open>A success names its pending request, and everything about it was checked.\<close>

lemma verify_success:
  assumes "verify_and_consume cr st client n sig reg now = (Ok v, st')"
  shows "\<exists>p \<in> set st. \<exists>key. pd_nonce p = n \<and> pd_client p = client
    \<and> \<not> nonce_expired p now
    \<and> registry_key reg client = Some key
    \<and> length sig = signature_length
    \<and> verify_strict cr key (challenge_message (print_doc cr) n client (pd_purpose p)) sig
    \<and> v = outcome (pd_purpose p) now
    \<and> mset st = add_mset p (mset st')"
proof -
  from assms obtain p where take: "take_first (pending_for (n, client)) st = Some (p, st')"
    by (auto simp: verify_and_consume_def split: option.splits)
  have "p \<in> set st" "pending_for (n, client) p"
    using nonces.spend_usable [OF take] by auto
  moreover have "mset st = add_mset p (mset st')" using nonces.spend_mset [OF take] .
  ultimately show ?thesis
    using assms take
    by (auto simp: verify_and_consume_def pending_for_def nonce_expired_def older_than_def
        split: option.splits if_splits)
qed

lemma verify_shrinks: "snd (verify_and_consume cr st client n sig reg now) = st' \<Longrightarrow> set st' \<subseteq> set st"
  by (auto simp: verify_and_consume_def split: option.splits dest: subsetD [OF nonces.set_spend])

lemma length_verify: "length (snd (verify_and_consume cr st client n sig reg now)) \<le> length st"
  by (auto simp: verify_and_consume_def split: option.splits dest: length_take_first)

lemma issue_bounded:
  "length st \<le> max_pending_nonces \<Longrightarrow> length (snd (issue st client p now random)) \<le> max_pending_nonces"
  using nonces.length_prune [of now st]
  by (auto simp: issue_def Let_def split: sum.splits)

lemma issue_ok:
  "issue st client p now random = (Ok n, st') \<Longrightarrow>
     st' = nonces_prune now st @ [\<lparr>pd_nonce = n, pd_client = client, pd_purpose = p, pd_issued_at = now\<rparr>]
     \<and> length (nonces_prune now st) < max_pending_nonces"
  by (auto simp: issue_def Let_def split: if_splits sum.splits)

lemma issue_entry:
  "issue st client p now random = (Ok n, st') \<Longrightarrow>
     \<lparr>pd_nonce = n, pd_client = client, pd_purpose = p, pd_issued_at = now\<rparr> \<in> set st'
     \<and> (\<exists>bytes. random = Some bytes \<and> n = Nonce bytes)"
  by (auto simp: issue_def Let_def nonce_generate_def split: if_splits option.splits)

lemma issue_origin:
  "q \<in> set (snd (issue st client p now random)) \<Longrightarrow>
     q \<in> set st \<or> (pd_client q = client \<and> pd_purpose q = p \<and> pd_issued_at q = now)"
  using nonces.prune_subset [of now st]
  by (auto simp: issue_def Let_def split: if_splits sum.splits)

end
