(* ===== verification/Auth.thy ===== *)
theory Auth
  imports Render
begin

text \<open>
  \<open>crates/core/src/auth.rs\<close>: the credential seam of the MCP endpoint and the v1 static bearer
  validator. A validated client can only be made by a validator; the endpoint depends on the
  interface \<open>credential_validator\<close> alone.
\<close>

datatype validated_client = ValidatedClient (client_id: string)

datatype auth_error = Missing | Invalid

fun auth_error_text :: "auth_error \<Rightarrow> string" where
  "auth_error_text Missing = ''no credential presented''"
| "auth_error_text Invalid = ''credential rejected''"

definition debug_validated_client :: "(string \<Rightarrow> string) \<Rightarrow> validated_client \<Rightarrow> string" where
  "debug_validated_client wide c =
     debug_struct ''ValidatedClient'' [(''client_id'', str_debug wide (client_id c))]"

text \<open>What the endpoint relies on: without a credential there is no client.\<close>

locale credential_validator =
  fixes validate :: "string option \<Rightarrow> auth_error + validated_client"
  assumes absent: "validate None = Err Missing"
    and empty_token: "validate (Some []) = Err Missing"
begin

lemma validated_presented: "validate t = Ok c \<Longrightarrow> \<exists>s. t = Some s \<and> s \<noteq> []"
  using absent empty_token by (cases t) auto

end

section \<open>The static bearer validator\<close>

record static_bearer =
  sb_expected :: "u8 list"
  sb_client_id :: string

definition debug_static_bearer :: "(string \<Rightarrow> string) \<Rightarrow> static_bearer \<Rightarrow> string" where
  "debug_static_bearer wide v =
     debug_struct ''StaticBearerValidator''
       [(''client_id'', str_debug wide (sb_client_id v)), (''expected'', redacted wide)]"

definition bearer_new :: "string \<Rightarrow> string \<Rightarrow> static_bearer option" where
  "bearer_new token cid =
     (if token = [] then None
      else Some \<lparr>sb_expected = as_bytes token, sb_client_id = cid\<rparr>)"

text \<open>
  The comparison accumulates the differing bits of every position and tests the accumulator
  once at the end.
\<close>

fun diff_loop :: "u8 \<Rightarrow> (u8 \<times> u8) list \<Rightarrow> u8" where
  "diff_loop diff [] = diff"
| "diff_loop diff ((x, y) # ps) = diff_loop (diff OR (x XOR y)) ps"

definition constant_time_eq :: "u8 list \<Rightarrow> u8 list \<Rightarrow> bool" where
  "constant_time_eq a b =
     (if length a \<noteq> length b then False else diff_loop 0 (zip a b) = 0)"

definition validate_bearer :: "static_bearer \<Rightarrow> string option \<Rightarrow> auth_error + validated_client" where
  "validate_bearer v presented_token =
     (case ok_or presented_token Missing of
        Inl e \<Rightarrow> Err e
      | Inr presented \<Rightarrow>
          if presented = [] then Err Missing
          else if constant_time_eq (as_bytes presented) (sb_expected v)
          then Ok (ValidatedClient (sb_client_id v))
          else Err Invalid)"

text \<open>\<open>scrub\<close> overwrites the token when the validator is dropped.\<close>

fun scrub :: "u8 list \<Rightarrow> u8 list" where
  "scrub [] = []"
| "scrub (b # bs) = 0 # scrub bs"

definition drop_bearer :: "static_bearer \<Rightarrow> static_bearer" where
  "drop_bearer v = v\<lparr>sb_expected := scrub (sb_expected v)\<rparr>"

lemma scrub_zero: "scrub bs = replicate (length bs) 0"
  by (induction bs) simp_all

lemma or_eq_0_iff: "(a OR b = 0) = (a = 0 \<and> b = (0 :: u8))"
  by (auto intro!: bit_eqI simp: bit_eq_iff bit_simps)

lemma xor_eq_0_iff: "(a XOR b = 0) = (a = (b :: u8))"
  by (auto simp: bit_eq_iff bit_simps)

lemma diff_loop_0: "diff_loop d ps = 0 \<longleftrightarrow> d = 0 \<and> (\<forall>(x, y) \<in> set ps. x = y)"
  by (induction ps arbitrary: d) (auto simp: or_eq_0_iff xor_eq_0_iff)

lemma constant_time_eq_iff: "constant_time_eq a b \<longleftrightarrow> a = b"
proof -
  have "(\<forall>(x, y) \<in> set (zip a b). x = y) \<longleftrightarrow> a = b" if "length a = length b"
    using that by (induction a b rule: list_induct2) auto
  then show ?thesis by (auto simp: constant_time_eq_def diff_loop_0)
qed

interpretation bearer: credential_validator "validate_bearer v" for v
  by unfold_locales (simp_all add: validate_bearer_def)

lemma validate_bearer_ok:
  assumes "bearer_new token cid = Some v"
  shows "validate_bearer v t = Ok c \<longleftrightarrow> t = Some token \<and> c = ValidatedClient cid"
  using assms
  by (auto simp: bearer_new_def validate_bearer_def constant_time_eq_iff ok_or.simps
      split: if_splits sum.splits)

end
