(* ===== verification/AuditLog.thy ===== *)
theory AuditLog
  imports Render
begin

text \<open>
  \<open>crates/core/src/audit.rs\<close>: the append-only audit tape, an optional file plus a ring of the
  500 most recent lines. The JSON printer of an entry is an argument; the outcome of each
  file write (all bytes, or a failure after some of them) and the wall clock are inputs.
\<close>

definition recent_cap :: nat where "recent_cap = 500"

datatype audit_event =
    ElevationGranted (ev_server: string) (ev_client: string) (ev_mode: string)
  | ElevationRevoked (ev_server: string) (ev_reason: string)
  | ConfirmApproved (ev_server: string) (ev_tool: string)
  | WriteToolInvoked (ev_server: string) (ev_tool: string)
  | ConfirmRejected (ev_server: string) (ev_tool: string)
  | ElevationDenied (ev_server: string) (ev_client: string) (ev_reason: string)

record audit_log =
  al_file :: "string mutex option"
  al_recent :: "string list mutex"

definition audit_in_memory :: audit_log where
  "audit_in_memory = \<lparr>al_file = None, al_recent = mutex_new []\<rparr>"

definition debug_audit_log :: "audit_log \<Rightarrow> string" where
  "debug_audit_log log = debug_struct ''AuditLog'' [(''file_backed'', debug_bool (al_file log \<noteq> None))]"

text \<open>Opening in append mode keeps what the file holds, or creates it; the open may fail.\<close>

definition audit_to_file :: "string + string \<Rightarrow> string + audit_log" where
  "audit_to_file opened =
     (case opened of
        Inl e \<Rightarrow> Err e
      | Inr contents \<Rightarrow> Ok \<lparr>al_file = Some (mutex_new contents), al_recent = mutex_new []\<rparr>)"

text \<open>\<open>SystemTime::now().duration_since(UNIX_EPOCH)\<close>: \<open>None\<close> for a clock before the epoch.\<close>

definition unix_now :: "u64 option \<Rightarrow> u64" where
  "unix_now wall = (case wall of None \<Rightarrow> 0 | Some secs \<Rightarrow> secs)"

definition serialize_line :: "(u64 \<Rightarrow> audit_event \<Rightarrow> string option) \<Rightarrow> u64 option \<Rightarrow> audit_event \<Rightarrow> string" where
  "serialize_line print_entry wall event =
     (case print_entry (unix_now wall) event of
        Some line \<Rightarrow> line
      | None \<Rightarrow> ''{\"ts\":0,\"event\":\"serialize_error\"}'')"

text \<open>
  \<open>write_all\<close> on a file opened for append: \<open>None\<close> when every byte is written, \<open>Some k\<close> when
  it fails after \<open>k\<close> bytes.
\<close>

fun append_bytes :: "nat option \<Rightarrow> string \<Rightarrow> string \<Rightarrow> string" where
  "append_bytes None bytes contents = contents @ bytes"
| "append_bytes (Some k) bytes contents = contents @ take k bytes"

definition audit_record ::
  "(u64 \<Rightarrow> audit_event \<Rightarrow> string option) \<Rightarrow> u64 option \<Rightarrow> nat option \<times> nat option \<Rightarrow>
     audit_event \<Rightarrow> audit_log \<Rightarrow> audit_log" where
  "audit_record print_entry wall io event log =
     (let line = serialize_line print_entry wall event;
          file' =
            (case al_file log of
               None \<Rightarrow> None
             | Some m \<Rightarrow>
                 (case lock m of
                    None \<Rightarrow> Some m
                  | Some contents \<Rightarrow>
                      Some (put m (append_bytes (snd io) [CHR 0x0A]
                                     (append_bytes (fst io) line contents)))));
          recent' =
            (case lock (al_recent log) of
               None \<Rightarrow> al_recent log
             | Some lines \<Rightarrow> put (al_recent log) (push_capped recent_cap lines line))
      in \<lparr>al_file = file', al_recent = recent'\<rparr>)"

definition audit_recent :: "nat \<Rightarrow> audit_log \<Rightarrow> string list" where
  "audit_recent limit log =
     (case lock (al_recent log) of
        None \<Rightarrow> []
      | Some lines \<Rightarrow>
          (let n = min limit (length lines) in drop (length lines - n) lines))"

text \<open>The bytes on disk and the lines in memory.\<close>

definition tape :: "audit_log \<Rightarrow> string" where
  "tape log = (case al_file log of None \<Rightarrow> [] | Some m \<Rightarrow> guarded m)"

definition ring :: "audit_log \<Rightarrow> string list" where
  "ring log = guarded (al_recent log)"

lemma append_bytes_prefix: "\<exists>w. append_bytes r bytes contents = contents @ w"
  by (cases r) auto

text \<open>The tape only grows, whatever the disk does.\<close>

lemma tape_append_only: "\<exists>w. tape (audit_record pe wall io ev log) = tape log @ w"
proof (cases "al_file log")
  case None
  then show ?thesis by (simp add: audit_record_def tape_def Let_def)
next
  case (Some m)
  obtain v where "append_bytes (fst io) (serialize_line pe wall ev) (guarded m) = guarded m @ v"
    using append_bytes_prefix by blast
  moreover obtain w where "append_bytes (snd io) [CHR 0x0A] (guarded m @ v) = guarded m @ v @ w"
    by (metis append_assoc append_bytes_prefix)
  ultimately show ?thesis
    using Some by (cases m) (auto simp: audit_record_def tape_def Let_def)
qed

lemma tape_record:
  "al_file log = Some (Mutex False c) \<Longrightarrow>
     tape (audit_record pe wall (None, None) ev log) = c @ serialize_line pe wall ev @ [CHR 0x0A]"
  by (simp add: audit_record_def tape_def Let_def)

lemma ring_record:
  "\<not> poisoned (al_recent log) \<Longrightarrow>
     ring (audit_record pe wall io ev log) = push_capped recent_cap (ring log) (serialize_line pe wall ev)"
  by (cases "al_recent log") (simp add: audit_record_def ring_def Let_def)

lemma poisoned_record [simp]:
  "poisoned (al_recent (audit_record pe wall io ev log)) = poisoned (al_recent log)"
  by (cases "al_recent log") (simp add: audit_record_def Let_def)

lemma ring_bounded:
  "length (ring log) \<le> recent_cap \<Longrightarrow> length (ring (audit_record pe wall io ev log)) \<le> recent_cap"
  by (cases "al_recent log") (simp add: audit_record_def ring_def Let_def length_push_capped)

lemma ring_newest:
  "\<not> poisoned (al_recent log) \<Longrightarrow>
     serialize_line pe wall ev \<in> set (ring (audit_record pe wall io ev log))"
  by (simp add: ring_record mem_push_capped recent_cap_def)

lemma audit_recent_length:
  "\<not> poisoned (al_recent log) \<Longrightarrow> length (audit_recent limit log) = min limit (length (ring log))"
  by (cases "al_recent log") (simp add: audit_recent_def ring_def Let_def)

lemma audit_recent_suffix:
  "\<not> poisoned (al_recent log) \<Longrightarrow> \<exists>older. ring log = older @ audit_recent limit log"
  by (cases "al_recent log")
    (auto simp: audit_recent_def ring_def Let_def intro: exI [of _ "take _ _"] append_take_drop_id [symmetric])

end
