(* ===== verification/CoreProps.thy ===== *)
theory CoreProps
  imports Elevation Auth AuditLog
begin

text \<open>
  The properties of the security core (\<open>crates/core\<close>): the validation of manifests, the exposure
  gate, elevation challenges and their verification, the bearer comparison and the audit ring.
\<close>

section \<open>Manifests\<close>

text \<open>C13: The validation of a manifest, with its bounds, its order of checks and its early exits, accepts
  exactly the manifests of the declarative specification: bounded sizes, non-blank ids and
  commands, safe environment keys, distinct ids.\<close>

theorem validation_correct:
  "validate m = Ok () \<longleftrightarrow> good_manifest m"
  by (rule validate_ok_iff)

text \<open>Loading succeeds exactly on bytes within the size bound that parse to a manifest satisfying the
  specification; the result holds that manifest and the hex digest of exactly these bytes, of
  two digits per byte.\<close>

lemma load_correct:
  "load_from_bytes parse sha bytes = Ok l \<longleftrightarrow>
     length bytes \<le> 1048576 \<and> parse bytes = Ok (lm_manifest l) \<and> good_manifest (lm_manifest l)
     \<and> lm_integrity l = concat (map fmt_02x (sha bytes))"
  unfolding load_from_bytes_ok by (simp add: max_manifest_bytes_def to_hex_def)

section \<open>The exposure gate\<close>

text \<open>C12: The resolution of exposure is exact: the exposed names are, sorted and with their multiplicity,
  those of the tools that are \<open>Read\<close>, or of all tools while an elevation is active, and none
  unless the server is running.\<close>

theorem exposure_exact:
  "mset (resolve_exposure tools st el now) =
     (if st = Running
      then {# ct_name t. t \<in># filter_mset (\<lambda>t. ct_class t = Read
              \<or> (\<exists>e. el = Some e \<and> (case expires_at e of None \<Rightarrow> True | Some x \<Rightarrow> now < x))) (mset tools) #}
      else {#})
   \<and> sorted (resolve_exposure tools st el now)"
proof -
  have "(is_some_and el (\<lambda>e. is_active e now)) =
      (\<exists>e. el = Some e \<and> (case expires_at e of None \<Rightarrow> True | Some x \<Rightarrow> now < x))"
    by (auto simp: is_some_and_iff is_active_def split: option.splits)
  then show ?thesis
    by (cases "st = Running") (simp_all add: resolve_exposure_sorted resolve_exposure_def is_read_iff)
qed

text \<open>An elevation fails closed: from the instant its duration has passed, and at every later one, the
  exposure is what it is without any elevation, also when the expiry saturates at the end of
  the 64-bit clock.\<close>

lemma expiry_fails_closed:
  assumes "unat granted + unat ttl \<le> unat now"
  shows "resolve_exposure tools st (Some (for_duration granted ttl)) now = resolve_exposure tools st None now"
proof -
  have "\<not> is_active (for_duration granted ttl) now"
    using assms by (simp add: is_active_for_duration)
  then show ?thesis by (intro resolve_exposure_unelevated) simp
qed

theorem expiry_fails_closed_witness:
  "resolve_exposure [\<lparr>ct_name = ''w'', ct_class = Write\<rparr>] Running (Some (for_duration 10 5)) 15 =
   resolve_exposure [\<lparr>ct_name = ''w'', ct_class = Write\<rparr>] Running None 15"
  by (rule expiry_fails_closed) simp

text \<open>The gate is monotone in the direction of safety: with tools of stricter classes at no earlier an
  instant, nothing more is exposed.\<close>

lemma exposure_antimono:
  assumes "list_all2 (\<lambda>t u. ct_name t = ct_name u \<and> ct_class t \<le> ct_class u) ts us" and "now \<le> later"
  shows "set (resolve_exposure us st el later) \<subseteq> set (resolve_exposure ts st el now)"
  using resolve_exposure_antimono [OF assms(1), of st el later] resolve_exposure_later [OF assms(2), of ts st el]
  by blast

theorem exposure_antimono_witness:
  "set (resolve_exposure [\<lparr>ct_name = ''w'', ct_class = Confirm\<rparr>] Running None 4)
     \<subseteq> set (resolve_exposure [\<lparr>ct_name = ''w'', ct_class = Read\<rparr>] Running None 3)"
  by (rule exposure_antimono) (simp_all add: less_eq_tool_class_def)

text \<open>Classification denies by default: whatever a child advertises, a tool the manifest's table does not
  declare \<open>Read\<close> is not exposed without an active elevation.\<close>

lemma default_deny:
  assumes "sm_get manifest_tools n \<noteq> Some Read"
    and "\<forall>e. el = Some e \<longrightarrow> \<not> is_active e now"
  shows "n \<notin> set (resolve_exposure (classify_advertised manifest_tools advertised) st el now)"
  using assms
  by (auto simp: set_resolve_exposure set_classify_advertised classify_read_iff is_some_and_iff)

theorem default_deny_witness:
  "''x'' \<notin> set (resolve_exposure (classify_advertised [(''r'', Read)] [''r'', ''x'']) Running
      (Some (for_duration 1 2)) 3)"
  by (rule default_deny) (simp_all add: is_active_for_duration)

section \<open>Elevation\<close>

text \<open>C10: A verified assertion is genuine: the nonce was pending for exactly this client, issued at most 60
  seconds before, the signature has 64 bytes and verifies strictly under the client's registered
  key over the challenge of the purpose the nonce was bound to; what is granted is that purpose
  and the nonce is spent.\<close>

theorem verify_sound:
  assumes "verify_and_consume cr st client n sig reg now = (Ok v, st')"
  shows "\<exists>p \<in> set st. \<exists>key. pd_nonce p = n \<and> pd_client p = client
    \<and> unat now \<le> unat (pd_issued_at p) + 60
    \<and> sm_get reg client = Some key \<and> length sig = 64
    \<and> verify_strict cr key (challenge_message (print_doc cr) n client (pd_purpose p)) sig
    \<and> v = outcome (pd_purpose p) now \<and> mset st = add_mset p (mset st')"
  using verify_success [OF assms]
  by (simp add: nonce_expired_def older_than_iff nonce_ttl_secs_def registry_key_def signature_length_def not_less)

theorem verify_sound_witness:
  "\<exists>p \<in> set [\<lparr>pd_nonce = Nonce [], pd_client = ''c'', pd_purpose = ConfirmTool ''s'' ''t'', pd_issued_at = 4\<rparr>].
     pd_client p = ''c'' \<and> unat (9 :: u64) \<le> unat (pd_issued_at p) + 60"
proof -
  have "verify_and_consume \<lparr>key_from_bytes = \<lambda>b. Some (), verify_strict = \<lambda>k m s. True, print_doc = \<lambda>d. Some []\<rparr>
      [\<lparr>pd_nonce = Nonce [], pd_client = ''c'', pd_purpose = ConfirmTool ''s'' ''t'', pd_issued_at = 4\<rparr>]
      ''c'' (Nonce []) (replicate 64 0) [(''c'', ())] 9 = (Ok (VConfirm ''s'' ''t''), [])"
    by (simp add: verify_and_consume_def take_first_def pending_for_def swap_remove_def nonce_ttl_secs_def
        sat_sub_def registry_key_def signature_length_def)
  from verify_sound [OF this] show ?thesis by auto
qed

text \<open>C11: A signature binds its whole context: under a printer that prints every document and no two alike,
  two challenges are the same bytes only for the same nonce, client, server, tool and mode.\<close>

theorem challenge_binds_context:
  assumes "inj print_document" and "\<forall>d. print_document d \<noteq> None"
  shows "challenge_message print_document n client p = challenge_message print_document n' client' p' \<longleftrightarrow>
    n = n' \<and> client = client' \<and> p = p'"
proof -
  define w where "w d = the (print_document d)" for d
  have w: "print_document d = Some (w d)" for d
    using assms(2) by (simp add: w_def)
  have "w d = w d' \<longleftrightarrow> d = d'" for d d'
    using inj_eq [OF assms(1), of d d'] by (simp add: w)
  moreover have "challenge_message print_document k c q = w (challenge_doc k c q)" for k c q
    by (simp add: challenge_message_def w)
  ultimately show ?thesis by (simp only: challenge_doc_inj)
qed

text \<open>A printer of the document that is total and injective: every field behind its length in unary.\<close>

definition tagged :: "string \<Rightarrow> string" where
  "tagged s = replicate (length s) CHR ''1'' @ ''0'' @ s"

lemma tagged_inj: "tagged s @ r = tagged s' @ r' \<longleftrightarrow> s = s' \<and> r = r'"
proof
  assume eq: "tagged s @ r = tagged s' @ r'"
  have tw: "takeWhile (\<lambda>c. c = CHR ''1'') (tagged x @ y) = replicate (length x) CHR ''1''" for x y
    by (simp add: tagged_def takeWhile_append)
  from eq have "replicate (length s) CHR ''1'' = replicate (length s') CHR ''1''" by (metis tw)
  then have "length s = length s'" by (metis length_replicate)
  with eq show "s = s' \<and> r = r'" by (simp add: tagged_def)
qed simp

fun tagged_opt :: "string option \<Rightarrow> string" where
  "tagged_opt None = ''n''"
| "tagged_opt (Some s) = ''s'' @ tagged s"

lemma tagged_opt_inj: "tagged_opt x @ r = tagged_opt x' @ r' \<longleftrightarrow> x = x' \<and> r = r'"
  by (cases x; cases x') (simp_all add: tagged_inj)

definition print_tagged :: "doc \<Rightarrow> string option" where
  "print_tagged d = Some (tagged (dec (unat (doc_v d))) @ tagged (doc_purpose d) @ tagged (doc_client d)
     @ tagged (doc_nonce d) @ tagged (doc_server d) @ tagged_opt (doc_tool d) @ tagged_opt (doc_mode d)
     @ tagged_opt (map_option (\<lambda>t. dec (unat t)) (doc_ttl d)) @ [])"

lemma print_tagged_inj: "inj print_tagged"
proof (rule injI)
  fix d d'
  assume "print_tagged d = print_tagged d'"
  then have f: "doc_v d = doc_v d'" "doc_purpose d = doc_purpose d'" "doc_client d = doc_client d'"
    "doc_nonce d = doc_nonce d'" "doc_server d = doc_server d'" "doc_tool d = doc_tool d'"
    "doc_mode d = doc_mode d'"
    and "map_option (\<lambda>t. dec (unat t)) (doc_ttl d) = map_option (\<lambda>t. dec (unat t)) (doc_ttl d')"
    unfolding print_tagged_def option.inject tagged_inj tagged_opt_inj by (auto simp: dec_inj intro: unsigned_word_eqI)
  then have "doc_ttl d = doc_ttl d'"
    by (cases "doc_ttl d"; cases "doc_ttl d'") (auto simp: dec_inj intro: unsigned_word_eqI)
  with f show "d = d'" by simp
qed

theorem challenge_binds_context_witness:
  "challenge_message print_tagged (Nonce [1]) ''c'' (Elevate ''s'' ReqUntilRevoked) \<noteq>
   challenge_message print_tagged (Nonce [1]) ''c'' (Elevate ''t'' ReqUntilRevoked)"
  using challenge_binds_context [OF print_tagged_inj] by (simp add: print_tagged_def)

text \<open>The textual form of a nonce is faithful: printing and parsing is the identity on 32-byte nonces,
  no two nonces print alike, and a parsed nonce always has 32 bytes.\<close>

lemma nonce_hex_faithful:
  "(length (nonce_bytes n) = 32 \<longrightarrow> nonce_from_hex (nonce_to_hex n) = Some n)
   \<and> (nonce_to_hex n = nonce_to_hex m \<longrightarrow> n = m)
   \<and> (nonce_from_hex s = Some n \<longrightarrow> length (nonce_bytes n) = 32)"
  using nonce_round_trip [of n] nonce_from_hex_length [of s n]
  by (simp add: nonce_len_def nonce_to_hex_inj)

theorem nonce_hex_faithful_witness:
  "nonce_from_hex (nonce_to_hex (Nonce (replicate 32 255))) = Some (Nonce (replicate 32 255))"
  using nonce_hex_faithful [of "Nonce (replicate 32 255)"] by simp

text \<open>The textual form of a nonce is not unique: a sign in front of a digit is accepted in every byte, so
  a text that is no hex at all denotes the same nonce as the canonical one.\<close>

lemma nonce_hex_signs:
  "nonce_from_hex (concat (replicate 32 ''+7'')) = Some (Nonce (replicate 32 7))
   \<and> nonce_to_hex (Nonce (replicate 32 7)) \<noteq> concat (replicate 32 ''+7'')"
proof
  show "nonce_from_hex (concat (replicate 32 ''+7'')) = Some (Nonce (replicate 32 7))"
    by code_simp
  have "hd (nonce_to_hex (Nonce (replicate 32 7))) \<noteq> hd (concat (replicate 32 ''+7''))"
    by code_simp
  then show "nonce_to_hex (Nonce (replicate 32 7)) \<noteq> concat (replicate 32 ''+7'')" by metis
qed

section \<open>The bearer comparison\<close>

text \<open>The constant-time comparison, which accumulates the differences of all positions, decides equality
  of byte strings; the validator accepts a presented token exactly when it is the configured
  one, and its drop leaves only zeros of the token.\<close>

lemma bearer_exact:
  "(constant_time_eq a b \<longleftrightarrow> a = b)
   \<and> (bearer_new token cid = None \<longleftrightarrow> token = [])
   \<and> (bearer_new token cid = Some v \<longrightarrow>
        (\<forall>t c. validate_bearer v t = Ok c \<longleftrightarrow> t = Some token \<and> c = ValidatedClient cid))
   \<and> sb_expected (drop_bearer v) = replicate (length (sb_expected v)) 0"
  using validate_bearer_ok [of token cid v]
  by (simp add: constant_time_eq_iff bearer_new_def drop_bearer_def scrub_zero)

theorem bearer_exact_witness:
  "\<forall>t c. validate_bearer \<lparr>sb_expected = as_bytes ''k'', sb_client_id = ''c''\<rparr> t = Ok c
     \<longleftrightarrow> t = Some ''k'' \<and> c = ValidatedClient ''c''"
  using bearer_exact [of "[]" "[]" "''k''" "''c''" "\<lparr>sb_expected = as_bytes ''k'', sb_client_id = ''c''\<rparr>"]
  by (simp add: bearer_new_def)

section \<open>The audit ring\<close>

definition last_n :: "nat \<Rightarrow> 'a list \<Rightarrow> 'a list" where
  "last_n k xs = drop (length xs - k) xs"

lemma last_n_snoc: "last_n cap (last_n cap xs @ [x]) = last_n cap (xs @ [x])"
  by (cases "length xs \<le> cap") (simp_all add: last_n_def Suc_diff_le)

text \<open>After any sequence of events recorded from an empty tape, whatever the disk does, the most recent
  lines are exactly the serialisations of the latest events, oldest first, at most 500 of them.\<close>

lemma audit_recent_exact:
  "audit_recent limit (fold (\<lambda>(wall, io, ev). audit_record pe wall io ev) evs audit_in_memory) =
     last_n limit (last_n 500 (map (\<lambda>(wall, io, ev). serialize_line pe wall ev) evs))"
proof -
  have inv: "al_recent (fold (\<lambda>(wall, io, ev). audit_record pe wall io ev) evs audit_in_memory) =
      mutex_new (last_n 500 (map (\<lambda>(wall, io, ev). serialize_line pe wall ev) evs))"
  proof (induction evs rule: rev_induct)
    case Nil
    then show ?case by (simp add: audit_in_memory_def last_n_def)
  next
    case (snoc x evs)
    obtain wall io ev where x: "x = (wall, io, ev)" by (cases x) auto
    show ?case
      using snoc last_n_snoc [of 500 "map (\<lambda>(wall, io, ev). serialize_line pe wall ev) evs"]
      by (simp add: x audit_record_def Let_def push_capped_def pop_excess_drop recent_cap_def last_n_def
          del: drop_append)
  qed
  show ?thesis
    by (simp add: audit_recent_def inv Let_def) (simp add: last_n_def min_def)
qed

end
