(* ===== verification/ExecPlatform.thy ===== *)
theory ExecPlatform
  imports Render
begin

text \<open>
  The seams of the security core: the execution context a child is spawned with
  (\<open>crates/core/src/exec.rs\<close>), the platform errors (\<open>error.rs\<close>) and the macOS providers of
  \<open>platform/macos.rs\<close>, which in this version deny.
\<close>

section \<open>Execution contexts\<close>

datatype process_identity = BrokerServiceAccount

datatype sandbox_profile = NoSandbox

record credential_grant =
  cg_key_name :: string
  cg_env_var :: string

record execution_context =
  ec_identity :: process_identity
  ec_sandbox :: sandbox_profile
  ec_scoped_credentials :: "credential_grant list"

definition first_party :: "credential_grant list \<Rightarrow> execution_context" where
  "first_party creds =
     \<lparr>ec_identity = BrokerServiceAccount, ec_sandbox = NoSandbox, ec_scoped_credentials = creds\<rparr>"

definition is_sandboxed :: "execution_context \<Rightarrow> bool" where
  "is_sandboxed ctx = (\<not> (case ec_sandbox ctx of NoSandbox \<Rightarrow> True))"

lemma never_sandboxed [simp]: "\<not> is_sandboxed ctx"
  by (cases "ec_sandbox ctx") (simp add: is_sandboxed_def)

section \<open>Platform errors\<close>

datatype platform_error =
    Unsupported string
  | PresenceDenied
  | KeyNotFound string
  | PeerRejected
  | OsError string string

fun platform_error_text :: "platform_error \<Rightarrow> string" where
  "platform_error_text (Unsupported capability) =
     ''capability not supported on this platform: '' @ capability"
| "platform_error_text PresenceDenied = ''presence check denied or failed''"
| "platform_error_text (KeyNotFound name) = ''key not found: '' @ name"
| "platform_error_text PeerRejected = ''peer identity rejected''"
| "platform_error_text (OsError context source) = context @ '': '' @ source"

fun platform_error_source :: "platform_error \<Rightarrow> string option" where
  "platform_error_source (OsError context source) = Some source"
| "platform_error_source _ = None"

definition unsupported :: "string \<Rightarrow> platform_error" where
  "unsupported capability = Unsupported capability"

section \<open>Providers\<close>

record presence_assertion =
  pa_signature :: "u8 list"
  pa_key_id :: string

definition debug_presence_assertion :: "(string \<Rightarrow> string) \<Rightarrow> presence_assertion \<Rightarrow> string" where
  "debug_presence_assertion wide a =
     debug_struct ''PresenceAssertion''
       [(''key_id'', str_debug wide (pa_key_id a)), (''signature'', redacted wide)]"

text \<open>The traits: each is the record of its one operation, and a port provides a value of it.\<close>

record presence_provider =
  assert_presence :: "string \<Rightarrow> u8 list \<Rightarrow> platform_error + presence_assertion"

record secure_key_store =
  get_secret :: "string \<Rightarrow> platform_error + u8 list"

record peer_identity_verifier =
  verify_peer :: "int \<Rightarrow> platform_error + unit"

record process_supervisor =
  is_installed :: "platform_error + bool"

record process_isolator =
  isolator_prepare :: "execution_context \<Rightarrow> platform_error + unit"

section \<open>The macOS port\<close>

definition macos_assert_presence :: "string \<Rightarrow> u8 list \<Rightarrow> platform_error + presence_assertion" where
  "macos_assert_presence key_id challenge = Err (unsupported ''macos presence (LocalAuthentication)'')"

definition macos_get_secret :: "string \<Rightarrow> platform_error + u8 list" where
  "macos_get_secret name = Err (unsupported ''macos key store (Keychain)'')"

definition macos_verify_peer :: "int \<Rightarrow> platform_error + unit" where
  "macos_verify_peer connection_fd = Err (unsupported ''macos peer code-signature verification'')"

definition macos_is_installed :: "platform_error + bool" where
  "macos_is_installed = Err (unsupported ''macos process supervisor (launchd)'')"

definition macos_prepare :: "execution_context \<Rightarrow> platform_error + unit" where
  "macos_prepare ctx = (case ec_sandbox ctx of NoSandbox \<Rightarrow> Ok ())"

definition macos_presence_provider :: presence_provider where
  "macos_presence_provider = \<lparr>assert_presence = macos_assert_presence\<rparr>"

definition macos_secure_key_store :: secure_key_store where
  "macos_secure_key_store = \<lparr>get_secret = macos_get_secret\<rparr>"

definition macos_peer_identity_verifier :: peer_identity_verifier where
  "macos_peer_identity_verifier = \<lparr>verify_peer = macos_verify_peer\<rparr>"

definition macos_process_supervisor :: process_supervisor where
  "macos_process_supervisor = \<lparr>is_installed = macos_is_installed\<rparr>"

definition macos_process_isolator :: process_isolator where
  "macos_process_isolator = \<lparr>isolator_prepare = macos_prepare\<rparr>"

lemmas macos_port_defs =
  macos_presence_provider_def macos_secure_key_store_def macos_peer_identity_verifier_def
  macos_process_supervisor_def macos_process_isolator_def macos_assert_presence_def
  macos_get_secret_def macos_verify_peer_def macos_is_installed_def macos_prepare_def unsupported_def

text \<open>
  The port fails closed: it vouches for nobody, hands out no secret and trusts no peer, whatever
  it is asked; only the isolator lets a child through, because no context asks for a sandbox.
\<close>

lemma macos_fails_closed:
  "\<exists>e. assert_presence macos_presence_provider key_id challenge = Err e"
  "\<exists>e. get_secret macos_secure_key_store name = Err e"
  "\<exists>e. verify_peer macos_peer_identity_verifier connection_fd = Err e"
  "\<exists>e. is_installed macos_process_supervisor = Err e"
  "isolator_prepare macos_process_isolator ctx = Ok () \<longleftrightarrow> \<not> is_sandboxed ctx"
  by (simp_all add: macos_port_defs is_sandboxed_def split: sandbox_profile.split)

lemma macos_prepare_first_party: "macos_prepare (first_party creds) = Ok ()"
  by (simp add: macos_prepare_def first_party_def)

end
