(* ===== verification/McpClient.thy ===== *)
theory McpClient
  imports Json ExecPlatform Render
begin

text \<open>
  \<open>crates/broker/src/mcp_client.rs\<close>: the broker's side of a child server. The interface
  \<open>McpChild\<close> as a record of operations, the errors, the reader thread that cuts the child's
  output into bounded lines, the stdio client with its per-request deadline, and the bounded
  reaping of a dropped child. The operating system (process spawning, pipe writes, exit
  status, the instants at which lines arrive) and the JSON text codec are inputs.
\<close>

section \<open>The interface of a child\<close>

record tool_def =
  td_name :: string
  td_definition :: json

datatype child_error =
    ChildIo string
  | ChildProtocol string
  | ChildRpc int string
  | ChildExited
  | ChildTimeout

definition int_text :: "int \<Rightarrow> string" where
  "int_text i = (if i < 0 then CHR ''-'' # dec (nat (- i)) else dec (nat i))"

fun child_error_text :: "child_error \<Rightarrow> string" where
  "child_error_text (ChildIo e) = ''child io error: '' @ e"
| "child_error_text (ChildProtocol m) = ''child protocol error: '' @ m"
| "child_error_text (ChildRpc code message) =
     ''child returned error '' @ int_text code @ '': '' @ message"
| "child_error_text ChildExited = ''child exited''"
| "child_error_text ChildTimeout = ''child timed out''"

text \<open>The trait \<open>McpChild\<close>: each method takes \<open>&mut self\<close>, so it returns the new child.\<close>

record 'c child_api =
  api_list_tools :: "'c \<Rightarrow> (child_error + tool_def list) \<times> 'c"
  api_call_tool :: "'c \<Rightarrow> string \<Rightarrow> json \<Rightarrow> (child_error + json) \<times> 'c"
  api_is_alive :: "'c \<Rightarrow> bool \<times> 'c"

text \<open>
  What the aggregator relies on when it renames a tool: a listed tool carries its own
  definition, an object with the tool's name.
\<close>

definition carries_name :: "tool_def \<Rightarrow> bool" where
  "carries_name t \<longleftrightarrow> jget (td_definition t) ''name'' = Some (JStr (td_name t))"

locale mcp_child =
  fixes list_tools :: "'c \<Rightarrow> (child_error + tool_def list) \<times> 'c"
  assumes list_named: "list_tools c = (Ok ts, c') \<Longrightarrow> t \<in> set ts \<Longrightarrow> carries_name t"
begin

lemma listed_object:
  "list_tools c = (Ok ts, c') \<Longrightarrow> t \<in> set ts \<Longrightarrow> \<exists>m. td_definition t = JObj m"
  using list_named [of c ts c' t] by (auto simp: carries_name_def dest!: jget_Some_object)

end

section \<open>The reader thread\<close>

datatype read_item = Line string | ReadFailed string

definition max_line_bytes :: nat where "max_line_bytes = 8388608"

text \<open>
  \<open>read_until\<close> on a reader limited to \<open>limit\<close> bytes: the bytes up to and with the first
  newline, or up to the limit, or all there is.
\<close>

fun read_until :: "nat \<Rightarrow> string \<Rightarrow> string \<times> string" where
  "read_until 0 bytes = ([], bytes)"
| "read_until (Suc limit) [] = ([], [])"
| "read_until (Suc limit) (b # bytes) =
     (if b = CHR 0x0A then ([b], bytes)
      else (let (buf, rest) = read_until limit bytes in (b # buf, rest)))"

lemma read_until_append: "read_until limit bytes = (buf, rest) \<Longrightarrow> bytes = buf @ rest"
  by (induction limit bytes arbitrary: buf rest rule: read_until.induct)
    (auto simp: Let_def split: if_splits prod.splits)

lemma read_until_length: "read_until limit bytes = (buf, rest) \<Longrightarrow> length buf \<le> limit"
  by (induction limit bytes arbitrary: buf rest rule: read_until.induct)
    (auto simp: Let_def split: if_splits prod.splits)

lemma read_until_progress:
  "read_until (Suc limit) bytes = (buf, rest) \<Longrightarrow> bytes \<noteq> [] \<Longrightarrow> length rest < length bytes"
  using read_until_append [of "Suc limit" bytes buf rest]
  by (cases bytes) (auto simp: Let_def split: if_splits prod.splits)

text \<open>
  The child's output is its bytes and how the stream ends (end of file or an error). The
  limit on a line is a parameter here; the code's is \<open>max_line_bytes\<close>. A read that needs more
  bytes than there are meets the end of the stream. \<open>room\<close> is how many sends the receiver
  still accepts before it is dropped, \<open>None\<close> for a receiver that stays.
\<close>

definition needs_more :: "nat \<Rightarrow> string \<Rightarrow> bool" where
  "needs_more cap buf \<longleftrightarrow> length buf < Suc cap \<and> (buf = [] \<or> last buf \<noteq> CHR 0x0A)"

function read_lines ::
  "nat \<Rightarrow> (string \<Rightarrow> string) \<Rightarrow> string \<Rightarrow> stream_end \<Rightarrow> nat option \<Rightarrow> read_item list" where
  "read_lines cap lossy bytes fin room =
     (if room = Some 0 then []
      else
        (let (buf, rest) = read_until (Suc cap) bytes in
         case (if needs_more cap buf then fin else Eof) of
           Broken e \<Rightarrow> [ReadFailed e]
         | Eof \<Rightarrow>
             if buf = [] then []
             else if cap < length buf then [ReadFailed (''child message exceeded '' @ dec cap @ '' bytes'')]
             else Line (lossy buf)
               # read_lines cap lossy rest fin (map_option (\<lambda>k. k - 1) room)))"
  by pat_completeness auto
termination
proof (relation "measure (\<lambda>(cap, lossy, bytes, fin, room). length bytes)", simp)
  fix cap lossy bytes fin and room :: "nat option" and x buf rest
  assume "room \<noteq> Some 0" and x: "x = read_until (Suc cap) bytes" "(buf, rest) = x"
    and "buf \<noteq> []"
  then have "bytes \<noteq> []" by (auto simp: Let_def)
  with x have "length rest < length bytes" by (metis read_until_progress)
  then show "((cap, lossy, rest, fin, map_option (\<lambda>k. k - 1) room), cap, lossy, bytes, fin, room)
      \<in> measure (\<lambda>(cap, lossy, bytes, fin, room). length bytes)" by simp
qed

declare read_lines.simps [simp del]

section \<open>The stdio client\<close>

text \<open>
  The channel of the reader thread: the items still to come with the instant (milliseconds)
  at which each is available, and the instant at which the sender is gone, if ever.
\<close>

record stdio_client =
  sc_written :: string
  sc_queue :: "(nat \<times> read_item) list"
  sc_closed :: "nat option"
  sc_next_id :: u64
  sc_timeout :: nat
  sc_time :: nat
  sc_writes :: "(nat \<times> string) option list"
  sc_alive :: "string + bool"

record json_lib =
  parse_json :: "string \<Rightarrow> string + json"
  print_json :: "json \<Rightarrow> string + string"

text \<open>The process id and the printed timeout are the library's.\<close>

definition debug_stdio_client :: "string \<Rightarrow> (nat \<Rightarrow> string) \<Rightarrow> stdio_client \<Rightarrow> string" where
  "debug_stdio_client pid show_duration c =
     debug_struct ''StdioMcpClient''
       [(''pid'', pid), (''next_id'', dec (unat (sc_next_id c))), (''timeout'', show_duration (sc_timeout c))]"

datatype recv_error = RecvTimeout | RecvDisconnected

text \<open>
  \<open>recv_timeout(d)\<close> at instant \<open>t\<close>: an item that is there already is returned whatever \<open>d\<close>
  is; otherwise the call waits for one until \<open>t + d\<close>.
\<close>

definition recv_timeout ::
  "(nat \<times> read_item) list \<Rightarrow> nat option \<Rightarrow> nat \<Rightarrow> nat \<Rightarrow>
     (recv_error + read_item) \<times> (nat \<times> read_item) list \<times> nat" where
  "recv_timeout q closed t d =
     (case q of
        (a, item) # q' \<Rightarrow>
          if a \<le> t then (Ok item, q', t)
          else if a \<le> t + d then (Ok item, q', a)
          else (Err RecvTimeout, q, t + d)
      | [] \<Rightarrow>
          (case closed of
             Some c \<Rightarrow>
               if c \<le> t + d then (Err RecvDisconnected, [], max t c)
               else (Err RecvTimeout, [], t + d)
           | None \<Rightarrow> (Err RecvTimeout, [], t + d)))"

text \<open>What one received line means to the request with this id: \<open>None\<close> is \<open>continue\<close>.\<close>

definition answer_of :: "json_lib \<Rightarrow> u64 \<Rightarrow> string \<Rightarrow> (child_error + json) option" where
  "answer_of jl rid line =
     (if blank line then None
      else
        (case parse_json jl line of
           Inl e \<Rightarrow> Some (Err (ChildProtocol e))
         | Inr value \<Rightarrow>
             if Option.bind (jget value ''id'') as_u64 \<noteq> Some rid then None
             else
               (case jget value ''error'' of
                  Some err \<Rightarrow>
                    Some (Err (ChildRpc
                      (case Option.bind (jget err ''code'') as_i64 of Some c \<Rightarrow> c | None \<Rightarrow> 0)
                      (case Option.bind (jget err ''message'') as_str of Some m \<Rightarrow> m | None \<Rightarrow> [])))
                | None \<Rightarrow>
                    Some (Ok (case jget value ''result'' of Some r \<Rightarrow> r | None \<Rightarrow> JNull)))))"

text \<open>
  The loop of \<open>request\<close>. \<open>cost\<close> is the time spent on a line (parsing it and deciding what it
  is). The loop ends because every turn takes an item out of the channel or leaves.
\<close>

lemma recv_timeout_Inr:
  "recv_timeout q closed t d = (Ok item, q', t') \<Longrightarrow>
     length q' < length q \<and> t \<le> t' \<and> t' \<le> t + d"
  by (auto simp: recv_timeout_def split: list.splits option.splits if_splits)

function request_loop ::
  "json_lib \<Rightarrow> (string \<Rightarrow> nat) \<Rightarrow> u64 \<Rightarrow> nat \<Rightarrow> nat option \<Rightarrow> (nat \<times> read_item) list \<Rightarrow> nat \<Rightarrow>
     (child_error + json) \<times> (nat \<times> read_item) list \<times> nat" where
  "request_loop jl cost rid deadline closed q t =
     (case recv_timeout q closed t (deadline - t) of
        (Inr (Line line), q', t') \<Rightarrow>
          (case answer_of jl rid line of
             None \<Rightarrow> request_loop jl cost rid deadline closed q' (t' + cost line)
           | Some r \<Rightarrow> (r, q', t' + cost line))
      | (Inr (ReadFailed e), q', t') \<Rightarrow> (Err (ChildIo e), q', t')
      | (Inl RecvTimeout, q', t') \<Rightarrow> (Err ChildTimeout, q', t')
      | (Inl RecvDisconnected, q', t') \<Rightarrow> (Err ChildExited, q', t'))"
  by pat_completeness auto
termination
  by (relation "measure (\<lambda>(jl, cost, rid, deadline, closed, q, t). length q)")
    (auto dest!: sym [of "(_, _, _)"] dest: recv_timeout_Inr)

declare request_loop.simps [simp del]

section \<open>Requests\<close>

text \<open>The three writes of \<open>write_line\<close> succeed together, or one of them fails after \<open>k\<close> bytes.\<close>

definition write_line :: "json_lib \<Rightarrow> json \<Rightarrow> stdio_client \<Rightarrow> (child_error + unit) \<times> stdio_client" where
  "write_line jl message c =
     (case print_json jl message of
        Inl e \<Rightarrow> (Err (ChildProtocol e), c)
      | Inr line \<Rightarrow>
          (case sc_writes c of
             Some (k, e) # ws \<Rightarrow>
               (Err (ChildIo e),
                c\<lparr>sc_written := sc_written c @ take k (line @ [CHR 0x0A]), sc_writes := ws\<rparr>)
           | None # ws \<Rightarrow>
               (Ok (), c\<lparr>sc_written := sc_written c @ line @ [CHR 0x0A], sc_writes := ws\<rparr>)
           | [] \<Rightarrow> (Ok (), c\<lparr>sc_written := sc_written c @ line @ [CHR 0x0A]\<rparr>)))"

definition request ::
  "json_lib \<Rightarrow> (string \<Rightarrow> nat) \<Rightarrow> string \<Rightarrow> json \<Rightarrow> stdio_client \<Rightarrow> (child_error + json) \<times> stdio_client" where
  "request jl cost meth params c =
     (let rid = sc_next_id c;
          c1 = c\<lparr>sc_next_id := sc_next_id c + 1\<rparr>;
          message = jobj [(''jsonrpc'', JStr ''2.0''), (''id'', JNum (PosInt rid)),
                          (''method'', JStr meth), (''params'', params)]
      in
        (case write_line jl message c1 of
           (Inl e, c2) \<Rightarrow> (Err e, c2)
         | (Inr u, c2) \<Rightarrow>
             (case request_loop jl cost rid (sc_time c2 + sc_timeout c2) (sc_closed c2)
                     (sc_queue c2) (sc_time c2) of
                (r, q, t) \<Rightarrow> (r, c2\<lparr>sc_queue := q, sc_time := t\<rparr>))))"

definition notify_child ::
  "json_lib \<Rightarrow> string \<Rightarrow> json \<Rightarrow> stdio_client \<Rightarrow> (child_error + unit) \<times> stdio_client" where
  "notify_child jl meth params c =
     write_line jl (jobj [(''jsonrpc'', JStr ''2.0''), (''method'', JStr meth), (''params'', params)]) c"

definition protocol_version :: string where "protocol_version = ''2024-11-05''"

definition initialize ::
  "json_lib \<Rightarrow> (string \<Rightarrow> nat) \<Rightarrow> string \<Rightarrow> stdio_client \<Rightarrow> (child_error + unit) \<times> stdio_client" where
  "initialize jl cost version c =
     (case request jl cost ''initialize''
             (jobj [(''protocolVersion'', JStr protocol_version), (''capabilities'', jobj []),
                    (''clientInfo'',
                      jobj [(''name'', JStr ''mcp-lockd''), (''version'', JStr version)])]) c of
        (Inl e, c') \<Rightarrow> (Err e, c')
      | (Inr r, c') \<Rightarrow> notify_child jl ''notifications/initialized'' (jobj []) c')"

text \<open>What the operating system makes of a spawn: the pipes it returns and the fresh channel.\<close>

record spawned_process =
  sp_stdin :: bool
  sp_stdout :: bool
  sp_client :: stdio_client

text \<open>
  \<open>Command::envs\<close> without \<open>env_clear\<close>: the child has every variable of the spawning process
  (\<open>inherited\<close>), and those of \<open>env\<close> in place of the ones of the same name.
\<close>

definition command_env :: "string smap \<Rightarrow> string smap \<Rightarrow> string smap" where
  "command_env inherited env = fold (\<lambda>(k, v). sm_insert k v) env inherited"

definition spawn_with_timeout ::
  "json_lib \<Rightarrow> (string \<Rightarrow> nat) \<Rightarrow> string \<Rightarrow>
     (string \<Rightarrow> string list \<Rightarrow> string smap \<Rightarrow> string + spawned_process) \<Rightarrow> string smap \<Rightarrow>
     string \<Rightarrow> string list \<Rightarrow> execution_context \<Rightarrow> string smap \<Rightarrow> nat \<Rightarrow> child_error + stdio_client" where
  "spawn_with_timeout jl cost version os inherited command args ctx env timeout =
     (case os command args (command_env inherited env) of
        Inl e \<Rightarrow> Err (ChildIo e)
      | Inr p \<Rightarrow>
          if \<not> sp_stdin p then Err (ChildProtocol ''child has no stdin'')
          else if \<not> sp_stdout p then Err (ChildProtocol ''child has no stdout'')
          else
            (let c = (sp_client p)\<lparr>sc_next_id := 1, sc_timeout := timeout\<rparr> in
             case initialize jl cost version c of
               (Inl e, c') \<Rightarrow> Err e
             | (Inr u, c') \<Rightarrow> Ok c'))"

definition default_request_timeout :: nat where "default_request_timeout = 120000"

definition spawn ::
  "json_lib \<Rightarrow> (string \<Rightarrow> nat) \<Rightarrow> string \<Rightarrow>
     (string \<Rightarrow> string list \<Rightarrow> string smap \<Rightarrow> string + spawned_process) \<Rightarrow> string smap \<Rightarrow>
     string \<Rightarrow> string list \<Rightarrow> execution_context \<Rightarrow> string smap \<Rightarrow> child_error + stdio_client" where
  "spawn jl cost version os inherited command args ctx env =
     spawn_with_timeout jl cost version os inherited command args ctx env default_request_timeout"

lemma sm_get_command_env:
  "sm_ok inherited \<Longrightarrow> sm_ok env \<Longrightarrow>
     sm_get (command_env inherited env) k =
       (case sm_get env k of Some v \<Rightarrow> Some v | None \<Rightarrow> sm_get inherited k)"
  by (simp add: command_env_def sm.get_fold map_of_rev_distinct sm_ok_distinct)

section \<open>The client as a child\<close>

definition tool_of_def :: "json \<Rightarrow> tool_def option" where
  "tool_of_def def =
     (case Option.bind (jget def ''name'') as_str of
        None \<Rightarrow> None
      | Some name \<Rightarrow> Some \<lparr>td_name = name, td_definition = def\<rparr>)"

definition stdio_list_tools ::
  "json_lib \<Rightarrow> (string \<Rightarrow> nat) \<Rightarrow> stdio_client \<Rightarrow> (child_error + tool_def list) \<times> stdio_client" where
  "stdio_list_tools jl cost c =
     (case request jl cost ''tools/list'' (jobj []) c of
        (Inl e, c') \<Rightarrow> (Err e, c')
      | (Inr result, c') \<Rightarrow>
          (let tools = (case Option.bind (jget result ''tools'') as_array of Some xs \<Rightarrow> xs | None \<Rightarrow> [])
           in (Ok (List.map_filter tool_of_def tools), c')))"

definition stdio_call_tool ::
  "json_lib \<Rightarrow> (string \<Rightarrow> nat) \<Rightarrow> stdio_client \<Rightarrow> string \<Rightarrow> json \<Rightarrow> (child_error + json) \<times> stdio_client" where
  "stdio_call_tool jl cost c name arguments =
     request jl cost ''tools/call'' (jobj [(''name'', JStr name), (''arguments'', arguments)]) c"

text \<open>\<open>try_wait\<close> gives an error, \<open>Ok(None)\<close> while the child runs (\<open>True\<close>) or its status.\<close>

definition stdio_is_alive :: "stdio_client \<Rightarrow> bool \<times> stdio_client" where
  "stdio_is_alive c = (sc_alive c = Ok True, c)"

definition stdio_api :: "json_lib \<Rightarrow> (string \<Rightarrow> nat) \<Rightarrow> stdio_client child_api" where
  "stdio_api jl cost =
     \<lparr>api_list_tools = stdio_list_tools jl cost,
      api_call_tool = stdio_call_tool jl cost,
      api_is_alive = stdio_is_alive\<rparr>"

interpretation stdio: mcp_child "stdio_list_tools jl cost" for jl cost
proof
  fix c ts c' t
  assume "stdio_list_tools jl cost c = (Ok ts, c')" and "t \<in> set ts"
  then obtain xs where "t \<in> set (List.map_filter tool_of_def xs)"
    by (auto simp: stdio_list_tools_def Let_def split: prod.splits sum.splits)
  then show "carries_name t"
    by (auto simp: List.map_filter_def tool_of_def_def carries_name_def as_str_Some bind_eq_Some_conv
        split: option.splits)
qed

section \<open>Dropping a client\<close>

definition drop_reap_timeout :: nat where "drop_reap_timeout = 2000"

text \<open>
  After the kill, \<open>drop\<close> polls \<open>try_wait\<close> every 20 milliseconds until the child is reaped (or
  the status cannot be read) or the deadline has passed. \<open>polls k\<close> says whether poll \<open>k\<close> finds
  the child still running. The result is the number of polls and the instant of the last one.
\<close>

function drop_poll :: "(nat \<Rightarrow> bool) \<Rightarrow> nat \<Rightarrow> nat \<Rightarrow> nat \<Rightarrow> nat \<times> nat" where
  "drop_poll polls deadline now k =
     (if \<not> polls k then (Suc k, now)
      else if deadline \<le> now then (Suc k, now)
      else drop_poll polls deadline (now + 20) (Suc k))"
  by pat_completeness auto
termination
  by (relation "measure (\<lambda>(polls, deadline, now, k). deadline - now)") auto

declare drop_poll.simps [simp del]

definition drop_client :: "(nat \<Rightarrow> bool) \<Rightarrow> nat \<Rightarrow> nat \<times> nat" where
  "drop_client polls now = drop_poll polls (now + drop_reap_timeout) now 0"

section \<open>Facts about the reader, the request loop and the drop\<close>


lemma read_until_no_newline: "read_until limit bytes = (buf, rest) \<Longrightarrow> CHR 0x0A \<notin> set (butlast buf)"
proof (induction limit bytes arbitrary: buf rest rule: read_until.induct)
  case (3 limit b bytes)
  obtain buf' rest' where r: "read_until limit bytes = (buf', rest')" by force
  show ?case
  proof (cases "b = CHR 0x0A")
    case True
    with "3.prems" show ?thesis by auto
  next
    case False
    with "3.prems" r have "buf = b # buf'" by simp
    with "3.IH" [OF False r] False show ?thesis by (cases buf') auto
  qed
qed auto

lemma read_until_line:
  "CHR 0x0A \<notin> set l \<Longrightarrow> length l < limit \<Longrightarrow> read_until limit (l @ CHR 0x0A # rest) = (l @ [CHR 0x0A], rest)"
proof (induction l arbitrary: limit)
  case Nil
  then show ?case by (cases limit) auto
next
  case (Cons a l)
  then show ?case by (cases limit) auto
qed

text \<open>The chunks the reader cuts the output into.\<close>

definition line_chunk :: "nat \<Rightarrow> string \<Rightarrow> bool" where
  "line_chunk cap c \<longleftrightarrow> c \<noteq> [] \<and> length c \<le> cap \<and> CHR 0x0A \<notin> set (butlast c)"

lemma read_lines_chunks:
  "\<exists>chunks rest failure. bytes = concat chunks @ rest \<and> list_all (line_chunk cap) chunks
     \<and> read_lines cap lossy bytes fin room = map (\<lambda>c. Line (lossy c)) chunks @ map ReadFailed failure
     \<and> length failure \<le> 1 \<and> (case room of None \<Rightarrow> True | Some k \<Rightarrow> length (chunks @ map (\<lambda>_. []) failure) \<le> k)"
    (is "\<exists>chunks rest failure. ?P bytes room chunks rest failure")
proof (induction "length bytes" arbitrary: bytes room rule: less_induct)
  case less
  obtain buf rest where b: "read_until (Suc cap) bytes = (buf, rest)" by force
  let ?fin = "if needs_more cap buf then fin else Eof"
  show ?case
  proof (cases "room = Some 0")
    case True
    then have "?P bytes room [] bytes []" by (simp add: read_lines.simps)
    then show ?thesis by blast
  next
    case room: False
    have step: "read_lines cap lossy bytes fin room =
        (case ?fin of
           Broken e \<Rightarrow> [ReadFailed e]
         | Eof \<Rightarrow>
             if buf = [] then []
             else if cap < length buf then [ReadFailed (''child message exceeded '' @ dec cap @ '' bytes'')]
             else Line (lossy buf) # read_lines cap lossy rest fin (map_option (\<lambda>k. k - 1) room))"
      by (subst read_lines.simps) (simp add: b room)
    show ?thesis
    proof (cases "?fin = Eof \<and> buf \<noteq> [] \<and> length buf \<le> cap")
      case True
      then have "bytes \<noteq> []" using b by auto
      with b have "length rest < length bytes" by (metis read_until_progress)
      from less [OF this, of "map_option (\<lambda>k. k - 1) room"] obtain chunks r f
        where IH: "?P rest (map_option (\<lambda>k. k - 1) room) chunks r f" by blast
      have "line_chunk cap buf"
        using True read_until_no_newline [OF b] by (simp add: line_chunk_def)
      moreover have "read_lines cap lossy bytes fin room =
          Line (lossy buf) # read_lines cap lossy rest fin (map_option (\<lambda>k. k - 1) room)"
        using True step by simp
      ultimately have "?P bytes room (buf # chunks) r f"
        using IH read_until_append [OF b] room by (auto split: option.splits)
      then show ?thesis by blast
    next
      case False
      then consider "read_lines cap lossy bytes fin room = []"
        | e where "read_lines cap lossy bytes fin room = [ReadFailed e]"
        using step by (auto split: stream_end.splits if_splits)
      then show ?thesis
      proof cases
        case 1
        then have "?P bytes room [] bytes []" by (simp split: option.splits)
        then show ?thesis by blast
      next
        case (2 e)
        then have "?P bytes room [] bytes [e]" using room by (auto simp: Suc_le_eq split: option.splits)
        then show ?thesis by blast
      qed
    qed
  qed
qed

lemma read_lines_line:
  assumes "CHR 0x0A \<notin> set l" and "length l < cap"
  shows "read_lines cap lossy (l @ CHR 0x0A # rest) fin None =
    Line (lossy (l @ [CHR 0x0A])) # read_lines cap lossy rest fin None"
  using assms by (subst read_lines.simps) (simp add: read_until_line needs_more_def)

text \<open>Framing round trip: a child that writes newline-free messages shorter than the cap, one
  per line, has exactly these messages delivered, in order, and nothing else.\<close>

lemma read_lines_lines:
  "\<forall>l \<in> set ls. CHR 0x0A \<notin> set l \<and> length l < cap \<Longrightarrow>
     read_lines cap lossy (concat (map (\<lambda>l. l @ [CHR 0x0A]) ls)) Eof None =
       map (\<lambda>l. Line (lossy (l @ [CHR 0x0A]))) ls"
  by (induction ls) (simp_all add: read_lines_line read_lines.simps [of _ _ "[]"])


text \<open>What a request consumed from the channel, and what it took.\<close>

fun item_cost :: "(string \<Rightarrow> nat) \<Rightarrow> nat \<times> read_item \<Rightarrow> nat" where
  "item_cost cost (a, Line l) = cost l"
| "item_cost cost (a, ReadFailed e) = 0"

fun irrelevant :: "json_lib \<Rightarrow> u64 \<Rightarrow> nat \<times> read_item \<Rightarrow> bool" where
  "irrelevant jl rid (a, Line l) = (answer_of jl rid l = None)"
| "irrelevant jl rid (a, ReadFailed e) = False"

lemma recv_timeout_cases:
  assumes "recv_timeout q closed t d = (r, q', t')"
  shows "t \<le> t' \<and> t' \<le> max t (t + d) \<and>
    ((\<exists>item a. r = Ok item \<and> q = (a, item) # q') \<or> (r = Err RecvTimeout \<and> q' = q \<and> t' = t + d)
     \<or> (r = Err RecvDisconnected \<and> q = [] \<and> q' = []))"
  using assms by (auto simp: recv_timeout_def split: list.splits option.splits if_splits)

text \<open>
  How a request ends: an answer, a read failure, the deadline, or the end of the child's output.
  \<open>fin\<close> is the item it ended on, if any, and \<open>q\<close> what is left in the channel.
\<close>

definition ends_with ::
  "json_lib \<Rightarrow> u64 \<Rightarrow> (nat \<times> read_item) list \<Rightarrow> (nat \<times> read_item) list \<Rightarrow> child_error + json \<Rightarrow> bool" where
  "ends_with jl rid fin q r \<longleftrightarrow>
     (\<exists>a l. fin = [(a, Line l)] \<and> answer_of jl rid l = Some r)
     \<or> (\<exists>a e. fin = [(a, ReadFailed e)] \<and> r = Err (ChildIo e))
     \<or> fin = [] \<and> r = Err ChildTimeout
     \<or> fin = [] \<and> q = [] \<and> r = Err ChildExited"

text \<open>
  The loop consumes a prefix of the channel: lines that are not for it, then perhaps the item
  that ends it. The instant at which it ends exceeds the deadline only by the cost of the
  lines it consumed.
\<close>

lemma request_loop_spec:
  assumes "request_loop jl cost rid deadline closed q t = (r, q', t')"
  shows "\<exists>skipped fin. q = skipped @ fin @ q' \<and> list_all (irrelevant jl rid) skipped
     \<and> t' \<le> max t deadline + sum_list (map (item_cost cost) (skipped @ fin))
     \<and> ends_with jl rid fin q' r"
    (is "\<exists>skipped fin. ?P q t skipped fin")
  using assms
proof (induction q arbitrary: t rule: length_induct)
  case (1 q)
  obtain x q1 t1 where rv: "recv_timeout q closed t (deadline - t) = (x, q1, t1)"
    by (metis prod_cases3)
  note facts = recv_timeout_cases [OF rv]
  have t1: "t1 \<le> max t deadline" using facts by linarith
  note loop = "1.prems" [unfolded request_loop.simps [of jl cost rid deadline closed q t] rv]
  show ?case
  proof (cases x)
    case (Inl err)
    then have "?P q t [] []" using loop facts t1
      by (cases err) (simp_all add: ends_with_def)
    then show ?thesis by blast
  next
    case (Inr item)
    with facts obtain a where q: "q = (a, item) # q1" by auto
    show ?thesis
    proof (cases item)
      case (ReadFailed e)
      then have "?P q t [] [(a, ReadFailed e)]" using loop Inr q t1
        by (simp add: ends_with_def)
      then show ?thesis by blast
    next
      case (Line l)
      show ?thesis
      proof (cases "answer_of jl rid l")
        case (Some ans)
        then have "?P q t [] [(a, Line l)]" using loop Inr q t1 Line
          by (simp add: ends_with_def)
        then show ?thesis by blast
      next
        case None
        with loop Inr Line have rec: "request_loop jl cost rid deadline closed q1 (t1 + cost l) = (r, q', t')"
          by simp
        have "length q1 < length q" using q by simp
        with "1.IH" rec obtain skipped fin where IH: "?P q1 (t1 + cost l) skipped fin" by blast
        have "max (t1 + cost l) deadline \<le> max t deadline + cost l" using t1 by linarith
        moreover have "t' \<le> max (t1 + cost l) deadline + sum_list (map (item_cost cost) (skipped @ fin))"
          using IH by (simp del: max.bounded_iff)
        ultimately have "t' \<le> max t deadline + sum_list (map (item_cost cost) (((a, Line l) # skipped) @ fin))"
          unfolding append_Cons list.map sum_list.Cons item_cost.simps by linarith
        then have "?P q t ((a, Line l) # skipped) fin" using IH None q Line by simp
        then show ?thesis by blast
      qed
    qed
  qed
qed

lemma write_line_frame [simp]:
  "write_line jl m c = (r, c') \<Longrightarrow> sc_queue c' = sc_queue c \<and> sc_time c' = sc_time c
     \<and> sc_timeout c' = sc_timeout c \<and> sc_next_id c' = sc_next_id c \<and> sc_closed c' = sc_closed c"
  by (auto simp: write_line_def split: sum.splits list.splits option.splits)

lemma drop_poll_bound:
  assumes "drop_poll polls deadline now k = (n, t)"
  shows "k < n \<and> t + 20 = now + 20 * (n - k) \<and> (n = Suc k \<or> t < deadline + 20)"
  using assms
proof (induction polls deadline now k rule: drop_poll.induct)
  case (1 polls deadline now k)
  show ?case
  proof (cases "\<not> polls k \<or> deadline \<le> now")
    case True
    then have "n = Suc k" "t = now"
      using "1.prems" by (auto simp: drop_poll.simps [of polls deadline now k] split: if_splits)
    then show ?thesis by simp
  next
    case False
    then have step: "drop_poll polls deadline (now + 20) (Suc k) = (n, t)"
      using "1.prems" by (simp add: drop_poll.simps [of polls deadline now k])
    have "Suc k < n" "t + 20 = now + 20 + 20 * (n - Suc k)" "n = Suc (Suc k) \<or> t < deadline + 20"
      using "1.IH" [OF _ _ step] False by auto
    then show ?thesis using False by (auto simp: algebra_simps)
  qed
qed


section \<open>Properties\<close>

text \<open>The reader thread cuts the child's output into lines that are consecutive pieces of it,
  each at most the cap long and ended by its only newline, then sends at most one failure; it
  never sends more items than the receiver accepts.\<close>

lemma reader_lines_bounded:
  "\<exists>chunks rest failure. bytes = concat chunks @ rest \<and> list_all (line_chunk cap) chunks
     \<and> read_lines cap lossy bytes fin room = map (\<lambda>c. Line (lossy c)) chunks @ map ReadFailed failure
     \<and> length failure \<le> 1
     \<and> (case room of None \<Rightarrow> True | Some k \<Rightarrow> length (chunks @ map (\<lambda>_. []) failure) \<le> k)"
  by (rule read_lines_chunks)


definition quiet_client :: stdio_client where
  "quiet_client = \<lparr>sc_written = [], sc_queue = [], sc_closed = None, sc_next_id = 1,
     sc_timeout = 50, sc_time = 7, sc_writes = [], sc_alive = Ok True\<rparr>"

definition tiny_json :: json_lib where
  "tiny_json = \<lparr>parse_json = (\<lambda>s. Err ''eof''), print_json = (\<lambda>v. Ok ''{}'')\<rparr>"

lemma quiet_request:
  "request tiny_json (\<lambda>l. 1) ''ping'' JNull quiet_client =
     (Err ChildTimeout, quiet_client\<lparr>sc_written := ''{}'' @ [CHR 0x0A], sc_next_id := 2, sc_time := 57\<rparr>)"
  by (simp add: request_def quiet_client_def tiny_json_def write_line_def request_loop.simps
      recv_timeout_def)


text \<open>Dropping a client polls at most 101 times and waits at most two seconds after the kill,
  even for a child that is never reaped.\<close>

lemma drop_client_bounded:
  "fst (drop_client polls now) \<le> 101 \<and> snd (drop_client polls now) \<le> now + 2000"
proof -
  obtain n t where d: "drop_poll polls (now + 2000) now 0 = (n, t)" by force
  from drop_poll_bound [OF d] have n: "n \<le> 101" by auto
  then have "t \<le> now + 2000" using drop_poll_bound [OF d] by auto
  with n show ?thesis by (simp add: drop_client_def d drop_reap_timeout_def)
qed

end
