(* ===== verification/Aggregator.thy ===== *)
theory Aggregator
  imports SingleUse McpClient Render
begin

text \<open>
  \<open>crates/broker/src/aggregator.rs\<close>: the mediation between the upstream client and the
  supervised children. The children are values of a type \<open>'c\<close> with the operations of
  \<open>McpChild\<close>, and the spawner is a state \<open>'s\<close> with the function that runs it: what spawning and
  the children do is outside the repository's pure logic. Every method that takes \<open>&mut self\<close>
  returns the new aggregator with its result.
\<close>

section \<open>Data\<close>

definition namespace_sep :: char where "namespace_sep = CHR ''.''"

definition confirmation_ttl_secs :: u64 where "confirmation_ttl_secs = 30"

record confirmation =
  cf_server :: string
  cf_tool :: string
  cf_approved_at :: timestamp

datatype aggregator_error =
    InvalidServerId string
  | UnknownServer string
  | UnknownTool string
  | NotExposed string
  | NotConfirmed string
  | AgChild child_error

fun aggregator_error_text :: "aggregator_error \<Rightarrow> string" where
  "aggregator_error_text (InvalidServerId i) =
     ''server id '' @ [CHR 0x27] @ i @ [CHR 0x27] @ '' must not contain ''
       @ [CHR 0x27, namespace_sep, CHR 0x27]"
| "aggregator_error_text (UnknownServer i) = ''unknown server: '' @ i"
| "aggregator_error_text (UnknownTool name) = ''unknown tool: '' @ name"
| "aggregator_error_text (NotExposed name) = ''tool not currently exposed: '' @ name"
| "aggregator_error_text (NotConfirmed name) =
     ''tool requires a fresh per-action confirmation: '' @ name"
| "aggregator_error_text (AgChild e) = child_error_text e"

definition stopped_slot :: "server_manifest \<Rightarrow> string list \<Rightarrow> server_slot" where
  "stopped_slot srv advertised =
     (let classified = classify_advertised (srv_tools srv) advertised;
          slot = new_running (srv_id srv) classified
      in set_slot_state Stopped slot)"

text \<open>The spawner closure (with its captured state) and the operations of what it spawns.\<close>

record ('c, 's) host =
  host_spawn :: "server_manifest \<Rightarrow> 's \<Rightarrow> (child_error + 'c) \<times> 's"
  host_api :: "'c child_api"

record ('c, 's) aggregator =
  ag_manifest :: loaded_manifest
  ag_spawner :: 's
  ag_state :: broker_state
  ag_children :: "'c smap"
  ag_tool_defs :: "json smap smap"
  ag_confirmations :: "confirmation list"

definition debug_aggregator :: "('c, 's) aggregator \<Rightarrow> string" where
  "debug_aggregator a =
     debug_struct ''Aggregator'' [(''servers'', dec (length (bs_servers (ag_state a))))]"

section \<open>Building\<close>

definition spawn_and_classify ::
  "('c, 's) host \<Rightarrow> server_manifest \<Rightarrow> 's \<Rightarrow>
     (aggregator_error + 'c \<times> classified_tool list \<times> json smap) \<times> 's" where
  "spawn_and_classify h srv sp =
     (case host_spawn h srv sp of
        (Inl e, sp') \<Rightarrow> (Err (AgChild e), sp')
      | (Inr child, sp') \<Rightarrow>
          (case api_list_tools (host_api h) child of
             (Inl e, child') \<Rightarrow> (Err (AgChild e), sp')
           | (Inr advertised_defs, child') \<Rightarrow>
               (let advertised_names = map td_name advertised_defs;
                    classified = classify_advertised (srv_tools srv) advertised_names;
                    defs = sm_collect (map (\<lambda>t. (td_name t, td_definition t)) advertised_defs)
                in (Ok (child', classified, defs), sp'))))"

text \<open>The loop over the manifest's servers with its three accumulators and the spawner.\<close>

fun build_loop ::
  "('c, 's) host \<Rightarrow> server_manifest list \<Rightarrow>
     'c smap \<times> json smap smap \<times> server_slot list \<times> 's \<Rightarrow>
     aggregator_error + 'c smap \<times> json smap smap \<times> server_slot list \<times> 's" where
  "build_loop h [] acc = Ok acc"
| "build_loop h (srv # ss) (children, tool_defs, slots, sp) =
     (if namespace_sep \<in> set (srv_id srv) then Err (InvalidServerId (srv_id srv))
      else
        (case spawn_and_classify h srv sp of
           (Inr (child, classified, defs), sp') \<Rightarrow>
             build_loop h ss
               (sm_insert (srv_id srv) child children, sm_insert (srv_id srv) defs tool_defs,
                slots @ [new_running (srv_id srv) classified], sp')
         | (Inl (AgChild e), sp') \<Rightarrow>
             build_loop h ss
               (children, sm_insert (srv_id srv) [] tool_defs, slots @ [stopped_slot srv []], sp')
         | (Inl e, sp') \<Rightarrow> Err e))"

text \<open>The line for a server that could not be started.\<close>

definition start_failed_line :: "string \<Rightarrow> child_error \<Rightarrow> string" where
  "start_failed_line sid e =
     ''mcp-lockd: server '' @ [CHR 0x27] @ sid @ [CHR 0x27] @ '' failed to start ('' @ child_error_text e
       @ ''); starting it stopped (no tools exposed)''"

text \<open>
  What the same loop writes to standard error: a line for each server that is started stopped, up to
  the server whose id fails the whole build.
\<close>

fun build_said :: "('c, 's) host \<Rightarrow> server_manifest list \<Rightarrow> 's \<Rightarrow> string list" where
  "build_said h [] sp = []"
| "build_said h (srv # ss) sp =
     (if namespace_sep \<in> set (srv_id srv) then []
      else
        (case spawn_and_classify h srv sp of
           (Inr r, sp') \<Rightarrow> build_said h ss sp'
         | (Inl (AgChild e), sp') \<Rightarrow>
             start_failed_line (srv_id srv) e # build_said h ss sp'
         | (Inl e, sp') \<Rightarrow> []))"

definition build ::
  "('c, 's) host \<Rightarrow> loaded_manifest \<Rightarrow> 's \<Rightarrow> aggregator_error + ('c, 's) aggregator" where
  "build h loaded sp =
     (case build_loop h (mf_servers (lm_manifest loaded)) ([], [], [], sp) of
        Inl e \<Rightarrow> Err e
      | Inr (children, tool_defs, slots, sp') \<Rightarrow>
          Ok \<lparr>ag_manifest = loaded, ag_spawner = sp', ag_state = cold_start slots,
              ag_children = children, ag_tool_defs = tool_defs, ag_confirmations = []\<rparr>)"

section \<open>Operations\<close>

definition tool_class_of :: "('c, 's) aggregator \<Rightarrow> string \<Rightarrow> string \<Rightarrow> tool_class option" where
  "tool_class_of a sid tool =
     (case server (ag_state a) sid of
        None \<Rightarrow> None
      | Some slot \<Rightarrow> map_option ct_class (find (\<lambda>t. ct_name t = tool) (slot_tools slot)))"

definition confirmation_expired :: "confirmation \<Rightarrow> timestamp \<Rightarrow> bool" where
  "confirmation_expired c now \<longleftrightarrow> confirmation_ttl_secs < sat_sub now (cf_approved_at c)"

definition confirmations_retain :: "timestamp \<Rightarrow> confirmation list \<Rightarrow> confirmation list" where
  "confirmations_retain now cs = filter (\<lambda>c. \<not> confirmation_expired c now) cs"

definition approve_action ::
  "string \<Rightarrow> string \<Rightarrow> timestamp \<Rightarrow> ('c, 's) aggregator \<Rightarrow> ('c, 's) aggregator" where
  "approve_action sid tool now a =
     a\<lparr>ag_confirmations := confirmations_retain now (ag_confirmations a)
         @ [\<lparr>cf_server = sid, cf_tool = tool, cf_approved_at = now\<rparr>]\<rparr>"

definition set_state ::
  "string \<Rightarrow> server_state \<Rightarrow> ('c, 's) aggregator \<Rightarrow> (aggregator_error + unit) \<times> ('c, 's) aggregator" where
  "set_state sid st a =
     (case server (ag_state a) sid of
        None \<Rightarrow> (Err (UnknownServer sid), a)
      | Some slot \<Rightarrow> (Ok (), a\<lparr>ag_state := server_mut sid (set_slot_state st) (ag_state a)\<rparr>))"

definition pause :: "string \<Rightarrow> ('c, 's) aggregator \<Rightarrow> (aggregator_error + unit) \<times> ('c, 's) aggregator" where
  "pause sid a = set_state sid Paused a"

definition resume :: "string \<Rightarrow> ('c, 's) aggregator \<Rightarrow> (aggregator_error + unit) \<times> ('c, 's) aggregator" where
  "resume sid a = set_state sid Running a"

definition stop :: "string \<Rightarrow> ('c, 's) aggregator \<Rightarrow> (aggregator_error + unit) \<times> ('c, 's) aggregator" where
  "stop sid a =
     (case set_state sid Stopped a of
        (Inl e, a') \<Rightarrow> (Err e, a')
      | (Inr u, a') \<Rightarrow> (Ok (), a'\<lparr>ag_children := sm_remove sid (ag_children a')\<rparr>))"

definition start ::
  "('c, 's) host \<Rightarrow> string \<Rightarrow> ('c, 's) aggregator \<Rightarrow> (aggregator_error + unit) \<times> ('c, 's) aggregator" where
  "start h sid a =
     (case manifest_server (lm_manifest (ag_manifest a)) sid of
        None \<Rightarrow> (Err (UnknownServer sid), a)
      | Some srv \<Rightarrow>
          if sm_contains (ag_children a) sid then set_state sid Running a
          else
            (case spawn_and_classify h srv (ag_spawner a) of
               (Inl e, sp) \<Rightarrow> (Err e, a\<lparr>ag_spawner := sp\<rparr>)
             | (Inr (child, classified, defs), sp) \<Rightarrow>
                 set_state sid Running
                   (a\<lparr>ag_spawner := sp,
                      ag_children := sm_insert sid child (ag_children a),
                      ag_tool_defs := sm_insert sid defs (ag_tool_defs a),
                      ag_state := server_mut sid (set_tools classified) (ag_state a)\<rparr>)))"

definition external_name :: "string \<Rightarrow> string \<Rightarrow> string" where
  "external_name sid tool = sid @ [namespace_sep] @ tool"

fun rename_def :: "string \<Rightarrow> json \<Rightarrow> json" where
  "rename_def name (JObj m) = JObj (sm_insert ''name'' (JStr name) m)"
| "rename_def name v = v"

definition slot_listing :: "json smap smap \<Rightarrow> timestamp \<Rightarrow> server_slot \<Rightarrow> json list" where
  "slot_listing tool_defs now slot =
     (case sm_get tool_defs (slot_id slot) of
        None \<Rightarrow> []
      | Some defs \<Rightarrow>
          List.map_filter
            (\<lambda>tool. map_option (rename_def (external_name (slot_id slot) tool)) (sm_get defs tool))
            (exposed slot now))"

definition aggregated_tools :: "('c, 's) aggregator \<Rightarrow> timestamp \<Rightarrow> json list" where
  "aggregated_tools a now =
     concat (map (slot_listing (ag_tool_defs a) now) (bs_servers (ag_state a)))"

definition confirmation_for :: "string \<times> string \<Rightarrow> timestamp \<Rightarrow> confirmation \<Rightarrow> bool" where
  "confirmation_for q now c \<longleftrightarrow>
     cf_server c = fst q \<and> cf_tool c = snd q \<and> \<not> confirmation_expired c now"

fun child_gone :: "child_error \<Rightarrow> bool" where
  "child_gone ChildExited = True"
| "child_gone (ChildIo e) = True"
| "child_gone ChildTimeout = True"
| "child_gone (ChildProtocol m) = False"
| "child_gone (ChildRpc code m) = False"

definition close_slot :: "server_slot \<Rightarrow> server_slot" where
  "close_slot slot = fail_closed (set_slot_state Stopped slot)"

text \<open>The end of \<open>call\<close>, once the exposure gate and the confirmation are passed.\<close>

definition route ::
  "'c child_api \<Rightarrow> string \<Rightarrow> string \<Rightarrow> string \<Rightarrow> json \<Rightarrow> ('c, 's) aggregator \<Rightarrow>
     (aggregator_error + json) \<times> ('c, 's) aggregator" where
  "route api external sid tool arguments a =
     (case sm_get (ag_children a) sid of
        None \<Rightarrow> (Err (UnknownTool external), a)
      | Some child \<Rightarrow>
          (case api_call_tool api child tool arguments of
             (r, child') \<Rightarrow>
               (let a' = a\<lparr>ag_children := sm_update sid (\<lambda>_. child') (ag_children a)\<rparr> in
                case r of
                  Inr v \<Rightarrow> (Ok v, a')
                | Inl e \<Rightarrow>
                    (Err (AgChild e),
                     if child_gone e
                     then a'\<lparr>ag_state := server_mut sid close_slot (ag_state a')\<rparr>
                     else a'))))"

definition call ::
  "'c child_api \<Rightarrow> string \<Rightarrow> json \<Rightarrow> timestamp \<Rightarrow> ('c, 's) aggregator \<Rightarrow>
     (aggregator_error + json) \<times> ('c, 's) aggregator" where
  "call api external arguments now a =
     (case split_once namespace_sep external of
        None \<Rightarrow> (Err (UnknownTool external), a)
      | Some (sid, tool) \<Rightarrow>
          (case server (ag_state a) sid of
             None \<Rightarrow> (Err (UnknownTool external), a)
           | Some slot \<Rightarrow>
               (let cls = map_option ct_class (find (\<lambda>t. ct_name t = tool) (slot_tools slot)) in
                if tool \<notin> set (exposed slot now) then (Err (NotExposed external), a)
                else if is_some_and cls requires_per_action_presence then
                  (case take_first (confirmation_for (sid, tool) now) (ag_confirmations a) of
                     None \<Rightarrow> (Err (NotConfirmed external), a)
                   | Some (c, cs) \<Rightarrow> route api external sid tool arguments (a\<lparr>ag_confirmations := cs\<rparr>))
                else route api external sid tool arguments a)))"

fun reap_loop ::
  "'c child_api \<Rightarrow> 'c smap \<Rightarrow> broker_state \<Rightarrow> 'c smap \<times> broker_state" where
  "reap_loop api [] b = ([], b)"
| "reap_loop api ((sid, child) # cs) b =
     (let (alive, child') = api_is_alive api child;
          b' = (if alive then b else server_mut sid close_slot b);
          (cs', b'') = reap_loop api cs b'
      in ((sid, child') # cs', b''))"

definition reap_exited_children :: "'c child_api \<Rightarrow> ('c, 's) aggregator \<Rightarrow> ('c, 's) aggregator" where
  "reap_exited_children api a =
     (let (children, b) = reap_loop api (ag_children a) (ag_state a)
      in a\<lparr>ag_children := children, ag_state := b\<rparr>)"

definition ag_exposure_snapshot :: "('c, 's) aggregator \<Rightarrow> timestamp \<Rightarrow> string list smap" where
  "ag_exposure_snapshot a now = exposure_snapshot (ag_state a) now"

end
