(* ===== verification/AggregatorFacts.thy ===== *)
theory AggregatorFacts
  imports Aggregator
begin

text \<open>
  What the aggregator keeps and promises: the structural invariant, the contract shared by the
  lifecycle operations, the single-use discipline of confirmations, the gate of \<open>call\<close> and
  the correspondence between the listing and the calls it admits.
\<close>

section \<open>The invariant\<close>

text \<open>A slot's tools are the manifest's classification of what its child advertised.\<close>

definition slot_classified :: "manifest \<Rightarrow> server_slot \<Rightarrow> bool" where
  "slot_classified m slot \<longleftrightarrow>
     (\<exists>srv names. manifest_server m (slot_id slot) = Some srv
        \<and> slot_tools slot = classify_advertised (srv_tools srv) names)"

definition broker_ok :: "manifest \<Rightarrow> broker_state \<Rightarrow> bool" where
  "broker_ok m b \<longleftrightarrow>
     map slot_id (bs_servers b) = map srv_id (mf_servers m)
     \<and> distinct (map slot_id (bs_servers b))
     \<and> (\<forall>slot \<in> set (bs_servers b). namespace_sep \<notin> set (slot_id slot) \<and> slot_classified m slot)"

text \<open>Every tool of a slot has a definition to list.\<close>

definition defs_cover :: "json smap smap \<Rightarrow> broker_state \<Rightarrow> bool" where
  "defs_cover tool_defs b \<longleftrightarrow>
     (\<forall>slot \<in> set (bs_servers b). \<exists>defs. sm_get tool_defs (slot_id slot) = Some defs
        \<and> (\<forall>t \<in> set (slot_tools slot). sm_get defs (ct_name t) \<noteq> None))"

definition agg_ok :: "('c, 's) aggregator \<Rightarrow> bool" where
  "agg_ok a \<longleftrightarrow>
     broker_ok (lm_manifest (ag_manifest a)) (ag_state a)
     \<and> sm_ok (ag_children a) \<and> sm_ok (ag_tool_defs a) \<and> defs_cover (ag_tool_defs a) (ag_state a)"

lemma broker_ok_distinct: "broker_ok m b \<Longrightarrow> distinct (map slot_id (bs_servers b))"
  unfolding broker_ok_def by blast

lemma broker_ok_slot:
  "broker_ok m b \<Longrightarrow> server b i = Some slot \<Longrightarrow>
     slot_id slot = i \<and> namespace_sep \<notin> set i \<and> slot_classified m slot"
  by (auto simp: broker_ok_def dest: server_SomeD)

lemma broker_ok_member:
  "broker_ok m b \<Longrightarrow> slot \<in> set (bs_servers b) \<Longrightarrow> server b (slot_id slot) = Some slot"
  by (simp add: broker_ok_distinct server_member)

lemma slot_classified_cong:
  "slot_id s = slot_id t \<Longrightarrow> slot_tools s = slot_tools t \<Longrightarrow> slot_classified m s = slot_classified m t"
  by (simp add: slot_classified_def)

text \<open>Two shapes of update keep the invariant: one that leaves the tools, one that reclassifies them.\<close>

lemma broker_ok_server_mut [inv_intros]:
  assumes ok: "broker_ok m b"
    and f: "\<And>s. slot_id (f s) = slot_id s"
    and cls: "\<And>s. s \<in> set (bs_servers b) \<Longrightarrow> slot_id s = i \<Longrightarrow> slot_classified m (f s)"
  shows "broker_ok m (server_mut i f b)"
  using ok cls by (auto simp: broker_ok_def f dest!: set_server_mut)

lemma broker_ok_state [inv_intros]:
  assumes "broker_ok m b"
    and "\<And>s. slot_id (f s) = slot_id s" and "\<And>s. slot_tools (f s) = slot_tools s"
  shows "broker_ok m (server_mut i f b)"
  using assms(1)
  by (rule broker_ok_server_mut) (use assms in \<open>auto simp: broker_ok_def slot_classified_def\<close>)

lemma defs_cover_state [inv_intros]:
  assumes "defs_cover td b" and f: "\<And>s. slot_id (f s) = slot_id s" "\<And>s. slot_tools (f s) = slot_tools s"
  shows "defs_cover td (server_mut i f b)"
  using assms(1) by (auto simp: defs_cover_def f dest!: set_server_mut)

lemma agg_ok_state [inv_intros]:
  assumes "agg_ok a" and f: "\<And>s. slot_id (f s) = slot_id s" "\<And>s. slot_tools (f s) = slot_tools s"
  shows "agg_ok (a\<lparr>ag_state := server_mut i f (ag_state a)\<rparr>)"
  using assms(1) by (simp add: agg_ok_def f broker_ok_state defs_cover_state)

section \<open>Cold start\<close>

lemma spawn_and_classify_ok:
  "spawn_and_classify h srv sp = (Ok (child, classified, defs), sp') \<Longrightarrow>
     \<exists>names. classified = classify_advertised (srv_tools srv) names
       \<and> (\<forall>n. sm_get defs n \<noteq> None \<longleftrightarrow> n \<in> set names)"
  by (rule exI [of _ "map td_name (case api_list_tools (host_api h)
      (projr (fst (host_spawn h srv sp))) of (Inr ts, c) \<Rightarrow> ts | (Inl e, c) \<Rightarrow> [])"])
    (auto simp: spawn_and_classify_def Let_def sm_collect_dom [simplified] image_image
      dest!: sm_collect_SomeD split: prod.splits sum.splits)

lemma spawn_and_classify_err:
  "spawn_and_classify h srv sp = (Err e, sp') \<Longrightarrow> \<exists>ce. e = AgChild ce"
  by (auto simp: spawn_and_classify_def Let_def split: prod.splits sum.splits)

text \<open>What the loop of \<open>build\<close> keeps of its accumulators, for the servers it has handled.\<close>

definition fresh_slot :: "server_manifest \<Rightarrow> server_slot \<Rightarrow> bool" where
  "fresh_slot srv slot \<longleftrightarrow>
     slot_id slot = srv_id srv \<and> namespace_sep \<notin> set (srv_id srv) \<and> slot_elevation slot = None
     \<and> (\<exists>names. slot_tools slot = classify_advertised (srv_tools srv) names)
     \<and> (slot_state slot = Running \<or> slot_state slot = Stopped \<and> slot_tools slot = [])"

definition covered :: "json smap smap \<Rightarrow> server_slot \<Rightarrow> bool" where
  "covered tool_defs slot \<longleftrightarrow>
     (\<exists>defs. sm_get tool_defs (slot_id slot) = Some defs
        \<and> (\<forall>t \<in> set (slot_tools slot). sm_get defs (ct_name t) \<noteq> None))"

lemma defs_cover_covered: "defs_cover td b = (\<forall>slot \<in> set (bs_servers b). covered td slot)"
  by (simp add: defs_cover_def covered_def)

lemma covered_insert_other:
  "sm_ok td \<Longrightarrow> slot_id slot \<noteq> i \<Longrightarrow> covered (sm_insert i defs td) slot = covered td slot"
  by (simp add: covered_def sm.get_insert)

lemma covered_insert:
  "sm_ok td \<Longrightarrow> (\<And>t. t \<in> set (slot_tools slot) \<Longrightarrow> sm_get defs (ct_name t) \<noteq> None) \<Longrightarrow>
     covered (sm_insert (slot_id slot) defs td) slot"
  by (simp add: covered_def sm.get_insert)

definition build_inv ::
  "server_manifest list \<Rightarrow> 'c smap \<times> json smap smap \<times> server_slot list \<times> 's \<Rightarrow> bool" where
  "build_inv ss acc =
     (case acc of (children, td, slots, sp) \<Rightarrow>
        sm_ok children \<and> sm_ok td \<and> list_all2 fresh_slot ss slots
        \<and> (\<forall>slot \<in> set slots. covered td slot)
        \<and> (\<forall>slot \<in> set slots. slot_state slot = Running \<longrightarrow> sm_contains children (slot_id slot)))"

lemma fresh_ids: "list_all2 fresh_slot ss slots \<Longrightarrow> map slot_id slots = map srv_id ss"
  by (induction rule: list_all2_induct) (simp_all add: fresh_slot_def)

lemma build_inv_extend:
  assumes inv: "build_inv seen (children, td, slots, sp)"
    and new: "srv_id srv \<notin> set (map srv_id seen)"
    and slot: "fresh_slot srv slot"
    and defs: "\<And>t. t \<in> set (slot_tools slot) \<Longrightarrow> sm_get defs (ct_name t) \<noteq> None"
    and ch: "sm_ok children'" "\<And>i. sm_contains children i \<Longrightarrow> sm_contains children' i"
      "slot_state slot = Running \<Longrightarrow> sm_contains children' (slot_id slot)"
  shows "build_inv (seen @ [srv]) (children', sm_insert (srv_id srv) defs td, slots @ [slot], sp')"
proof -
  have ids: "slot_id s \<noteq> srv_id srv" if "s \<in> set slots" for s
    using inv new that fresh_ids [of seen slots] by (auto simp: build_inv_def) (metis image_eqI image_set)
  have i: "srv_id srv = slot_id slot" using slot by (simp add: fresh_slot_def)
  have "sm_ok td" using inv by (simp add: build_inv_def)
  then have "covered (sm_insert (srv_id srv) defs td) slot"
    unfolding i using defs by (rule covered_insert)
  with inv slot ids ch \<open>sm_ok td\<close> show ?thesis
    by (auto simp: build_inv_def list_all2_appendI covered_insert_other sm.ok_insert)
qed

lemma build_loop_inv:
  assumes "build_loop h ss acc = Ok acc'"
    and "build_inv seen acc" and "distinct (map srv_id (seen @ ss))"
  shows "build_inv (seen @ ss) acc'"
  using assms
proof (induction h ss acc arbitrary: seen rule: build_loop.induct)
  case (1 h acc)
  then show ?case by simp
next
  case (2 h srv ss children td slots sp)
  from "2.prems"(1) have sep: "namespace_sep \<notin> set (srv_id srv)" by (auto split: if_splits)
  have new: "srv_id srv \<notin> set (map srv_id seen)" using "2.prems"(3) by auto
  have ok: "sm_ok children" using "2.prems"(2) by (simp add: build_inv_def)
  obtain r sp' where sc: "spawn_and_classify h srv sp = (r, sp')" by force
  show ?case
  proof (cases r)
    case (Inl e)
    then obtain ce where e: "e = AgChild ce" using spawn_and_classify_err [of h srv sp e sp'] sc by auto
    have "fresh_slot srv (stopped_slot srv [])"
      using sep by (auto simp: fresh_slot_def stopped_slot_def Let_def classify_advertised_def)
    then have "build_inv (seen @ [srv]) (children, sm_insert (srv_id srv) [] td, slots @ [stopped_slot srv []], sp')"
      by (rule build_inv_extend [OF "2.prems"(2) new])
        (auto simp: ok stopped_slot_def Let_def classify_advertised_def)
    then show ?thesis
      using "2.IH"(1) [where seen = "seen @ [srv]", OF sep sc [symmetric] Inl e] "2.prems" sc Inl e sep by auto
  next
    case (Inr x)
    obtain child classified defs where x: "x = (child, classified, defs)" by (metis prod_cases3)
    from spawn_and_classify_ok [of h srv sp child classified defs sp'] sc Inr x
    obtain names where names: "classified = classify_advertised (srv_tools srv) names"
      "\<And>n. sm_get defs n \<noteq> None \<longleftrightarrow> n \<in> set names" by auto
    have "fresh_slot srv (new_running (srv_id srv) classified)"
      using sep names by (auto simp: fresh_slot_def)
    then have "build_inv (seen @ [srv])
      (sm_insert (srv_id srv) child children, sm_insert (srv_id srv) defs td,
       slots @ [new_running (srv_id srv) classified], sp')"
      by (rule build_inv_extend [OF "2.prems"(2) new])
        (auto simp: names set_classify_advertised sm.ok_insert ok simp del: not_None_eq)
    then show ?thesis
      using "2.IH"(2) [where seen = "seen @ [srv]", OF sep sc [symmetric] Inr x [symmetric] refl] "2.prems" sc Inr x sep by auto
  qed
qed

text \<open>A fresh aggregator: well-formed, unelevated, and every running server has its child.\<close>

lemma build_cold:
  assumes b: "build h loaded sp = Ok a" and m: "distinct (map srv_id (mf_servers (lm_manifest loaded)))"
  shows "agg_ok a \<and> unelevated (ag_state a) \<and> ag_manifest a = loaded \<and> ag_confirmations a = []
    \<and> (\<forall>slot \<in> set (bs_servers (ag_state a)).
         slot_state slot = Running \<and> sm_contains (ag_children a) (slot_id slot)
         \<or> slot_state slot = Stopped)"
proof -
  let ?ss = "mf_servers (lm_manifest loaded)"
  from b obtain children td slots sp' where
    l: "build_loop h ?ss ([], [], [], sp) = Ok (children, td, slots, sp')"
    and a: "a = \<lparr>ag_manifest = loaded, ag_spawner = sp', ag_state = cold_start slots,
      ag_children = children, ag_tool_defs = td, ag_confirmations = []\<rparr>"
    by (auto simp: build_def split: sum.splits prod.splits)
  have "build_inv [] ([], [], [], sp)" by (simp add: build_inv_def)
  from build_loop_inv [OF l this] m have inv: "build_inv ?ss (children, td, slots, sp')" by simp
  then have fresh: "list_all2 fresh_slot ?ss slots" by (simp add: build_inv_def)
  have slot: "\<exists>srv \<in> set ?ss. fresh_slot srv s" if "s \<in> set slots" for s
    using fresh that by (metis in_set_conv_nth list_all2_conv_all_nth)
  have cls: "slot_classified (lm_manifest loaded) s \<and> namespace_sep \<notin> set (slot_id s)"
    if s: "s \<in> set slots" for s
  proof -
    from slot [OF s] obtain srv where srv: "srv \<in> set ?ss" "fresh_slot srv s" by blast
    then have "manifest_server (lm_manifest loaded) (srv_id srv) = Some srv"
      using m by (simp add: manifest_server_def find_key)
    with srv show ?thesis by (auto simp: slot_classified_def fresh_slot_def)
  qed
  have "broker_ok (lm_manifest loaded) (cold_start slots)"
    unfolding broker_ok_def using cls m fresh_ids [OF fresh] by (simp add: cold_start_def)
  with inv slot show ?thesis
    by (fastforce simp: a agg_ok_def build_inv_def unelevated_def cold_start_def defs_cover_covered
        fresh_slot_def)
qed

text \<open>One line on standard error, with an error of its child, for each server that comes up stopped.\<close>

lemma build_loop_said:
  assumes "build_loop h ss (children, td, slots, sp) = Ok (children', td', slots', sp')"
  shows "\<exists>fresh es. slots' = slots @ fresh \<and> map slot_id fresh = map srv_id ss
    \<and> build_said h ss sp =
        map2 start_failed_line (map slot_id (filter (\<lambda>s. slot_state s = Stopped) fresh)) es
    \<and> length es = length (filter (\<lambda>s. slot_state s = Stopped) fresh)"
  using assms
proof (induction ss arbitrary: children td slots sp)
  case Nil
  then show ?case by simp
next
  case (Cons srv ss)
  from Cons.prems have sep: "namespace_sep \<notin> set (srv_id srv)" by (auto split: if_splits)
  obtain r sp1 where sc: "spawn_and_classify h srv sp = (r, sp1)" by force
  have step: ?case
    if slot: "slot_id s = srv_id srv"
      and l: "build_loop h ss (ch1, td1, slots @ [s], sp1) = Ok (children', td', slots', sp')"
      and e: "build_said h (srv # ss) sp = map (start_failed_line (srv_id srv)) e1 @ build_said h ss sp1"
      and n: "length e1 = (if slot_state s = Stopped then 1 else 0)" for s ch1 td1 e1
  proof -
    from Cons.IH [OF l] obtain fresh es where "slots' = (slots @ [s]) @ fresh"
      "map slot_id fresh = map srv_id ss"
      "build_said h ss sp1 = map2 start_failed_line (map slot_id (filter (\<lambda>s. slot_state s = Stopped) fresh)) es"
      "length es = length (filter (\<lambda>s. slot_state s = Stopped) fresh)" by blast
    with slot e n show ?thesis
      by (intro exI [of _ "s # fresh"] exI [of _ "e1 @ es"]) (auto simp: length_Suc_conv split: if_splits)
  qed
  show ?case
  proof (cases r)
    case (Inl e)
    then obtain ce where ce: "e = AgChild ce" using spawn_and_classify_err [of h srv sp e sp1] sc by auto
    show ?thesis
      by (rule step [where s = "stopped_slot srv []" and ?e1.0 = "[ce]"])
        (use Cons.prems sep sc Inl ce in \<open>auto simp: stopped_slot_def Let_def\<close>)
  next
    case (Inr x)
    obtain child classified defs where x: "x = (child, classified, defs)" by (metis prod_cases3)
    show ?thesis
      by (rule step [where s = "new_running (srv_id srv) classified" and ?e1.0 = "[]"])
        (use Cons.prems sep sc Inr x in auto)
  qed
qed

lemma build_announces:
  assumes b: "build h loaded sp = Ok a" and s: "slot \<in> set (bs_servers (ag_state a))" "slot_state slot = Stopped"
  shows "\<exists>e. start_failed_line (slot_id slot) e \<in> set (build_said h (mf_servers (lm_manifest loaded)) sp)"
proof -
  let ?ss = "mf_servers (lm_manifest loaded)" and ?stopped = "filter (\<lambda>s. slot_state s = Stopped)"
  from b obtain children td slots sp' where
    l: "build_loop h ?ss ([], [], [], sp) = Ok (children, td, slots, sp')"
    and a: "bs_servers (ag_state a) = slots"
    by (auto simp: build_def cold_start_def split: sum.splits prod.splits)
  from build_loop_said [OF l] obtain es where
    said: "build_said h ?ss sp = map2 start_failed_line (map slot_id (?stopped slots)) es"
    and n: "length es = length (?stopped slots)" by auto
  from s a have "slot \<in> set (?stopped slots)" by simp
  then obtain i where "i < length (?stopped slots)" "?stopped slots ! i = slot" by (metis in_set_conv_nth)
  with n show ?thesis unfolding said by (intro exI [of _ "es ! i"]) (force simp: in_set_conv_nth)
qed

lemma build_slots:
  assumes b: "build h loaded sp = Ok a" and m: "distinct (map srv_id (mf_servers (lm_manifest loaded)))"
  shows "map slot_id (bs_servers (ag_state a)) = map srv_id (mf_servers (lm_manifest loaded))"
    and "slot \<in> set (bs_servers (ag_state a)) \<Longrightarrow>
      slot_state slot = Running \<and> sm_contains (ag_children a) (slot_id slot)
      \<or> slot_state slot = Stopped \<and> slot_tools slot = []"
proof -
  let ?ss = "mf_servers (lm_manifest loaded)"
  from b obtain children td slots sp' where
    l: "build_loop h ?ss ([], [], [], sp) = Ok (children, td, slots, sp')"
    and a: "bs_servers (ag_state a) = slots" "ag_children a = children"
    by (auto simp: build_def cold_start_def split: sum.splits prod.splits)
  have "build_inv [] ([], [], [], sp)" by (simp add: build_inv_def)
  from build_loop_inv [OF l this] m have inv: "build_inv ?ss (children, td, slots, sp')" by simp
  then have fresh: "list_all2 fresh_slot ?ss slots" by (simp add: build_inv_def)
  then show "map slot_id (bs_servers (ag_state a)) = map srv_id ?ss" by (simp add: a fresh_ids)
  assume "slot \<in> set (bs_servers (ag_state a))"
  then have slot: "slot \<in> set slots" by (simp add: a)
  then obtain srv where "fresh_slot srv slot" using fresh by (metis in_set_conv_nth list_all2_conv_all_nth)
  with inv slot show "slot_state slot = Running \<and> sm_contains (ag_children a) (slot_id slot)
      \<or> slot_state slot = Stopped \<and> slot_tools slot = []"
    by (auto simp: a build_inv_def fresh_slot_def)
qed

section \<open>Lifecycle operations\<close>

text \<open>
  The contract of an operation on one server: it keeps the invariant, the manifest and the
  confirmations, leaves every other server alone, adds no elevation, and reports a server it
  does not know without any effect on the state.
\<close>

locale lifecycle_op =
  fixes oper :: "string \<Rightarrow> ('c, 's) aggregator \<Rightarrow> (aggregator_error + unit) \<times> ('c, 's) aggregator"
  assumes op_ok: "agg_ok a \<Longrightarrow> agg_ok (snd (oper i a))"
    and op_manifest: "ag_manifest (snd (oper i a)) = ag_manifest a"
    and op_confirmations: "ag_confirmations (snd (oper i a)) = ag_confirmations a"
    and op_other: "j \<noteq> i \<Longrightarrow> server (ag_state (snd (oper i a))) j = server (ag_state a) j"
    and op_elevation:
      "map_option slot_elevation (server (ag_state (snd (oper i a))) i) =
         map_option slot_elevation (server (ag_state a) i)"
    and op_unknown: "agg_ok a \<Longrightarrow> server (ag_state a) i = None \<Longrightarrow> oper i a = (Err (UnknownServer i), a)"
begin

lemma op_elevation_any:
  "map_option slot_elevation (server (ag_state (snd (oper i a))) j) =
     map_option slot_elevation (server (ag_state a) j)"
  by (cases "j = i") (simp_all add: op_elevation op_other)

lemma op_unelevated:
  assumes "agg_ok a" and "unelevated (ag_state a)"
  shows "unelevated (ag_state (snd (oper i a)))"
  unfolding unelevated_def
proof
  fix slot
  assume slot: "slot \<in> set (bs_servers (ag_state (snd (oper i a))))"
  have "agg_ok (snd (oper i a))" using assms(1) by (rule op_ok)
  then have "server (ag_state (snd (oper i a))) (slot_id slot) = Some slot"
    using slot by (auto simp: agg_ok_def intro: broker_ok_member)
  then have "map_option slot_elevation (server (ag_state a) (slot_id slot)) = Some (slot_elevation slot)"
    using op_elevation_any [of i a "slot_id slot"] by simp
  then show "slot_elevation slot = None"
    using assms(2) by (auto simp: unelevated_def dest: server_SomeD)
qed

lemma op_others_exposed:
  "j \<noteq> i \<Longrightarrow> map_option (\<lambda>s. exposed s now) (server (ag_state (snd (oper i a))) j) =
     map_option (\<lambda>s. exposed s now) (server (ag_state a) j)"
  by (simp add: op_other)

text \<open>Any number of such operations, on any servers.\<close>

lemma op_sequence:
  "agg_ok a \<Longrightarrow> unelevated (ag_state a) \<Longrightarrow>
     agg_ok (fold (\<lambda>i b. snd (oper i b)) is a) \<and> unelevated (ag_state (fold (\<lambda>i b. snd (oper i b)) is a))"
  by (induction "is" arbitrary: a) (auto simp: op_ok op_unelevated)

end

lemma set_state_known:
  "server (ag_state a) i = Some slot \<Longrightarrow>
     set_state i st a = (Ok (), a\<lparr>ag_state := server_mut i (set_slot_state st) (ag_state a)\<rparr>)"
  by (simp add: set_state_def)

lemma set_state_ok [inv_intros]: "agg_ok a \<Longrightarrow> agg_ok (snd (set_state i st a))"
  by (auto simp: set_state_def intro!: inv_intros split: option.splits)

lemma set_state_frame [agg_frames]:
  "ag_manifest (snd (set_state i st a)) = ag_manifest a"
  "ag_confirmations (snd (set_state i st a)) = ag_confirmations a"
  "ag_children (snd (set_state i st a)) = ag_children a"
  "ag_tool_defs (snd (set_state i st a)) = ag_tool_defs a"
  by (simp_all add: set_state_def split: option.splits)

lemma server_set_state:
  "server (ag_state (snd (set_state i st a))) j =
     (if j = i then map_option (set_slot_state st) (server (ag_state a) i) else server (ag_state a) j)"
  by (auto simp: set_state_def server_server_mut split: option.splits)

lemma set_state_unknown:
  "server (ag_state a) i = None \<Longrightarrow> set_state i st a = (Err (UnknownServer i), a)"
  by (simp add: set_state_def)

lemma set_state_op: "lifecycle_op (\<lambda>i. set_state i st)"
  by unfold_locales
    (auto simp: set_state_ok set_state_frame server_set_state set_state_unknown
      option.map_comp o_def)

interpretation pause: lifecycle_op pause
  unfolding pause_def [abs_def] by (rule set_state_op)

interpretation resume: lifecycle_op resume
  unfolding resume_def [abs_def] by (rule set_state_op)

lemma stop_known:
  "server (ag_state a) i = Some slot \<Longrightarrow>
     stop i a = (Ok (), a\<lparr>ag_state := server_mut i (set_slot_state Stopped) (ag_state a),
                           ag_children := sm_remove i (ag_children a)\<rparr>)"
  by (simp add: stop_def set_state_known)

lemma stop_unknown: "server (ag_state a) i = None \<Longrightarrow> stop i a = (Err (UnknownServer i), a)"
  by (simp add: stop_def set_state_unknown)

interpretation stop: lifecycle_op stop
proof
  fix a :: "('c, 's) aggregator" and i j :: string
  show "agg_ok a \<Longrightarrow> agg_ok (snd (stop i a))"
    by (cases "server (ag_state a) i")
      (auto simp: stop_unknown stop_known agg_ok_def sm.ok_remove intro!: inv_intros)
  show "ag_manifest (snd (stop i a)) = ag_manifest a"
    and "ag_confirmations (snd (stop i a)) = ag_confirmations a"
    and "map_option slot_elevation (server (ag_state (snd (stop i a))) i) =
         map_option slot_elevation (server (ag_state a) i)"
    and "server (ag_state a) i = None \<Longrightarrow> stop i a = (Err (UnknownServer i), a)"
    by (cases "server (ag_state a) i"; simp add: stop_unknown stop_known server_server_mut)+
  show "server (ag_state (snd (stop i a))) j = server (ag_state a) j" if "j \<noteq> i"
    using that by (cases "server (ag_state a) i") (simp_all add: stop_unknown stop_known server_server_mut)
qed

lemma unknown_server:
  "broker_ok m b \<Longrightarrow> manifest_server m i = None \<longleftrightarrow> server b i = None"
  unfolding manifest_server_def find_key_None server_None_ids by (simp add: broker_ok_def)

lemma manifest_server_id: "manifest_server m i = Some srv \<Longrightarrow> srv_id srv = i"
  by (auto simp: manifest_server_def dest: find_SomeD)

lemma start_running:
  "manifest_server (lm_manifest (ag_manifest a)) i = Some srv \<Longrightarrow> sm_contains (ag_children a) i \<Longrightarrow>
     start h i a = set_state i Running a"
  by (simp add: start_def)

lemma start_unknown:
  "agg_ok a \<Longrightarrow> server (ag_state a) i = None \<Longrightarrow> start h i a = (Err (UnknownServer i), a)"
  using unknown_server [of "lm_manifest (ag_manifest a)" "ag_state a" i]
  by (simp add: start_def agg_ok_def)

text \<open>The state after a successful spawn, before the server is set running.\<close>

definition respawned ::
  "string \<Rightarrow> 'c \<Rightarrow> classified_tool list \<Rightarrow> json smap \<Rightarrow> 's \<Rightarrow> ('c, 's) aggregator \<Rightarrow> ('c, 's) aggregator" where
  "respawned i child classified defs sp a =
     a\<lparr>ag_spawner := sp, ag_children := sm_insert i child (ag_children a),
       ag_tool_defs := sm_insert i defs (ag_tool_defs a),
       ag_state := server_mut i (set_tools classified) (ag_state a)\<rparr>"

lemma start_cases:
  obtains (unknown) "manifest_server (lm_manifest (ag_manifest a)) i = None"
      "start h i a = (Err (UnknownServer i), a)"
  | (alive) srv where "manifest_server (lm_manifest (ag_manifest a)) i = Some srv"
      "sm_contains (ag_children a) i" "start h i a = set_state i Running a"
  | (failed) srv e sp where "manifest_server (lm_manifest (ag_manifest a)) i = Some srv"
      "\<not> sm_contains (ag_children a) i" "start h i a = (Err (AgChild e), a\<lparr>ag_spawner := sp\<rparr>)"
  | (spawned) srv child classified defs sp where
      "manifest_server (lm_manifest (ag_manifest a)) i = Some srv"
      "\<not> sm_contains (ag_children a) i"
      "spawn_and_classify h srv (ag_spawner a) = (Ok (child, classified, defs), sp)"
      "start h i a = set_state i Running (respawned i child classified defs sp a)"
proof (cases "manifest_server (lm_manifest (ag_manifest a)) i")
  case None
  then show thesis by (simp add: start_def unknown)
next
  case (Some srv)
  show thesis
  proof (cases "sm_contains (ag_children a) i")
    case True
    with Some show thesis by (simp add: start_def alive)
  next
    case False
    obtain r sp where sc: "spawn_and_classify h srv (ag_spawner a) = (r, sp)" by force
    show thesis
    proof (cases r)
      case (Inl e)
      with spawn_and_classify_err [of h srv "ag_spawner a" e sp] sc obtain ce where "e = AgChild ce" by auto
      with Some False sc Inl show thesis by (intro failed [of srv ce sp]) (simp_all add: start_def)
    next
      case (Inr x)
      then show thesis using Some False sc
        by (cases x) (intro spawned [of srv], simp_all add: start_def respawned_def)
    qed
  qed
qed

lemma respawned_ok:
  assumes a: "agg_ok a"
    and srv: "manifest_server (lm_manifest (ag_manifest a)) i = Some srv"
    and sc: "spawn_and_classify h srv (ag_spawner a) = (Ok (child, classified, defs), sp)"
  shows "agg_ok (respawned i child classified defs sp a)"
proof -
  from spawn_and_classify_ok [OF sc] obtain names where
    names: "classified = classify_advertised (srv_tools srv) names"
      "\<And>n. sm_get defs n \<noteq> None \<longleftrightarrow> n \<in> set names" by blast
  have ok: "broker_ok (lm_manifest (ag_manifest a)) (ag_state a)" "sm_ok (ag_children a)"
    "sm_ok (ag_tool_defs a)" "defs_cover (ag_tool_defs a) (ag_state a)"
    using a by (simp_all add: agg_ok_def)
  have "broker_ok (lm_manifest (ag_manifest a)) (server_mut i (set_tools classified) (ag_state a))"
    using ok(1) by (rule broker_ok_server_mut) (auto simp: slot_classified_def names srv)
  moreover have "covered (sm_insert i defs (ag_tool_defs a)) slot"
    if slot: "slot \<in> set (bs_servers (server_mut i (set_tools classified) (ag_state a)))" for slot
  proof (cases "slot_id slot = i")
    case True
    have "server (server_mut i (set_tools classified) (ag_state a)) i = Some slot"
      using broker_ok_member [OF calculation slot] True by simp
    then have "slot_tools slot = classified" by (auto simp: server_server_mut)
    then have "sm_get defs (ct_name t) \<noteq> None" if "t \<in> set (slot_tools slot)" for t
      using that unfolding names(2) by (auto simp: names(1) set_classify_advertised)
    then show ?thesis unfolding True [symmetric] using ok(3) by (intro covered_insert)
  next
    case False
    then have "slot \<in> set (bs_servers (ag_state a))" using slot by (auto dest: set_server_mut)
    then show ?thesis using False ok(3,4) by (simp add: covered_insert_other defs_cover_covered)
  qed
  ultimately show ?thesis
    using ok by (simp add: agg_ok_def respawned_def sm.ok_insert defs_cover_covered)
qed

lemma respawned_frame [simp]:
  "ag_manifest (respawned i child classified defs sp a) = ag_manifest a"
  "ag_confirmations (respawned i child classified defs sp a) = ag_confirmations a"
  "server (ag_state (respawned i child classified defs sp a)) j =
     (if j = i then map_option (set_tools classified) (server (ag_state a) i) else server (ag_state a) j)"
  by (simp_all add: respawned_def server_server_mut)

lemma spawner_ok: "agg_ok (a\<lparr>ag_spawner := sp\<rparr>) = agg_ok a"
  by (simp add: agg_ok_def)

interpretation start: lifecycle_op "start h" for h :: "('c, 's) host"
proof
  fix a :: "('c, 's) aggregator" and i j :: string
  show "agg_ok a \<Longrightarrow> agg_ok (snd (start h i a))"
    by (cases rule: start_cases [of a i h])
      (simp_all add: set_state_ok respawned_ok spawner_ok)
  show "ag_manifest (snd (start h i a)) = ag_manifest a"
    and "ag_confirmations (snd (start h i a)) = ag_confirmations a"
    and "map_option slot_elevation (server (ag_state (snd (start h i a))) i) =
         map_option slot_elevation (server (ag_state a) i)"
    by (cases rule: start_cases [of a i h];
        simp add: set_state_frame server_set_state option.map_comp o_def)+
  show "agg_ok a \<Longrightarrow> server (ag_state a) i = None \<Longrightarrow> start h i a = (Err (UnknownServer i), a)"
    by (rule start_unknown)
  show "server (ag_state (snd (start h i a))) j = server (ag_state a) j" if "j \<noteq> i"
    using that by (cases rule: start_cases [of a i h]) (simp_all add: server_set_state)
qed

section \<open>Confirmations\<close>

definition confirmation_key :: "string \<times> string \<Rightarrow> confirmation \<Rightarrow> bool" where
  "confirmation_key q c \<longleftrightarrow> cf_server c = fst q \<and> cf_tool c = snd q"

lemma confirmation_expired_older:
  "confirmation_expired c now = older_than confirmation_ttl_secs (cf_approved_at c) now"
  by (simp add: confirmation_expired_def older_than_def)

interpretation confirms: single_use confirmation_expired confirmation_for confirmation_key
    confirmations_retain "\<lambda>q now. take_first (confirmation_for q now)"
  by unfold_locales
    (auto simp: confirmations_retain_def confirmation_expired_older confirmation_for_def
      confirmation_key_def intro: older_than_mono)

text \<open>The number of confirmations outstanding for a tool, expired ones included.\<close>

definition outstanding :: "string \<times> string \<Rightarrow> ('c, 's) aggregator \<Rightarrow> nat" where
  "outstanding q a = size (filter_mset (confirmation_key q) (mset (ag_confirmations a)))"

lemma approve_outstanding:
  "outstanding q (approve_action sid tool now a) \<le> (if q = (sid, tool) then 1 else 0) + outstanding q a"
  using confirms.prune_count [of q now "ag_confirmations a"]
  by (cases q) (auto simp: outstanding_def approve_action_def confirmation_key_def)

section \<open>Calls\<close>

text \<open>What has to hold for a call to reach a child.\<close>

definition call_admitted ::
  "string \<Rightarrow> timestamp \<Rightarrow> ('c, 's) aggregator \<Rightarrow> string \<Rightarrow> string \<Rightarrow> server_slot \<Rightarrow> bool" where
  "call_admitted external now a sid tool slot \<longleftrightarrow>
     external = external_name sid tool \<and> namespace_sep \<notin> set sid
     \<and> server (ag_state a) sid = Some slot \<and> tool \<in> set (exposed slot now)"

definition reached :: "aggregator_error + json \<Rightarrow> bool" where
  "reached r \<longleftrightarrow> (case r of Inr v \<Rightarrow> True | Inl e \<Rightarrow> (\<exists>ce. e = AgChild ce))"

lemma reached_simps [simp]:
  "reached (Ok v)" "reached (Err (AgChild ce))" "\<not> reached (Err (InvalidServerId x))"
  "\<not> reached (Err (UnknownServer x))" "\<not> reached (Err (UnknownTool x))"
  "\<not> reached (Err (NotExposed x))" "\<not> reached (Err (NotConfirmed x))"
  by (simp_all add: reached_def)

definition needs_confirmation :: "server_slot \<Rightarrow> string \<Rightarrow> bool" where
  "needs_confirmation slot tool \<longleftrightarrow>
     is_some_and (map_option ct_class (find (\<lambda>t. ct_name t = tool) (slot_tools slot)))
       requires_per_action_presence"

text \<open>A call is refused without any effect, or goes to \<open>route\<close> with the gate passed.\<close>

lemma call_cases:
  obtains (refused) e where "call api external args now a = (Err e, a)" "\<not> reached (Err e)"
  | (plain) sid tool slot where "call_admitted external now a sid tool slot"
      "\<not> needs_confirmation slot tool" "call api external args now a = route api external sid tool args a"
  | (confirmed) sid tool slot c cs where "call_admitted external now a sid tool slot"
      "needs_confirmation slot tool"
      "take_first (confirmation_for (sid, tool) now) (ag_confirmations a) = Some (c, cs)"
      "call api external args now a = route api external sid tool args (a\<lparr>ag_confirmations := cs\<rparr>)"
proof (cases "split_once namespace_sep external")
  case None
  then show thesis by (intro refused [of "UnknownTool external"]) (simp_all add: call_def)
next
  case (Some p)
  then obtain sid tool where split: "split_once namespace_sep external = Some (sid, tool)"
    by (cases p) auto
  then have ext: "external = external_name sid tool" "namespace_sep \<notin> set sid"
    by (auto simp: split_once_Some external_name_def)
  show thesis
  proof (cases "server (ag_state a) sid")
    case None
    with split show thesis by (intro refused [of "UnknownTool external"]) (simp_all add: call_def)
  next
    case (Some slot)
    show thesis
    proof (cases "tool \<in> set (exposed slot now)")
      case False
      with split Some show thesis
        by (intro refused [of "NotExposed external"]) (simp_all add: call_def Let_def)
    next
      case True
      with ext Some have adm: "call_admitted external now a sid tool slot"
        by (simp add: call_admitted_def)
      show thesis
      proof (cases "needs_confirmation slot tool")
        case False
        with adm show thesis using split Some True
          by (intro plain) (simp_all add: call_def needs_confirmation_def Let_def)
      next
        case True
        note conf = this
        show thesis
        proof (cases "take_first (confirmation_for (sid, tool) now) (ag_confirmations a)")
          case None
          with conf adm split Some show thesis
            by (intro refused [of "NotConfirmed external"])
              (simp_all add: call_def needs_confirmation_def Let_def call_admitted_def)
        next
          case (Some x)
          with conf adm split show thesis
            by (cases x) (rule confirmed [of sid tool slot "fst x" "snd x"],
              simp_all add: call_def needs_confirmation_def Let_def call_admitted_def)
        qed
      qed
    qed
  qed
qed

lemma route_frame [agg_frames]:
  "ag_manifest (snd (route api external sid tool args a)) = ag_manifest a"
  "ag_confirmations (snd (route api external sid tool args a)) = ag_confirmations a"
  "ag_tool_defs (snd (route api external sid tool args a)) = ag_tool_defs a"
  "ag_spawner (snd (route api external sid tool args a)) = ag_spawner a"
  by (simp_all add: route_def Let_def split: option.split prod.split sum.split)

lemma close_slot_simps [simp]:
  "slot_id (close_slot s) = slot_id s" "slot_tools (close_slot s) = slot_tools s"
  "slot_state (close_slot s) = Stopped" "slot_elevation (close_slot s) = None"
  by (simp_all add: close_slot_def)

lemma route_state:
  "ag_state (snd (route api external sid tool args a)) = ag_state a
   \<or> (\<exists>ce. child_gone ce \<and> fst (route api external sid tool args a) = Err (AgChild ce)
        \<and> ag_state (snd (route api external sid tool args a)) = server_mut sid close_slot (ag_state a))"
  by (auto simp: route_def Let_def split: option.split prod.split sum.split)

lemma route_gone:
  "fst (route api external sid tool args a) = Err (AgChild ce) \<Longrightarrow> child_gone ce \<Longrightarrow>
     ag_state (snd (route api external sid tool args a)) = server_mut sid close_slot (ag_state a)"
  by (auto simp: route_def Let_def split: option.splits prod.splits sum.splits if_splits)

lemma agg_ok_route [inv_intros]:
  assumes "agg_ok a" shows "agg_ok (snd (route api external sid tool args a))"
proof -
  have ch: "agg_ok (b\<lparr>ag_children := sm_update sid f (ag_children b)\<rparr>) = agg_ok b" for b :: "('a, 'b) aggregator" and f
    by (simp add: agg_ok_def)
  have "agg_ok (a\<lparr>ag_state := server_mut sid close_slot (ag_state a)\<rparr>)"
    using assms by (rule agg_ok_state) simp_all
  then show ?thesis using assms ch
    by (simp add: route_def Let_def agg_ok_def split: option.split prod.split sum.split)
qed

lemma agg_ok_confirmations [simp]: "agg_ok (a\<lparr>ag_confirmations := cs\<rparr>) = agg_ok a"
  by (simp add: agg_ok_def)

lemma agg_ok_call [inv_intros]: "agg_ok a \<Longrightarrow> agg_ok (snd (call api external args now a))"
  by (cases rule: call_cases [of api external args now a]) (simp_all add: agg_ok_route)

lemma agg_ok_approve [inv_intros]: "agg_ok a \<Longrightarrow> agg_ok (approve_action sid tool now a)"
  by (simp add: approve_action_def)

text \<open>A call leaves the broker's slots alone, or closes one of them.\<close>

lemma call_state:
  "ag_state (snd (call api external args now a)) = ag_state a
   \<or> (\<exists>sid. ag_state (snd (call api external args now a)) = server_mut sid close_slot (ag_state a))"
proof (cases rule: call_cases [of api external args now a])
  case (plain sid tool slot)
  then show ?thesis using route_state [of api external sid tool args a] by auto
next
  case (confirmed sid tool slot c cs)
  then show ?thesis
    using route_state [of api external sid tool args "a\<lparr>ag_confirmations := cs\<rparr>"] by auto
qed simp

lemma call_frame [agg_frames]:
  "ag_manifest (snd (call api external args now a)) = ag_manifest a"
  "ag_tool_defs (snd (call api external args now a)) = ag_tool_defs a"
  by (cases rule: call_cases [of api external args now a]; simp add: route_frame)+

lemma external_name_inj:
  "namespace_sep \<notin> set i \<Longrightarrow> namespace_sep \<notin> set j \<Longrightarrow>
     external_name i t = external_name j u \<longleftrightarrow> i = j \<and> t = u"
  unfolding external_name_def
  by (metis append_Cons append_Nil option.inject prod.inject split_once_join)

text \<open>A call never adds a confirmation, and one that reaches a tool that needs it spends one.\<close>

lemma call_outstanding: "outstanding q (snd (call api external args now a)) \<le> outstanding q a"
proof (cases rule: call_cases [of api external args now a])
  case (confirmed sid tool slot c cs)
  have "mset (ag_confirmations a) = add_mset c (mset cs)"
    using confirms.spend_mset [of "(sid, tool)" now "ag_confirmations a"] confirmed by blast
  with confirmed show ?thesis by (simp add: outstanding_def route_frame)
qed (simp_all add: outstanding_def route_frame)

lemma call_spends:
  assumes "call api (external_name sid tool) args now a = (r, a')" and "reached r"
    and "namespace_sep \<notin> set sid" and "server (ag_state a) sid = Some slot"
    and "needs_confirmation slot tool"
  shows "outstanding (sid, tool) a = Suc (outstanding (sid, tool) a')
    \<and> (\<exists>c \<in> set (ag_confirmations a). confirmation_for (sid, tool) now c)"
proof (cases rule: call_cases [of api "external_name sid tool" args now a])
  case (refused e)
  with assms show ?thesis by simp
next
  case (plain sid' tool' slot')
  then have "sid' = sid" "tool' = tool" "slot' = slot"
    using assms by (auto simp: call_admitted_def external_name_inj)
  with plain assms show ?thesis by simp
next
  case (confirmed sid' tool' slot' c cs)
  then have [simp]: "sid' = sid" "tool' = tool"
    using assms by (auto simp: call_admitted_def external_name_inj)
  note take = confirmed(3) [simplified]
  have "a' = snd (route api (external_name sid tool) sid tool args (a\<lparr>ag_confirmations := cs\<rparr>))"
    using confirmed assms(1) by (metis \<open>sid' = sid\<close> \<open>tool' = tool\<close> snd_conv)
  then have "ag_confirmations a' = cs" by (simp add: route_frame)
  then show ?thesis
    using confirms.spend_count [OF take] confirms.spend_usable [OF take]
    by (auto simp: outstanding_def)
qed

text \<open>Reaching a child means the gate was passed.\<close>

lemma call_reached:
  assumes "call api external args now a = (r, a')" and "reached r \<or> ag_children a' \<noteq> ag_children a"
  shows "\<exists>sid tool slot. call_admitted external now a sid tool slot
    \<and> (needs_confirmation slot tool \<longrightarrow>
         (\<exists>c \<in> set (ag_confirmations a). confirmation_for (sid, tool) now c))"
proof (cases rule: call_cases [of api external args now a])
  case (refused e)
  with assms show ?thesis by simp
next
  case (plain sid tool slot)
  then show ?thesis by blast
next
  case (confirmed sid tool slot c cs)
  then show ?thesis using confirms.spend_usable [OF confirmed(3)] by blast
qed

text \<open>A fault of the child closes its server.\<close>

lemma call_fault:
  assumes "call api external args now a = (Err (AgChild ce), a')" and "child_gone ce"
  shows "\<exists>sid tool. external = external_name sid tool \<and> namespace_sep \<notin> set sid
    \<and> ag_state a' = server_mut sid close_slot (ag_state a) \<and> server (ag_state a) sid \<noteq> None"
proof (cases rule: call_cases [of api external args now a])
  case (refused e)
  with assms show ?thesis by auto
next
  case (plain sid tool slot)
  with assms route_gone [of api external sid tool args a ce] show ?thesis
    by (auto simp: call_admitted_def)
next
  case (confirmed sid tool slot c cs)
  with assms route_gone [of api external sid tool args "a\<lparr>ag_confirmations := cs\<rparr>" ce] show ?thesis
    by (auto simp: call_admitted_def)
qed

section \<open>Reaping\<close>

lemma reap_loop_keys: "reap_loop api cs b = (cs', b') \<Longrightarrow> map fst cs' = map fst cs"
  by (induction api cs b arbitrary: cs' b' rule: reap_loop.induct) (auto simp: Let_def split: prod.splits)

lemma reap_loop_server:
  assumes "reap_loop api cs b = (cs', b')" and "distinct (map fst cs)"
  shows "server b' i =
    (case map_of cs i of
       Some child \<Rightarrow> if fst (api_is_alive api child) then server b i else map_option close_slot (server b i)
     | None \<Rightarrow> server b i)"
  using assms
proof (induction api cs b arbitrary: cs' b' rule: reap_loop.induct)
  case (1 api b)
  then show ?case by simp
next
  case (2 api sid child cs b)
  obtain alive child' where al: "api_is_alive api child = (alive, child')" by force
  let ?b = "if alive then b else server_mut sid close_slot b"
  obtain cs1 b1 where rest: "reap_loop api cs ?b = (cs1, b1)" by force
  have b': "b' = b1" using "2.prems" al rest by (simp add: Let_def)
  have "server b1 i =
    (case map_of cs i of
       Some child \<Rightarrow> if fst (api_is_alive api child) then server ?b i else map_option close_slot (server ?b i)
     | None \<Rightarrow> server ?b i)"
    by (rule "2.IH" [OF al [symmetric] refl refl rest]) (use "2.prems" in auto)
  moreover have "map_of cs sid = None" using "2.prems" by (simp add: map_of_eq_None_iff)
  ultimately show ?case
    by (auto simp: b' al server_server_mut split: option.splits)
qed

lemma server_reap:
  assumes "sm_ok (ag_children a)"
  shows "server (ag_state (reap_exited_children api a)) i =
    (case sm_get (ag_children a) i of
       Some child \<Rightarrow> if fst (api_is_alive api child) then server (ag_state a) i
         else map_option close_slot (server (ag_state a) i)
     | None \<Rightarrow> server (ag_state a) i)"
proof -
  obtain cs b where l: "reap_loop api (ag_children a) (ag_state a) = (cs, b)" by force
  from reap_loop_server [OF this sm_ok_distinct [OF assms], of i]
  show ?thesis by (simp add: reap_exited_children_def l)
qed

section \<open>The listing\<close>

lemma sm_get_insert_same [simp]: "sm_get (sm_insert k v m) k = Some v"
  by (induction m) auto

lemma rename_def_name: "\<exists>m. d = JObj m \<Longrightarrow> jget (rename_def n d) ''name'' = Some (JStr n)"
  by auto

lemma set_aggregated_tools:
  "d \<in> set (aggregated_tools a now) \<longleftrightarrow>
     (\<exists>slot \<in> set (bs_servers (ag_state a)). \<exists>defs tool def.
        sm_get (ag_tool_defs a) (slot_id slot) = Some defs \<and> tool \<in> set (exposed slot now)
        \<and> sm_get defs tool = Some def \<and> d = rename_def (external_name (slot_id slot) tool) def)"
proof -
  have "d \<in> set (slot_listing td now slot) \<longleftrightarrow>
      (\<exists>defs tool def. sm_get td (slot_id slot) = Some defs \<and> tool \<in> set (exposed slot now)
        \<and> sm_get defs tool = Some def \<and> d = rename_def (external_name (slot_id slot) tool) def)" for td slot
    by (cases "sm_get td (slot_id slot)") (simp_all add: slot_listing_def set_map_filter Bex_def, metis)
  then show ?thesis by (simp add: aggregated_tools_def)
qed

text \<open>Every exposed tool is listed, under its external name.\<close>

lemma exposed_listed:
  assumes "agg_ok a" and "server (ag_state a) sid = Some slot" and "tool \<in> set (exposed slot now)"
  shows "\<exists>defs def. sm_get (ag_tool_defs a) sid = Some defs \<and> sm_get defs tool = Some def
    \<and> rename_def (external_name sid tool) def \<in> set (aggregated_tools a now)"
proof -
  from assms(2) have slot: "slot \<in> set (bs_servers (ag_state a))" "slot_id slot = sid"
    by (auto dest: server_SomeD)
  from assms(3) obtain t where "t \<in> set (slot_tools slot)" "ct_name t = tool"
    by (auto simp: set_exposed)
  with assms(1) slot obtain defs def where
    "sm_get (ag_tool_defs a) sid = Some defs" "sm_get defs tool = Some def"
    by (fastforce simp: agg_ok_def defs_cover_def)
  with slot assms(3) show ?thesis by (auto simp: set_aggregated_tools)
qed

end
