(* ===== verification/Endpoint.thy ===== *)
theory Endpoint
  imports Json Auth
begin

text \<open>
  \<open>crates/transport/src/endpoint.rs\<close>: the upward MCP endpoint. The notifier with its
  subscribers, the reader that frames notifications as server-sent events, and the handling
  of one HTTP request: authentication first, then the method. The HTTP library (sockets, header
  names) and the JSON text codec are arguments; the handler behind the endpoint is a state \<open>'h\<close>
  with the operation of the trait \<open>McpHandler\<close>.
\<close>

section \<open>Notifications\<close>

text \<open>
  The sending end of a channel: whether its receiver is still there (disconnecting is an event
  of the environment) and what was sent on it.
\<close>

record sender =
  tx_live :: bool
  tx_sent :: "string list"

type_synonym notifier = "sender list mutex"

definition notifier_new :: notifier where "notifier_new = mutex_new []"

definition subscribe :: "notifier \<Rightarrow> notifier" where
  "subscribe nt =
     (case lock nt of
        None \<Rightarrow> nt
      | Some subs \<Rightarrow> put nt (subs @ [\<lparr>tx_live = True, tx_sent = []\<rparr>]))"

text \<open>\<open>send\<close> fails when the receiver is gone; \<open>retain\<close> keeps the senders it succeeds on.\<close>

fun retain_send :: "string \<Rightarrow> sender list \<Rightarrow> sender list" where
  "retain_send message [] = []"
| "retain_send message (tx # txs) =
     (if tx_live tx then tx\<lparr>tx_sent := tx_sent tx @ [message]\<rparr> # retain_send message txs
      else retain_send message txs)"

definition notification :: "string \<Rightarrow> json \<Rightarrow> json" where
  "notification meth params =
     jobj [(''jsonrpc'', JStr ''2.0''), (''method'', JStr meth), (''params'', params)]"

definition notify :: "(json \<Rightarrow> string) \<Rightarrow> string \<Rightarrow> json \<Rightarrow> notifier \<Rightarrow> notifier" where
  "notify text meth params nt =
     (case lock nt of
        None \<Rightarrow> nt
      | Some subs \<Rightarrow> put nt (retain_send (text (notification meth params)) subs))"

definition notify_tools_list_changed :: "(json \<Rightarrow> string) \<Rightarrow> notifier \<Rightarrow> notifier" where
  "notify_tools_list_changed text nt = notify text ''notifications/tools/list_changed'' (jobj []) nt"

definition subscriber_count :: "notifier \<Rightarrow> nat" where
  "subscriber_count nt = (case lock nt of None \<Rightarrow> 0 | Some subs \<Rightarrow> length subs)"

definition debug_notifier :: "notifier \<Rightarrow> string" where
  "debug_notifier nt =
     (let count = (case lock nt of Some s \<Rightarrow> length s | None \<Rightarrow> 0)
      in debug_struct ''Notifier'' [(''subscribers'', dec count)])"

lemma retain_send_map: "retain_send m txs = map (tx_sent_update (\<lambda>s. s @ [m])) (filter tx_live txs)"
  by (induction txs) simp_all

section \<open>Server-sent events\<close>

definition keepalive_interval :: nat where "keepalive_interval = 15"

text \<open>What \<open>recv_timeout\<close> yields: a message, nothing within the interval, or the end of the channel.\<close>

datatype sse_event = Message string | Idle | Gone

record sse_reader =
  sse_buf :: string
  sse_pos :: nat
  sse_keepalive :: nat

definition blank_line :: string where "blank_line = [CHR 0x0A, CHR 0x0A]"

definition sse_with_keepalive :: "nat \<Rightarrow> sse_reader" where
  "sse_with_keepalive keepalive =
     \<lparr>sse_buf = '': connected'' @ blank_line, sse_pos = 0, sse_keepalive = keepalive\<rparr>"

definition sse_new :: sse_reader where
  "sse_new = sse_with_keepalive keepalive_interval"

text \<open>
  \<open>read\<close> into a buffer of \<open>n\<close> bytes. The channel's events are consumed only when the current
  frame is exhausted; no more events means that the senders are gone.
\<close>

fun sse_refill :: "sse_event list \<Rightarrow> sse_reader \<Rightarrow> (sse_event list \<times> sse_reader) option" where
  "sse_refill (Message m # evs) r =
     Some (evs, r\<lparr>sse_buf := ''data: '' @ m @ blank_line, sse_pos := 0\<rparr>)"
| "sse_refill (Idle # evs) r = Some (evs, r\<lparr>sse_buf := '': keepalive'' @ blank_line, sse_pos := 0\<rparr>)"
| "sse_refill (Gone # evs) r = None"
| "sse_refill [] r = None"

definition sse_copy :: "nat \<Rightarrow> sse_reader \<Rightarrow> string \<times> sse_reader" where
  "sse_copy out r =
     (let n = min out (length (sse_buf r) - sse_pos r)
      in (take n (drop (sse_pos r) (sse_buf r)), r\<lparr>sse_pos := sse_pos r + n\<rparr>))"

definition sse_read :: "nat \<Rightarrow> sse_event list \<Rightarrow> sse_reader \<Rightarrow> string \<times> sse_event list \<times> sse_reader" where
  "sse_read out evs r =
     (if length (sse_buf r) \<le> sse_pos r then
        (case sse_refill evs r of
           None \<Rightarrow> ([], evs, r)
         | Some (evs', r') \<Rightarrow> (let (bs, r'') = sse_copy out r' in (bs, evs', r'')))
      else (let (bs, r') = sse_copy out r in (bs, evs, r')))"

section \<open>Requests and responses\<close>

datatype http_method = Post | Get | OtherMethod string

record http_request =
  hq_method :: http_method
  hq_headers :: "(string \<times> string) list"
  hq_body :: string
  hq_body_end :: stream_end

datatype http_response =
    Response nat "(string \<times> string) list" string
  | EventStream nat "(string \<times> string) list" sse_reader

text \<open>
  The endpoint: where it listens, and what it authenticates and serves requests with. Opening the
  HTTP server fails, or gives the address it listens on when that is an IP socket.
\<close>

record 'h http_endpoint =
  he_local_addr :: string
  he_validator :: static_bearer
  he_handler :: 'h
  he_notifier :: notifier

definition endpoint_bind ::
  "(string \<Rightarrow> string + string option) \<Rightarrow> string \<Rightarrow> static_bearer \<Rightarrow> 'h \<Rightarrow> notifier \<Rightarrow>
     string + 'h http_endpoint" where
  "endpoint_bind open_http addr validator handler nt =
     (case open_http addr of
        Inl e \<Rightarrow> Err e
      | Inr server_addr \<Rightarrow>
          (case ok_or server_addr ''endpoint is not an IP socket'' of
             Inl e \<Rightarrow> Err e
           | Inr local_addr \<Rightarrow>
               Ok \<lparr>he_local_addr = local_addr, he_validator = validator, he_handler = handler,
                   he_notifier = nt\<rparr>))"

definition debug_http_endpoint :: "'h http_endpoint \<Rightarrow> string" where
  "debug_http_endpoint ep = debug_struct ''HttpEndpoint'' [(''local_addr'', he_local_addr ep)]"

definition max_body_bytes :: nat where "max_body_bytes = 4 * 1024 * 1024"

definition bearer_token :: "(string \<Rightarrow> string \<Rightarrow> bool) \<Rightarrow> http_request \<Rightarrow> string option" where
  "bearer_token header_is req =
     (case find (\<lambda>(field, val). header_is field ''Authorization'') (hq_headers req) of
        None \<Rightarrow> None
      | Some (field, val) \<Rightarrow>
          map_option trim
            (case strip_prefix ''Bearer '' val of
               Some t \<Rightarrow> Some t
             | None \<Rightarrow> strip_prefix ''bearer '' val))"

definition json_response :: "string \<Rightarrow> nat \<Rightarrow> http_response" where
  "json_response body status = Response status [(''Content-Type'', ''application/json'')] body"

definition rpc_error :: "json \<Rightarrow> int \<Rightarrow> string \<Rightarrow> json" where
  "rpc_error rid code message =
     jobj [(''jsonrpc'', JStr ''2.0''), (''id'', rid),
       (''error'', jobj [(''code'', JNum (NegInt code)), (''message'', JStr message)])]"

definition parse_error_body :: "(json \<Rightarrow> string) \<Rightarrow> string" where
  "parse_error_body text = text (rpc_error JNull (- 32700) ''parse error'')"

definition invalid_request_body :: "(json \<Rightarrow> string) \<Rightarrow> string" where
  "invalid_request_body text = text (rpc_error JNull (- 32600) ''invalid request'')"

definition internal_error_body :: "(json \<Rightarrow> string) \<Rightarrow> string" where
  "internal_error_body text = text (rpc_error JNull (- 32603) ''internal error'')"

text \<open>The JSON codec: \<open>from_str\<close>, \<open>to_string(&v)\<close> and the infallible \<open>v.to_string()\<close>.\<close>

record http_json =
  hj_parse :: "string \<Rightarrow> json option"
  hj_print :: "json \<Rightarrow> string option"
  hj_text :: "json \<Rightarrow> string"

type_synonym 'h mcp_handle = "json \<Rightarrow> validated_client \<Rightarrow> 'h \<Rightarrow> json \<times> 'h"

definition handle_post ::
  "http_json \<Rightarrow> 'h mcp_handle \<Rightarrow> http_request \<Rightarrow> validated_client \<Rightarrow> 'h \<Rightarrow> http_response \<times> 'h" where
  "handle_post hj handle req client h =
     (case read_to_string max_body_bytes (hq_body req) (hq_body_end req) of
        None \<Rightarrow> (json_response (parse_error_body (hj_text hj)) 400, h)
      | Some body \<Rightarrow>
          (case hj_parse hj body of
             None \<Rightarrow> (json_response (parse_error_body (hj_text hj)) 400, h)
           | Some parsed \<Rightarrow>
               if is_array parsed then (json_response (invalid_request_body (hj_text hj)) 400, h)
               else if jget parsed ''id'' = None then (Response 202 [] [], h)
               else
                 (case handle parsed client h of
                    (response, h') \<Rightarrow>
                      (json_response
                         (case hj_print hj response of
                            Some out \<Rightarrow> out
                          | None \<Rightarrow> internal_error_body (hj_text hj)) 200, h'))))"

definition handle_sse :: "notifier \<Rightarrow> http_response \<times> notifier" where
  "handle_sse nt =
     (EventStream 200 [(''Content-Type'', ''text/event-stream''), (''Cache-Control'', ''no-cache'')] sse_new,
      subscribe nt)"

definition unauthorized :: http_response where
  "unauthorized = Response 401 [(''WWW-Authenticate'', ''Bearer'')] ''unauthorized''"

definition handle_request ::
  "http_json \<Rightarrow> (string \<Rightarrow> string \<Rightarrow> bool) \<Rightarrow> (string option \<Rightarrow> auth_error + validated_client) \<Rightarrow>
     'h mcp_handle \<Rightarrow> http_request \<Rightarrow> 'h \<Rightarrow> notifier \<Rightarrow> http_response \<times> 'h \<times> notifier" where
  "handle_request hj header_is validate handle req h nt =
     (case validate (bearer_token header_is req) of
        Inl e \<Rightarrow> (unauthorized, h, nt)
      | Inr client \<Rightarrow>
          (case hq_method req of
             Post \<Rightarrow> (let (resp, h') = handle_post hj handle req client h in (resp, h', nt))
           | Get \<Rightarrow> (let (resp, nt') = handle_sse nt in (resp, h, nt'))
           | OtherMethod m \<Rightarrow> (Response 405 [] [], h, nt)))"

section \<open>The contract of a handler\<close>

text \<open>What the endpoint's client relies on: a response carries the id of its request.\<close>

definition request_id :: "json \<Rightarrow> json" where
  "request_id request = (case jget request ''id'' of Some i \<Rightarrow> i | None \<Rightarrow> JNull)"

locale mcp_handler =
  fixes handle :: "json \<Rightarrow> validated_client \<Rightarrow> 'h \<Rightarrow> json \<times> 'h"
  assumes same_id: "handle req client h = (resp, h') \<Longrightarrow> jget resp ''id'' = Some (request_id req)"
begin

text \<open>A POST is answered by a response with the request's own id, or does not reach the handler.\<close>

lemma post_same_id:
  "(\<exists>status headers body. handle_post hj handle req client h = (Response status headers body, h) \<and> status \<noteq> 200)
   \<or> (\<exists>body parsed i resp h'. read_to_string max_body_bytes (hq_body req) (hq_body_end req) = Some body
        \<and> hj_parse hj body = Some parsed \<and> jget parsed ''id'' = Some i
        \<and> handle parsed client h = (resp, h') \<and> jget resp ''id'' = Some i
        \<and> handle_post hj handle req client h =
            (json_response (case hj_print hj resp of Some out \<Rightarrow> out
               | None \<Rightarrow> internal_error_body (hj_text hj)) 200, h'))"
proof (cases "read_to_string max_body_bytes (hq_body req) (hq_body_end req)")
  case None
  then show ?thesis by (simp add: handle_post_def json_response_def)
next
  case (Some body)
  note body = this
  show ?thesis
  proof (cases "hj_parse hj body")
    case None
    with body show ?thesis by (simp add: handle_post_def json_response_def)
  next
    case (Some parsed)
    note parsed = this
    show ?thesis
    proof (cases "jget parsed ''id''")
      case None
      with body parsed show ?thesis by (simp add: handle_post_def json_response_def)
    next
      case (Some i)
      obtain resp h' where h: "handle parsed client h = (resp, h')" by force
      have "\<not> is_array parsed" using Some by (cases parsed) auto
      with body parsed Some h same_id [OF h] show ?thesis
        by (simp add: handle_post_def request_id_def)
    qed
  qed
qed

end

section \<open>Streaming\<close>

fun frame :: "sse_event \<Rightarrow> string" where
  "frame (Message m) = ''data: '' @ m @ blank_line"
| "frame Idle = '': keepalive'' @ blank_line"
| "frame Gone = []"

text \<open>The bytes of a stream that are still to be delivered; nothing follows the end of the channel.\<close>

fun frames :: "sse_event list \<Rightarrow> string" where
  "frames [] = []"
| "frames (Gone # evs) = []"
| "frames (ev # evs) = frame ev @ frames evs"

definition undelivered :: "sse_event list \<Rightarrow> sse_reader \<Rightarrow> string" where
  "undelivered evs r = drop (sse_pos r) (sse_buf r) @ frames evs"

text \<open>A sequence of reads into buffers of the given sizes.\<close>

fun sse_reads :: "nat list \<Rightarrow> sse_event list \<Rightarrow> sse_reader \<Rightarrow> string \<times> sse_event list \<times> sse_reader" where
  "sse_reads [] evs r = ([], evs, r)"
| "sse_reads (n # ns) evs r =
     (let (bs, evs', r') = sse_read n evs r; (bs', evs'', r'') = sse_reads ns evs' r'
      in (bs @ bs', evs'', r''))"

lemma sse_copy_undelivered:
  "sse_copy out r = (bs, r') \<Longrightarrow> undelivered evs r = bs @ undelivered evs r'"
proof -
  assume c: "sse_copy out r = (bs, r')"
  define n where "n = min out (length (sse_buf r) - sse_pos r)"
  have "drop (sse_pos r) (sse_buf r) =
      take n (drop (sse_pos r) (sse_buf r)) @ drop n (drop (sse_pos r) (sse_buf r))"
    by (rule append_take_drop_id [symmetric])
  moreover have "bs = take n (drop (sse_pos r) (sse_buf r))" "r' = r\<lparr>sse_pos := n + sse_pos r\<rparr>"
    using c by (simp_all add: sse_copy_def Let_def n_def add.commute)
  ultimately show ?thesis by (simp add: undelivered_def drop_drop)
qed

lemma sse_refill_undelivered:
  "length (sse_buf r) \<le> sse_pos r \<Longrightarrow> sse_refill evs r = Some (evs', r') \<Longrightarrow>
     undelivered evs r = undelivered evs' r'"
  by (cases "(evs, r)" rule: sse_refill.cases) (auto simp: undelivered_def)

lemma sse_read_undelivered:
  "sse_read out evs r = (bs, evs', r') \<Longrightarrow> undelivered evs r = bs @ undelivered evs' r'"
  by (auto simp: sse_read_def Let_def sse_copy_undelivered sse_refill_undelivered
      split: if_splits option.splits prod.splits)

text \<open>A read into a buffer with room delivers something, unless the stream has ended.\<close>

lemma sse_read_progress:
  "sse_read (Suc n) evs r = ([], evs', r') \<Longrightarrow> undelivered evs r = []"
  by (cases "(evs, r)" rule: sse_refill.cases)
    (auto simp: sse_read_def sse_copy_def Let_def undelivered_def blank_line_def split: if_splits)

section \<open>Properties\<close>

text \<open>C28: Without a credential its validator accepts, a request of any method is answered 401 with the
  same body, and neither the handler nor the subscribers change; the static bearer validator
  accepts exactly the configured token, presented after \<open>Bearer\<close> and trimmed.\<close>

theorem unauthenticated_rejected:
  assumes "bearer_new token cid = Some v"
  shows "handle_request hj header_is (validate_bearer v) handle req h nt =
    (if bearer_token header_is req \<noteq> Some token then (unauthorized, h, nt)
     else (case hq_method req of
             Post \<Rightarrow> (let (resp, h') = handle_post hj handle req (ValidatedClient cid) h in (resp, h', nt))
           | Get \<Rightarrow> (fst (handle_sse nt), h, subscribe nt)
           | OtherMethod m \<Rightarrow> (Response 405 [] [], h, nt)))"
proof (cases "bearer_token header_is req = Some token")
  case True
  then have "validate_bearer v (bearer_token header_is req) = Ok (ValidatedClient cid)"
    by (simp add: validate_bearer_ok [OF assms])
  with True show ?thesis by (simp add: handle_request_def handle_sse_def split: http_method.split)
next
  case False
  then have "validate_bearer v (bearer_token header_is req) \<noteq> Ok c" for c
    by (simp add: validate_bearer_ok [OF assms])
  then obtain e where "validate_bearer v (bearer_token header_is req) = Err e"
    by (cases "validate_bearer v (bearer_token header_is req)") auto
  with False show ?thesis by (simp add: handle_request_def)
qed

definition demo_bearer :: static_bearer where
  "demo_bearer = \<lparr>sb_expected = as_bytes ''k'', sb_client_id = ''c''\<rparr>"

definition demo_get :: http_request where
  "demo_get = \<lparr>hq_method = Get, hq_headers = [(''Authorization'', ''Basic k'')], hq_body = [], hq_body_end = Eof\<rparr>"

definition demo_http_json :: http_json where
  "demo_http_json = \<lparr>hj_parse = (\<lambda>s. None), hj_print = (\<lambda>v. None), hj_text = (\<lambda>v. [])\<rparr>"

theorem unauthenticated_rejected_witness:
  "handle_request demo_http_json (=) (validate_bearer demo_bearer) (\<lambda>req c h. (JNull, Suc h)) demo_get 0 notifier_new
     = (unauthorized, 0, notifier_new)"
proof -
  have "bearer_new ''k'' ''c'' = Some demo_bearer" by (simp add: bearer_new_def demo_bearer_def)
  moreover have "bearer_token (=) demo_get = None"
    by (simp add: bearer_token_def demo_get_def strip_prefix_def)
  ultimately show ?thesis
    using unauthenticated_rejected [of "''k''" "''c''" demo_bearer demo_http_json "(=)" _ demo_get] by simp
qed

text \<open>C35: An SSE stream loses, repeats and reorders nothing: whatever the sizes of the reads, the
  bytes delivered are a prefix of the connection comment followed by the frames of the
  channel's events, and the reader still holds exactly the rest.\<close>

theorem sse_stream_exact:
  assumes "sse_reads ns evs r = (bs, evs', r')"
  shows "undelivered evs r = bs @ undelivered evs' r'"
  using assms
proof (induction ns evs r arbitrary: bs evs' r' rule: sse_reads.induct)
  case (1 evs r)
  then show ?case by simp
next
  case (2 n ns evs r)
  obtain b1 e1 r1 where r1: "sse_read n evs r = (b1, e1, r1)" by (metis prod_cases3)
  obtain b2 e2 r2 where r2: "sse_reads ns e1 r1 = (b2, e2, r2)" by (metis prod_cases3)
  from "2.IH" [OF r1 [symmetric] refl refl r2] sse_read_undelivered [OF r1] "2.prems" r1 r2
  show ?case by simp
qed

theorem sse_stream_exact_witness:
  "\<exists>bs evs' r'. sse_reads [4, 20, 64, 3] [Message ''hi'', Idle] sse_new = (bs, evs', r')
     \<and> undelivered [Message ''hi'', Idle] sse_new = bs @ undelivered evs' r' \<and> bs \<noteq> []"
proof -
  obtain bs evs' r' where s: "sse_reads [4, 20, 64, 3] [Message ''hi'', Idle] sse_new = (bs, evs', r')"
    by (metis prod_cases3)
  moreover have "fst (sse_reads [4, 20, 64, 3] [Message ''hi'', Idle] sse_new) \<noteq> []"
    by (simp add: sse_new_def sse_with_keepalive_def sse_read_def sse_copy_def blank_line_def Let_def
        split: prod.split)
  ultimately show ?thesis using sse_stream_exact [OF s] by auto
qed

text \<open>A broadcast reaches every subscriber that is still connected, exactly once and after what was sent
  before, and removes exactly the disconnected ones, keeping the order.\<close>

lemma notify_delivers:
  "\<not> poisoned nt \<Longrightarrow> guarded (notify text meth params nt) =
     map (\<lambda>tx. tx\<lparr>tx_sent := tx_sent tx @ [text (notification meth params)]\<rparr>) (filter tx_live (guarded nt))"
  by (cases nt) (simp add: notify_def retain_send_map)

theorem notify_delivers_witness:
  "guarded (notify (\<lambda>v. ''m'') ''x'' JNull
      (mutex_new [\<lparr>tx_live = True, tx_sent = [''a'']\<rparr>, \<lparr>tx_live = False, tx_sent = []\<rparr>])) =
    [\<lparr>tx_live = True, tx_sent = [''a'', ''m'']\<rparr>]"
  by (subst notify_delivers) simp_all

end
