(* ===== verification/Control.thy ===== *)
theory Control
  imports Json
begin

text \<open>
  \<open>crates/transport/src/control.rs\<close>: the requests and responses of the control channel, the
  client's exchange, the server's handling of one connection and the path of the socket. The
  socket (what a peer's stream delivers, whether a call on it fails) and the derived JSON
  codec of the two types are arguments.
\<close>

section \<open>Requests and responses\<close>

datatype control_request =
    CStatus
  | CList
  | CLogs "nat option"
  | CStart string
  | CStop string
  | CPause string
  | CResume string
  | CRequestElevation string string string "u64 option"
  | CSubmitElevation string string string
  | CRequestConfirm string string string
  | CSubmitConfirm string string string
  | CRevoke string

record server_status =
  ss_id :: string
  ss_state :: string
  ss_exposed_tools :: nat
  ss_elevated :: bool

datatype control_response =
    RStatus "server_status list"
  | RList "string list"
  | RLogs "string list"
  | RNonce string
  | RDone string
  | RError string

record control_codec =
  print_request :: "control_request \<Rightarrow> string + string"
  parse_request :: "string \<Rightarrow> string + control_request"
  print_response :: "control_response \<Rightarrow> string + string"
  parse_response :: "string \<Rightarrow> string + control_response"

section \<open>The socket path\<close>

definition socket_env :: string where "socket_env = ''MCPLOCK_CONTROL_SOCK''"

text \<open>\<open>Path::join\<close> on Unix: an absolute path replaces, otherwise a separator is added if needed.\<close>

definition path_join :: "string \<Rightarrow> string \<Rightarrow> string" where
  "path_join base p =
     (if starts_with ''/'' p then p
      else if base = [] \<or> last base = CHR ''/'' then base @ p
      else base @ ''/'' @ p)"

definition socket_path :: "string smap \<Rightarrow> string \<Rightarrow> string" where
  "socket_path env temp_dir =
     (case sm_get env socket_env of
        Some p \<Rightarrow> p
      | None \<Rightarrow> path_join (path_join temp_dir ''mcp-lock'') ''control.sock'')"

section \<open>The server's side\<close>

type_synonym 'h control_handle = "control_request \<Rightarrow> 'h \<Rightarrow> control_response \<times> 'h"

text \<open>A connection: whether the stream can be cloned, and what the peer sends.\<close>

record connection =
  cn_clone :: bool
  cn_bytes :: string
  cn_end :: stream_end

text \<open>What is written back, \<open>None\<close> when the connection is dropped without a response.\<close>

definition serve_connection ::
  "control_codec \<Rightarrow> 'h control_handle \<Rightarrow> connection \<Rightarrow> 'h \<Rightarrow> string option \<times> 'h" where
  "serve_connection cd handle cn h =
     (if \<not> cn_clone cn then (None, h)
      else
        (case read_line (cn_bytes cn) (cn_end cn) of
           Inl e \<Rightarrow> (None, h)
         | Inr line \<Rightarrow>
             (let (response, h') =
                (case parse_request cd line of
                   Inr req \<Rightarrow> handle req h
                 | Inl e \<Rightarrow> (RError (''bad request: '' @ e), h))
              in
                (case print_response cd response of
                   Inr out \<Rightarrow> (Some (out @ [CHR 0x0A]), h')
                 | Inl e \<Rightarrow> (None, h')))))"

section \<open>The client's side\<close>

text \<open>
  One exchange: the line the client writes, then the reply. \<open>peer\<close> is the other side: a failed
  connect, or what it makes of the line: a failed write, or the bytes it sends back and how they
  end.
\<close>

definition client_request ::
  "control_codec \<Rightarrow> string + (string \<Rightarrow> string + string \<times> stream_end) \<Rightarrow> control_request \<Rightarrow>
     string + control_response" where
  "client_request cd peer req =
     (case peer of
        Inl e \<Rightarrow> Err e
      | Inr exchange \<Rightarrow>
          (case print_request cd req of
             Inl e \<Rightarrow> Err e
           | Inr line \<Rightarrow>
               (case exchange (line @ [CHR 0x0A]) of
                  Inl e \<Rightarrow> Err e
                | Inr (bytes, fin) \<Rightarrow>
                    (case read_line bytes fin of
                       Inl e \<Rightarrow> Err e
                     | Inr reply \<Rightarrow>
                         if reply = [] then
                           Err ''broker closed the control connection without a response''
                         else parse_response cd reply))))"

text \<open>The broker at the other end of the socket: it closes the stream after its answer.\<close>

definition broker_peer ::
  "control_codec \<Rightarrow> 'h control_handle \<Rightarrow> 'h \<Rightarrow> string + (string \<Rightarrow> string + string \<times> stream_end)" where
  "broker_peer cd handle h =
     Ok (\<lambda>line.
       (case serve_connection cd handle \<lparr>cn_clone = True, cn_bytes = line, cn_end = Eof\<rparr> h of
          (Some out, h') \<Rightarrow> Ok (out, Eof)
        | (None, h') \<Rightarrow> Ok ([], Eof)))"

section \<open>The codec's contract\<close>

text \<open>
  What \<open>serde_json\<close> documents of a derived codec, on the requests \<open>R\<close> and responses \<open>S\<close> that
  cross: what is printed is one line of UTF-8 and is parsed back.
\<close>

definition one_line :: "string \<Rightarrow> bool" where
  "one_line s \<longleftrightarrow> utf8_valid (s @ [CHR 0x0A]) \<and> CHR 0x0A \<notin> set s"

definition line_codec :: "('q \<Rightarrow> string + string) \<Rightarrow> (string \<Rightarrow> string + 'q) \<Rightarrow> 'q \<Rightarrow> bool" where
  "line_codec print_msg parse_msg msg \<longleftrightarrow>
     (case print_msg msg of Inl e \<Rightarrow> False
      | Inr s \<Rightarrow> one_line s \<and> parse_msg (s @ [CHR 0x0A]) = Ok msg)"

lemma line_codec_read_back:
  "line_codec print_msg parse_msg msg \<Longrightarrow>
     \<exists>s. print_msg msg = Ok s \<and> read_line (s @ [CHR 0x0A]) Eof = Ok (s @ [CHR 0x0A])
       \<and> parse_msg (s @ [CHR 0x0A]) = Ok msg"
  using split_once_join [of "CHR 0x0A" _ "[]"]
  by (auto simp: line_codec_def one_line_def read_line_def split: sum.splits)

lemma serve_connection_ok:
  assumes "line_codec (print_request cd) (parse_request cd) req"
    and "handle req h = (resp, h')" and "line_codec (print_response cd) (parse_response cd) resp"
  shows "\<exists>out line. print_request cd req = Ok line \<and> print_response cd resp = Ok out
    \<and> serve_connection cd handle \<lparr>cn_clone = True, cn_bytes = line @ [CHR 0x0A], cn_end = Eof\<rparr> h
        = (Some (out @ [CHR 0x0A]), h')"
  using line_codec_read_back [OF assms(1)] line_codec_read_back [OF assms(3)] assms(2)
  by (fastforce simp: serve_connection_def)

lemma exchange_returns:
  assumes "line_codec (print_request cd) (parse_request cd) req"
    and "handle req h = (resp, h')" and "line_codec (print_response cd) (parse_response cd) resp"
  shows "client_request cd (broker_peer cd handle h) req = Ok resp"
proof -
  from serve_connection_ok [where handle = handle, OF assms] obtain out line where
    o: "print_request cd req = Ok line" "print_response cd resp = Ok out"
    "serve_connection cd handle \<lparr>cn_clone = True, cn_bytes = line @ [CHR 0x0A], cn_end = Eof\<rparr> h
       = (Some (out @ [CHR 0x0A]), h')" by blast
  with line_codec_read_back [OF assms(3)] show ?thesis
    by (auto simp: client_request_def broker_peer_def)
qed

section \<open>Properties\<close>

text \<open>C34: Over a codec that prints one line and parses it back, the client's exchange with the broker
  returns exactly the response the handler gave to exactly the request sent.\<close>

theorem control_round_trip:
  assumes "line_codec (print_request cd) (parse_request cd) req"
    and "handle req h = (resp, h')" and "line_codec (print_response cd) (parse_response cd) resp"
  shows "client_request cd (broker_peer cd handle h) req = Ok resp"
  by (rule exchange_returns [where handle = handle, OF assms])

text \<open>A codec of two messages.\<close>

definition demo_codec :: control_codec where
  "demo_codec =
     \<lparr>print_request = (\<lambda>q. if q = CStatus then Ok ''s'' else Err ''?''),
      parse_request = (\<lambda>s. if s = ''s'' @ [CHR 0x0A] then Ok CStatus else Err ''?''),
      print_response = (\<lambda>r. if r = RDone ''k'' then Ok ''d'' else Err ''?''),
      parse_response = (\<lambda>s. if s = ''d'' @ [CHR 0x0A] then Ok (RDone ''k'') else Err ''?'')\<rparr>"

lemma demo_codec_lines:
  "line_codec (print_request demo_codec) (parse_request demo_codec) CStatus"
  "line_codec (print_response demo_codec) (parse_response demo_codec) (RDone ''k'')"
  by (simp_all add: line_codec_def demo_codec_def one_line_def utf8_ascii)

theorem control_round_trip_witness:
  "client_request demo_codec (broker_peer demo_codec (\<lambda>q n. (RDone ''k'', Suc n)) 0) CStatus = Ok (RDone ''k'')"
  by (rule control_round_trip [where handle = "\<lambda>q n. (RDone ''k'', Suc n)", OF demo_codec_lines(1) _ demo_codec_lines(2)]) simp

text \<open>A connection whose line is not a request never reaches the handler; its peer gets an error
  response or nothing.\<close>

lemma bad_request_unhandled:
  assumes "\<And>line req. read_line (cn_bytes cn) (cn_end cn) = Ok line \<Longrightarrow> parse_request cd line \<noteq> Ok req"
  shows "snd (serve_connection cd handle cn h) = h
    \<and> (case fst (serve_connection cd handle cn h) of
         None \<Rightarrow> True
       | Some out \<Rightarrow> \<exists>e s. print_response cd (RError (''bad request: '' @ e)) = Ok s \<and> out = s @ [CHR 0x0A])"
proof (cases "read_line (cn_bytes cn) (cn_end cn)")
  case (Inl e)
  then show ?thesis by (simp add: serve_connection_def)
next
  case (Inr line)
  then obtain e where "parse_request cd line = Err e"
    using assms [OF Inr] by (cases "parse_request cd line") auto
  with Inr show ?thesis by (auto simp: serve_connection_def split: sum.split)
qed

theorem bad_request_unhandled_witness:
  "snd (serve_connection demo_codec (\<lambda>q n. (RDone [], Suc n))
     \<lparr>cn_clone = True, cn_bytes = ''x'' @ [CHR 0x0A], cn_end = Eof\<rparr> 0) = 0"
proof -
  let ?cn = "\<lparr>cn_clone = True, cn_bytes = ''x'' @ [CHR 0x0A], cn_end = Eof\<rparr>"
  have "parse_request demo_codec line \<noteq> Ok req"
    if "read_line (cn_bytes ?cn) (cn_end ?cn) = Ok line" for line req
    using that by (auto simp: read_line_def demo_codec_def split: if_splits)
  from bad_request_unhandled [OF this, where handle = "\<lambda>q n. (RDone [], Suc n)"] show ?thesis by blast
qed

end
