(* ===== verification/ControlHandler.thy ===== *)
theory ControlHandler
  imports AggregatorFacts Elevation AuditLog Endpoint Control
begin

text \<open>
  \<open>crates/broker/src/control_handler.rs\<close>: the broker behind the control channel. Its state is
  what the two handlers share (aggregator, notifier, audit tape) and what is its own (nonces,
  client registry, log ring). Every method of the handler is a function from the state to the
  response and the new state; each critical section of a mutex is one update of what it
  guards. What a request reads from outside (the monotonic clock, the wall clock, random bytes,
  the outcome of the writes to the tape) is the record \<open>tick\<close>.
\<close>

section \<open>State\<close>

record ('k, 'c, 's) broker =
  bk_agg :: "('c, 's) aggregator mutex"
  bk_notifier :: notifier
  bk_nonces :: "nonce_store mutex"
  bk_registry :: "'k client_registry"
  bk_audit :: audit_log
  bk_log :: "string list mutex"

record ('k, 'c, 's) libs =
  lib_host :: "('c, 's) host"
  lib_crypto :: "'k crypto"
  lib_entry :: "u64 \<Rightarrow> audit_event \<Rightarrow> string option"
  lib_text :: "json \<Rightarrow> string"

record tick =
  tk_now :: timestamp
  tk_log_now :: timestamp
  tk_wall :: "u64 option"
  tk_random :: "u8 list option"
  tk_io :: "nat option \<times> nat option"

definition default_log_limit :: nat where "default_log_limit = 50"
definition max_log_entries :: nat where "max_log_entries = 500"

definition log_record :: "tick \<Rightarrow> string \<Rightarrow> ('k, 'c, 's) broker \<Rightarrow> ('k, 'c, 's) broker" where
  "log_record tk message b =
     (case lock (bk_log b) of
        None \<Rightarrow> b
      | Some entries \<Rightarrow>
          b\<lparr>bk_log := put (bk_log b)
              (push_capped max_log_entries entries
                (''[t+'' @ dec (unat (tk_log_now tk)) @ ''s] '' @ message))\<rparr>)"

definition tape_record ::
  "('k, 'c, 's) libs \<Rightarrow> tick \<Rightarrow> audit_event \<Rightarrow> ('k, 'c, 's) broker \<Rightarrow> ('k, 'c, 's) broker" where
  "tape_record lb tk ev b = b\<lparr>bk_audit := audit_record (lib_entry lb) (tk_wall tk) (tk_io tk) ev (bk_audit b)\<rparr>"

definition debug_control_handler :: "('k, 'c, 's) broker \<Rightarrow> string" where
  "debug_control_handler b = debug_struct ''BrokerControlHandler'' []"

definition handler_new ::
  "tick \<Rightarrow> ('c, 's) aggregator mutex \<Rightarrow> notifier \<Rightarrow> 'k client_registry \<Rightarrow> audit_log \<Rightarrow> ('k, 'c, 's) broker" where
  "handler_new tk agg nt reg audit =
     log_record tk ''broker control channel ready''
       \<lparr>bk_agg = agg, bk_notifier = nt, bk_nonces = mutex_new nonces_new, bk_registry = reg,
        bk_audit = audit, bk_log = mutex_new []\<rparr>"

definition err :: "string \<Rightarrow> control_response" where
  "err message = RError message"

definition internal_error :: control_response where
  "internal_error = RError ''internal error''"

definition reject :: "elevation_error \<Rightarrow> control_response" where
  "reject e = err (''verification rejected: '' @ elevation_error_text e)"

section \<open>Observation\<close>

fun state_name :: "server_state \<Rightarrow> string" where
  "state_name Running = ''running''"
| "state_name Paused = ''paused''"
| "state_name Stopped = ''stopped''"

definition status :: "tick \<Rightarrow> ('k, 'c, 's) broker \<Rightarrow> control_response" where
  "status tk b =
     (case lock (bk_agg b) of
        None \<Rightarrow> internal_error
      | Some agg \<Rightarrow>
          RStatus (map (\<lambda>slot.
            \<lparr>ss_id = slot_id slot, ss_state = state_name (slot_state slot),
             ss_exposed_tools = length (exposed slot (tk_now tk)),
             ss_elevated = (slot_elevation slot \<noteq> None)\<rparr>) (bs_servers (ag_state agg))))"

definition list_tool_names :: "tick \<Rightarrow> ('k, 'c, 's) broker \<Rightarrow> control_response" where
  "list_tool_names tk b =
     (case lock (bk_agg b) of
        None \<Rightarrow> internal_error
      | Some agg \<Rightarrow>
          RList (List.map_filter (\<lambda>t. Option.bind (jget t ''name'') as_str) (aggregated_tools agg (tk_now tk))))"

definition logs :: "nat option \<Rightarrow> ('k, 'c, 's) broker \<Rightarrow> control_response" where
  "logs limit b =
     (let n = (case limit of Some k \<Rightarrow> k | None \<Rightarrow> default_log_limit) in
      case lock (bk_log b) of
        None \<Rightarrow> internal_error
      | Some entries \<Rightarrow> RLogs (rev (take n (rev entries))))"

section \<open>Lifecycle\<close>

datatype lifecycle_cmd = LcStart | LcStop | LcPause | LcResume

fun verb :: "lifecycle_cmd \<Rightarrow> string" where
  "verb LcStart = ''start''"
| "verb LcStop = ''stop''"
| "verb LcPause = ''pause''"
| "verb LcResume = ''resume''"

fun run_lifecycle ::
  "('c, 's) host \<Rightarrow> lifecycle_cmd \<Rightarrow> string \<Rightarrow> ('c, 's) aggregator \<Rightarrow>
     (aggregator_error + unit) \<times> ('c, 's) aggregator" where
  "run_lifecycle h LcStart = start h"
| "run_lifecycle h LcStop = stop"
| "run_lifecycle h LcPause = pause"
| "run_lifecycle h LcResume = resume"

definition notify_if :: "('k, 'c, 's) libs \<Rightarrow> bool \<Rightarrow> ('k, 'c, 's) broker \<Rightarrow> ('k, 'c, 's) broker" where
  "notify_if lb changed b =
     (if changed then b\<lparr>bk_notifier := notify_tools_list_changed (lib_text lb) (bk_notifier b)\<rparr> else b)"

definition lifecycle ::
  "('k, 'c, 's) libs \<Rightarrow> tick \<Rightarrow> lifecycle_cmd \<Rightarrow> string \<Rightarrow> ('k, 'c, 's) broker \<Rightarrow>
     control_response \<times> ('k, 'c, 's) broker" where
  "lifecycle lb tk op sid b =
     (case lock (bk_agg b) of
        None \<Rightarrow> (internal_error, b)
      | Some agg \<Rightarrow>
          (let before = ag_exposure_snapshot agg (tk_now tk);
               (result, agg') = run_lifecycle (lib_host lb) op sid agg;
               changed = (is_ok result \<and> ag_exposure_snapshot agg' (tk_now tk) \<noteq> before);
               b' = b\<lparr>bk_agg := put (bk_agg b) agg'\<rparr>
           in
             (case result of
                Inr u \<Rightarrow>
                  (RDone (verb op @ '' '' @ sid @ '': ok''),
                   log_record tk (verb op @ '' '' @ sid) (notify_if lb changed b'))
              | Inl e \<Rightarrow>
                  (RError (aggregator_error_text e),
                   log_record tk (verb op @ '' '' @ sid @ '' failed: '' @ aggregator_error_text e) b'))))"

section \<open>Elevation and confirmation\<close>

definition issue_nonce ::
  "tick \<Rightarrow> string \<Rightarrow> purpose \<Rightarrow> ('k, 'c, 's) broker \<Rightarrow> control_response \<times> ('k, 'c, 's) broker" where
  "issue_nonce tk client p b =
     (case lock (bk_nonces b) of
        None \<Rightarrow> (internal_error, b)
      | Some st \<Rightarrow>
          (let (r, st') = issue st client p (tk_now tk) (tk_random tk) in
           ((case r of Inr n \<Rightarrow> RNonce (nonce_to_hex n) | Inl e \<Rightarrow> err (elevation_error_text e)),
            b\<lparr>bk_nonces := put (bk_nonces b) st'\<rparr>)))"

definition request_elevation ::
  "tick \<Rightarrow> string \<Rightarrow> string \<Rightarrow> string \<Rightarrow> u64 option \<Rightarrow> ('k, 'c, 's) broker \<Rightarrow>
     control_response \<times> ('k, 'c, 's) broker" where
  "request_elevation tk client sid m ttl_secs b =
     (if m = ''duration'' then
        (case ttl_secs of
           Some ttl \<Rightarrow> issue_nonce tk client (Elevate sid (ReqDuration ttl)) b
         | None \<Rightarrow> (err ''duration mode requires ttl_secs'', b))
      else if m = ''until_revoked'' then issue_nonce tk client (Elevate sid ReqUntilRevoked) b
      else (err ''mode must be \"duration\" or \"until_revoked\"'', b))"

definition request_confirm ::
  "tick \<Rightarrow> string \<Rightarrow> string \<Rightarrow> string \<Rightarrow> ('k, 'c, 's) broker \<Rightarrow> control_response \<times> ('k, 'c, 's) broker" where
  "request_confirm tk client sid tool b = issue_nonce tk client (ConfirmTool sid tool) b"

fun mode_text :: "elevation_mode \<Rightarrow> string" where
  "mode_text Duration = ''duration''"
| "mode_text UntilRevoked = ''until_revoked''"

text \<open>Grant and revoke: a slot is changed through \<open>state_mut().server_mut(id)\<close>.\<close>

definition change_slot ::
  "string \<Rightarrow> (server_slot \<Rightarrow> server_slot) \<Rightarrow> ('c, 's) aggregator \<Rightarrow> ('c, 's) aggregator" where
  "change_slot sid f agg = agg\<lparr>ag_state := server_mut sid f (ag_state agg)\<rparr>"

definition apply_elevation ::
  "('k, 'c, 's) libs \<Rightarrow> tick \<Rightarrow> string \<Rightarrow> string \<Rightarrow> elevation \<Rightarrow> ('k, 'c, 's) broker \<Rightarrow>
     control_response \<times> ('k, 'c, 's) broker" where
  "apply_elevation lb tk client sid e b =
     (let m = mode_text (mode e) in
      case lock (bk_agg b) of
        None \<Rightarrow> (internal_error, b)
      | Some agg \<Rightarrow>
          (let before = ag_exposure_snapshot agg (tk_now tk) in
           if server (ag_state agg) sid = None then (err (''unknown server: '' @ sid), b)
           else
             (let agg' = change_slot sid (grant_elevation e) agg;
                  changed = (ag_exposure_snapshot agg' (tk_now tk) \<noteq> before)
              in
                (RDone (''elevated '' @ sid @ '' ('' @ m @ '')''),
                 log_record tk (''elevation granted on '' @ sid @ '' ('' @ m @ '')'')
                   (tape_record lb tk (ElevationGranted sid client m)
                     (notify_if lb changed (b\<lparr>bk_agg := put (bk_agg b) agg'\<rparr>)))))))"

definition apply_confirm ::
  "('k, 'c, 's) libs \<Rightarrow> tick \<Rightarrow> string \<Rightarrow> string \<Rightarrow> ('k, 'c, 's) broker \<Rightarrow>
     control_response \<times> ('k, 'c, 's) broker" where
  "apply_confirm lb tk sid tool b =
     (case lock (bk_agg b) of
        None \<Rightarrow> (internal_error, b)
      | Some agg \<Rightarrow>
          (RDone (''confirmed '' @ sid @ ''.'' @ tool @ '' (single use)''),
           log_record tk (''confirm approved for '' @ sid @ ''.'' @ tool)
             (tape_record lb tk (ConfirmApproved sid tool)
               (b\<lparr>bk_agg := put (bk_agg b) (approve_action sid tool (tk_now tk) agg)\<rparr>))))"

definition submit ::
  "('k, 'c, 's) libs \<Rightarrow> tick \<Rightarrow> string \<Rightarrow> string \<Rightarrow> string \<Rightarrow> ('k, 'c, 's) broker \<Rightarrow>
     control_response \<times> ('k, 'c, 's) broker" where
  "submit lb tk client nonce_hex signature_hex b =
     (case nonce_from_hex nonce_hex of
        None \<Rightarrow> (err ''malformed nonce'', b)
      | Some n \<Rightarrow>
          (case decode_hex signature_hex of
             None \<Rightarrow> (err ''malformed signature'', b)
           | Some signature \<Rightarrow>
               (case lock (bk_nonces b) of
                  None \<Rightarrow> (internal_error, b)
                | Some st \<Rightarrow>
                    (let (verified, st') =
                       verify_and_consume (lib_crypto lb) st client n signature (bk_registry b) (tk_now tk);
                       b' = b\<lparr>bk_nonces := put (bk_nonces b) st'\<rparr>
                     in
                       (case verified of
                          Inr (VElevation sid e) \<Rightarrow> apply_elevation lb tk client sid e b'
                        | Inr (VConfirm sid tool) \<Rightarrow> apply_confirm lb tk sid tool b'
                        | Inl e \<Rightarrow>
                            (reject e,
                             log_record tk
                               (''verification rejected for '' @ client @ '': '' @ elevation_error_text e)
                               (tape_record lb tk
                                 (ElevationDenied ''(unknown)'' client (elevation_error_text e)) b')))))))"

definition revoke ::
  "('k, 'c, 's) libs \<Rightarrow> tick \<Rightarrow> string \<Rightarrow> ('k, 'c, 's) broker \<Rightarrow> control_response \<times> ('k, 'c, 's) broker" where
  "revoke lb tk sid b =
     (case lock (bk_agg b) of
        None \<Rightarrow> (internal_error, b)
      | Some agg \<Rightarrow>
          (let before = ag_exposure_snapshot agg (tk_now tk) in
           if server (ag_state agg) sid = None then (err (''unknown server: '' @ sid), b)
           else
             (let agg' = change_slot sid revoke_elevation agg;
                  changed = (ag_exposure_snapshot agg' (tk_now tk) \<noteq> before)
              in
                (RDone (''revoked '' @ sid),
                 log_record tk (''elevation revoked on '' @ sid)
                   (tape_record lb tk (ElevationRevoked sid ''operator'')
                     (notify_if lb changed (b\<lparr>bk_agg := put (bk_agg b) agg'\<rparr>)))))))"

section \<open>The handler\<close>

fun handle_control ::
  "('k, 'c, 's) libs \<Rightarrow> tick \<Rightarrow> control_request \<Rightarrow> ('k, 'c, 's) broker \<Rightarrow>
     control_response \<times> ('k, 'c, 's) broker" where
  "handle_control lb tk CStatus b = (status tk b, b)"
| "handle_control lb tk CList b = (list_tool_names tk b, b)"
| "handle_control lb tk (CLogs limit) b = (logs limit b, b)"
| "handle_control lb tk (CStart sid) b = lifecycle lb tk LcStart sid b"
| "handle_control lb tk (CStop sid) b = lifecycle lb tk LcStop sid b"
| "handle_control lb tk (CPause sid) b = lifecycle lb tk LcPause sid b"
| "handle_control lb tk (CResume sid) b = lifecycle lb tk LcResume sid b"
| "handle_control lb tk (CRequestElevation client sid m ttl) b = request_elevation tk client sid m ttl b"
| "handle_control lb tk (CSubmitElevation client n sig) b = submit lb tk client n sig b"
| "handle_control lb tk (CRequestConfirm client sid tool) b = request_confirm tk client sid tool b"
| "handle_control lb tk (CSubmitConfirm client n sig) b = submit lb tk client n sig b"
| "handle_control lb tk (CRevoke sid) b = revoke lb tk sid b"

end
