(* ===== verification/Cli.thy ===== *)
theory Cli
  imports ControlHandler
begin

text \<open>
  \<open>crates/cli/src/main.rs\<close>: the control client. Every command is a function of the arguments
  and the environment; the exchange with the broker is an argument \<open>send\<close> over a world \<open>'h\<close>, and
  the signature (Ed25519 from a 32-byte seed) and the printer of the challenge document are a
  record. A result is the exit code with the lines on standard output and standard error.
\<close>

section \<open>Results\<close>

record cli_result =
  cr_exit :: nat
  cr_out :: "string list"
  cr_err :: "string list"

definition cli_ok :: "string list \<Rightarrow> cli_result" where
  "cli_ok ls = \<lparr>cr_exit = 0, cr_out = ls, cr_err = []\<rparr>"

definition fail :: "string \<Rightarrow> cli_result" where
  "fail message = \<lparr>cr_exit = 1, cr_out = [], cr_err = [''mcp-lock: '' @ message]\<rparr>"

definition usage_error :: "string \<Rightarrow> cli_result" where
  "usage_error message =
     \<lparr>cr_exit = 2, cr_out = [],
      cr_err = [''mcp-lock: '' @ message, ''run `mcp-lock --help` for usage'']\<rparr>"

section \<open>The environment\<close>

definition client_env :: string where "client_env = ''MCPLOCK_CLIENT_ID''"
definition key_env :: string where "key_env = ''MCPLOCK_SIGNING_KEY''"
definition default_client :: string where "default_client = ''operator''"
definition default_ttl_secs :: u64 where "default_ttl_secs = 300"

record cli_env =
  ce_vars :: "string smap"
  ce_temp_dir :: string
  ce_lossy :: "string \<Rightarrow> string"

definition cli_var :: "cli_env \<Rightarrow> string \<Rightarrow> string option" where
  "cli_var env name =
     (case sm_get (ce_vars env) name of
        None \<Rightarrow> None
      | Some v \<Rightarrow> if utf8_valid v then Some v else None)"

record signer =
  sg_sign :: "u8 list \<Rightarrow> string \<Rightarrow> u8 list"
  sg_print_doc :: "doc \<Rightarrow> string option"

type_synonym 'h cli_send = "control_request \<Rightarrow> 'h \<Rightarrow> (string + control_response) \<times> 'h"

definition cli_decode_32 :: "string \<Rightarrow> u8 list option" where
  "cli_decode_32 hex = hex_array 32 hex"

definition load_identity :: "cli_env \<Rightarrow> string + string \<times> u8 list" where
  "load_identity env =
     (let client = (case cli_var env client_env of Some c \<Rightarrow> c | None \<Rightarrow> default_client) in
      case cli_var env key_env of
        None \<Rightarrow>
          Err (key_env @ '' is not set. Elevation needs a signing key; set '' @ key_env
            @ '' to a hex 32-byte seed (dev path). Presence-gated Keychain signing is a follow-up.'')
      | Some hex \<Rightarrow>
          (case cli_decode_32 hex of
             None \<Rightarrow> Err (key_env @ '' must be a 64-character hex (32-byte) seed'')
           | Some seed \<Rightarrow> Ok (client, seed)))"

definition cli_send_request ::
  "cli_env \<Rightarrow> 'h cli_send \<Rightarrow> control_request \<Rightarrow> 'h \<Rightarrow> (cli_result + control_response) \<times> 'h" where
  "cli_send_request env send req w =
     (case send req w of
        (Inr resp, w') \<Rightarrow> (Ok resp, w')
      | (Inl e, w') \<Rightarrow>
          (Err \<lparr>cr_exit = 1, cr_out = [],
             cr_err = [''mcp-lock: cannot reach broker at ''
                         @ display_path (ce_lossy env) (socket_path (ce_vars env) (ce_temp_dir env))
                         @ '' ('' @ e @ '')'',
                       ''is mcp-lockd running? (set MCPLOCK_CONTROL_SOCK to override the path)'']\<rparr>, w'))"

section \<open>Output\<close>

text \<open>\<open>{:<n}\<close> pads to \<open>n\<close> characters; a continuation byte is not one.\<close>

definition pad_right :: "nat \<Rightarrow> string \<Rightarrow> string" where
  "pad_right n s = s @ replicate (n - length (filter (\<lambda>c. \<not> continuation c) s)) (CHR '' '')"

definition status_line :: "server_status \<Rightarrow> string" where
  "status_line s =
     pad_right 16 (ss_id s) @ '' '' @ pad_right 8 (ss_state s) @ '' '' @ dec (ss_exposed_tools s)
       @ '' tool(s) exposed'' @ (if ss_elevated s then '' (elevated)'' else [])"

fun cli_print :: "control_response \<Rightarrow> cli_result" where
  "cli_print (RStatus servers) =
     cli_ok ((if servers = [] then [''(no servers)''] else []) @ map status_line servers)"
| "cli_print (RList tools) = cli_ok ((if tools = [] then [''(no tools exposed)''] else []) @ tools)"
| "cli_print (RLogs entries) = cli_ok entries"
| "cli_print (RNonce n) = fail ''unexpected nonce response''"
| "cli_print (RDone message) = cli_ok [message]"
| "cli_print (RError message) = fail message"

section \<open>Commands\<close>

definition backquoted :: "string \<Rightarrow> string" where "backquoted s = ''`'' @ s @ ''`''"

definition simple_id :: "string \<Rightarrow> string list \<Rightarrow> (string \<Rightarrow> control_request) \<Rightarrow> string + control_request" where
  "simple_id command args req =
     (case args of
        a # sid # rest \<Rightarrow> Ok (req sid)
      | _ \<Rightarrow> Err (backquoted command @ '' requires a server id''))"

definition parse_simple :: "string list \<Rightarrow> string + control_request" where
  "parse_simple args =
     (let command = hd args in
      if command = ''status'' then Ok CStatus
      else if command = ''list'' then Ok CList
      else if command = ''logs'' then
        (case args of
           a # n # rest \<Rightarrow>
             (case parse_uint 10 (2 ^ 64) n of
                Some k \<Rightarrow> Ok (CLogs (Some k))
              | None \<Rightarrow> Err ''logs <N>: N must be a number'')
         | _ \<Rightarrow> Ok (CLogs None))
      else if command = ''start'' then simple_id command args CStart
      else if command = ''stop'' then simple_id command args CStop
      else if command = ''pause'' then simple_id command args CPause
      else if command = ''resume'' then simple_id command args CResume
      else if command = ''revoke'' then simple_id command args CRevoke
      else Err (''unknown command '' @ quoted command))"

text \<open>The loop over the flags, with its two variables.\<close>

fun mode_loop :: "u64 \<Rightarrow> bool \<Rightarrow> string list \<Rightarrow> string + u64 \<times> bool" where
  "mode_loop ttl until [] = Ok (ttl, until)"
| "mode_loop ttl until (f # fs) =
     (if f = ''--until-revoked'' then mode_loop ttl True fs
      else if f = ''--ttl'' then
        (case fs of
           [] \<Rightarrow> Err ''--ttl requires a number of seconds''
         | v # fs' \<Rightarrow>
             (case parse_uint 10 (2 ^ 64) v of
                None \<Rightarrow> Err ''--ttl must be a number''
              | Some n \<Rightarrow> mode_loop (of_nat n) until fs'))
      else Err (''unknown flag '' @ quoted f))"

definition parse_mode :: "string list \<Rightarrow> string + requested_mode" where
  "parse_mode flags =
     (case mode_loop default_ttl_secs False flags of
        Inl e \<Rightarrow> Err e
      | Inr (ttl, until) \<Rightarrow>
          if until then Ok ReqUntilRevoked else Ok (ReqDuration ttl))"

definition submit_signed ::
  "cli_env \<Rightarrow> signer \<Rightarrow> 'h cli_send \<Rightarrow> u8 list \<Rightarrow> string \<Rightarrow> control_request \<Rightarrow> purpose \<Rightarrow> 'h \<Rightarrow>
     cli_result \<times> 'h" where
  "submit_signed env sg send seed client request_nonce p w =
     (let is_confirm = (case p of ConfirmTool sid tool \<Rightarrow> True | Elevate sid m \<Rightarrow> False) in
      case cli_send_request env send request_nonce w of
        (Inl code, w1) \<Rightarrow> (code, w1)
      | (Inr (RNonce nonce_hex), w1) \<Rightarrow>
          (case nonce_from_hex nonce_hex of
             None \<Rightarrow> (fail ''broker returned a malformed nonce'', w1)
           | Some n \<Rightarrow>
               (let message = challenge_message (sg_print_doc sg) n client p;
                    sig_hex = to_hex (sg_sign sg seed message);
                    submission =
                      (if is_confirm then CSubmitConfirm client nonce_hex sig_hex
                       else CSubmitElevation client nonce_hex sig_hex)
                in
                  (case cli_send_request env send submission w1 of
                     (Inr resp, w2) \<Rightarrow> (cli_print resp, w2)
                   | (Inl code, w2) \<Rightarrow> (code, w2))))
      | (Inr (RError message), w1) \<Rightarrow> (fail message, w1)
      | (Inr r, w1) \<Rightarrow> (fail ''unexpected response to nonce request'', w1))"

definition cli_simple :: "cli_env \<Rightarrow> 'h cli_send \<Rightarrow> string list \<Rightarrow> 'h \<Rightarrow> cli_result \<times> 'h" where
  "cli_simple env send args w =
     (case parse_simple args of
        Inl message \<Rightarrow> (usage_error message, w)
      | Inr req \<Rightarrow>
          (case cli_send_request env send req w of
             (Inr resp, w') \<Rightarrow> (cli_print resp, w')
           | (Inl code, w') \<Rightarrow> (code, w')))"

definition elevate ::
  "cli_env \<Rightarrow> signer \<Rightarrow> 'h cli_send \<Rightarrow> string list \<Rightarrow> 'h \<Rightarrow> cli_result \<times> 'h" where
  "elevate env sg send args w =
     (case args of
        a # sid # flags \<Rightarrow>
          (case parse_mode flags of
             Inl message \<Rightarrow> (usage_error message, w)
           | Inr m \<Rightarrow>
               (case load_identity env of
                  Inl message \<Rightarrow> (usage_error message, w)
                | Inr (client, seed) \<Rightarrow>
                    (let (mode_str, ttl) =
                       (case m of
                          ReqDuration ttl_secs \<Rightarrow> (''duration'', Some ttl_secs)
                        | ReqUntilRevoked \<Rightarrow> (''until_revoked'', None))
                     in submit_signed env sg send seed client
                          (CRequestElevation client sid mode_str ttl) (Elevate sid m) w)))
      | _ \<Rightarrow> (usage_error (backquoted ''elevate'' @ '' requires a server id''), w))"

definition confirm ::
  "cli_env \<Rightarrow> signer \<Rightarrow> 'h cli_send \<Rightarrow> string list \<Rightarrow> 'h \<Rightarrow> cli_result \<times> 'h" where
  "confirm env sg send args w =
     (case args of
        a # sid # tool # rest \<Rightarrow>
          (case load_identity env of
             Inl message \<Rightarrow> (usage_error message, w)
           | Inr (client, seed) \<Rightarrow>
               submit_signed env sg send seed client (CRequestConfirm client sid tool)
                 (ConfirmTool sid tool) w)
      | _ \<Rightarrow> (usage_error (backquoted ''confirm'' @ '' requires a server id and a tool name''), w))"

definition cli_run ::
  "cli_env \<Rightarrow> signer \<Rightarrow> 'h cli_send \<Rightarrow> string list \<Rightarrow> 'h \<Rightarrow> cli_result \<times> 'h" where
  "cli_run env sg send args w =
     (if hd args = ''elevate'' then elevate env sg send args w
      else if hd args = ''confirm'' then confirm env sg send args w
      else cli_simple env send args w)"

text \<open>On a platform without Unix sockets every command fails.\<close>

definition cli_run_elsewhere :: "string list \<Rightarrow> cli_result" where
  "cli_run_elsewhere args = fail ''the control channel is only available on Unix platforms''"

definition cli_help :: "string \<Rightarrow> string list" where
  "cli_help version =
     [''mcp-lock '' @ version @ '' '' @ em_dash @ '' MCP-Lock control client'', [], ''USAGE:'',
      ''    mcp-lock <COMMAND>'', [], ''OBSERVE:'',
      ''    status            Show supervised servers and exposure'',
      ''    list              List currently exposed tools'',
      ''    logs [N]          Show the last N broker log lines (default 50)'', [],
      ''LIFECYCLE (no presence required):'',
      ''    start <id>        Start (or restart) a server, read-only'',
      ''    stop <id>         Stop a server'',
      ''    pause <id>        Pause a server (instant resume)'',
      ''    resume <id>       Resume a paused server'', [],
      ''ELEVATION (presence-gated; signs a broker-issued challenge):'',
      ''    elevate <id> [--ttl <secs> | --until-revoked]   Grant write access'',
      ''    confirm <id> <tool>                             Approve one confirm-tool action'',
      ''    revoke  <id>                                    Revoke write access'', [],
      ''FLAGS:'',
      ''    -h, --help        Print this help'',
      ''    -V, --version     Print version'', [],
      ''Connects via $MCPLOCK_CONTROL_SOCK. Elevation signs with'',
      ''$MCPLOCK_SIGNING_KEY (hex 32-byte seed; dev path) as $MCPLOCK_CLIENT_ID'',
      ''(default '' @ quoted ''operator'' @ ''). Keychain/Secure-Enclave signing is a follow-up.'']"

definition cli_main ::
  "string \<Rightarrow> cli_env \<Rightarrow> signer \<Rightarrow> 'h cli_send \<Rightarrow> string list \<Rightarrow> 'h \<Rightarrow> cli_result \<times> 'h" where
  "cli_main version env sg send args w =
     (case args of
        [] \<Rightarrow> (cli_ok (cli_help version), w)
      | a # rest \<Rightarrow>
          if a = ''--version'' \<or> a = ''-V'' then (cli_ok [''mcp-lock '' @ version], w)
          else if a = ''--help'' \<or> a = ''-h'' then (cli_ok (cli_help version), w)
          else cli_run env sg send args w)"

end
