(* ===== verification/McpHandler.thy ===== *)
theory McpHandler
  imports ControlHandler
begin

text \<open>
  \<open>crates/broker/src/handler.rs\<close>: the broker behind the MCP endpoint. It shares the aggregator
  and the audit tape with the control handler, so its state is the same record. The version
  of the crate is an argument.
\<close>

definition mcp_protocol_version :: string where "mcp_protocol_version = ''2024-11-05''"

text \<open>
  What the handler holds. Both fields are shared (\<open>Arc\<close>) with the control handler, so in the
  running broker they are the two components \<open>mcp_view\<close> of its state; the clock is the \<open>tick\<close>.
\<close>

record ('c, 's) mcp_state =
  ms_agg :: "('c, 's) aggregator mutex"
  ms_audit :: audit_log

definition mcp_state_new :: "('c, 's) aggregator mutex \<Rightarrow> audit_log \<Rightarrow> ('c, 's) mcp_state" where
  "mcp_state_new agg audit = \<lparr>ms_agg = agg, ms_audit = audit\<rparr>"

definition debug_mcp_handler :: "('c, 's) mcp_state \<Rightarrow> string" where
  "debug_mcp_handler h = debug_struct ''BrokerMcpHandler'' []"

definition mcp_view :: "('k, 'c, 's) broker \<Rightarrow> ('c, 's) mcp_state" where
  "mcp_view b = mcp_state_new (bk_agg b) (bk_audit b)"

definition success :: "json \<Rightarrow> json \<Rightarrow> json" where
  "success rid result = jobj [(''jsonrpc'', JStr ''2.0''), (''id'', rid), (''result'', result)]"

definition mcp_error :: "json \<Rightarrow> int \<Rightarrow> string \<Rightarrow> json" where
  "mcp_error rid code message =
     jobj [(''jsonrpc'', JStr ''2.0''), (''id'', rid),
       (''error'', jobj [(''code'', JNum (NegInt code)), (''message'', JStr message)])]"

definition mcp_internal_error :: "json \<Rightarrow> json" where
  "mcp_internal_error rid = mcp_error rid (- 32603) ''internal error''"

definition tool_error_result :: "string \<Rightarrow> json" where
  "tool_error_result message =
     jobj [(''content'', JArr [jobj [(''type'', JStr ''text''), (''text'', JStr message)]]),
       (''isError'', JBool True)]"

definition initialize_result :: "string \<Rightarrow> json" where
  "initialize_result version =
     jobj [(''protocolVersion'', JStr mcp_protocol_version),
       (''capabilities'', jobj [(''tools'', jobj [(''listChanged'', JBool True)])]),
       (''serverInfo'', jobj [(''name'', JStr ''mcp-lockd''), (''version'', JStr version)])]"

definition handle_tools_list :: "tick \<Rightarrow> json \<Rightarrow> ('k, 'c, 's) broker \<Rightarrow> json" where
  "handle_tools_list tk rid b =
     (case lock (bk_agg b) of
        Some agg \<Rightarrow> success rid (jobj [(''tools'', JArr (aggregated_tools agg (tk_now tk)))])
      | None \<Rightarrow> mcp_internal_error rid)"

text \<open>The arguments of \<open>tools/call\<close>: its name and its arguments, or the message of the error.\<close>

definition call_params :: "json option \<Rightarrow> string + string \<times> json" where
  "call_params params =
     (case Option.bind params as_object of
        None \<Rightarrow> Err ''tools/call requires a params object''
      | Some m \<Rightarrow>
          (case Option.bind (sm_get m ''name'') as_str of
             None \<Rightarrow> Err ''tools/call requires a string `name`''
           | Some name \<Rightarrow> Ok (name, case sm_get m ''arguments'' of Some v \<Rightarrow> v | None \<Rightarrow> jobj [])))"

text \<open>The class of an external name, looked up before the call.\<close>

definition named_class :: "string \<Rightarrow> ('c, 's) aggregator \<Rightarrow> tool_class option" where
  "named_class name agg =
     (case split_once CHR ''.'' name of
        None \<Rightarrow> None
      | Some (sid, tool) \<Rightarrow> tool_class_of agg sid tool)"

text \<open>An audit event about the server and tool that a name splits into.\<close>

definition tape_named ::
  "('k, 'c, 's) libs \<Rightarrow> tick \<Rightarrow> (string \<Rightarrow> string \<Rightarrow> audit_event) \<Rightarrow> string \<Rightarrow> ('k, 'c, 's) broker \<Rightarrow>
     ('k, 'c, 's) broker" where
  "tape_named lb tk ev name b =
     (case split_once CHR ''.'' name of
        None \<Rightarrow> b
      | Some (sid, tool) \<Rightarrow> tape_record lb tk (ev sid tool) b)"

fun is_not_confirmed :: "aggregator_error \<Rightarrow> bool" where
  "is_not_confirmed (NotConfirmed name) = True"
| "is_not_confirmed _ = False"

definition handle_tools_call ::
  "('k, 'c, 's) libs \<Rightarrow> tick \<Rightarrow> json \<Rightarrow> json option \<Rightarrow> ('k, 'c, 's) broker \<Rightarrow> json \<times> ('k, 'c, 's) broker" where
  "handle_tools_call lb tk rid params b =
     (case call_params params of
        Inl message \<Rightarrow> (mcp_error rid (- 32602) message, b)
      | Inr (name, arguments) \<Rightarrow>
          (case lock (bk_agg b) of
             None \<Rightarrow> (mcp_internal_error rid, b)
           | Some agg \<Rightarrow>
               (let cls = named_class name agg;
                    (result, agg') = call (host_api (lib_host lb)) name arguments (tk_now tk) agg;
                    b' = b\<lparr>bk_agg := put (bk_agg b) agg'\<rparr>
                in
                  (case result of
                     Inr v \<Rightarrow>
                       (success rid v,
                        if is_some_and cls requires_elevation then tape_named lb tk WriteToolInvoked name b'
                        else b')
                   | Inl e \<Rightarrow>
                       (success rid (tool_error_result (aggregator_error_text e)),
                        if is_not_confirmed e then tape_named lb tk ConfirmRejected name b' else b')))))"

definition handle_mcp ::
  "('k, 'c, 's) libs \<Rightarrow> string \<Rightarrow> tick \<Rightarrow> json \<Rightarrow> validated_client \<Rightarrow> ('k, 'c, 's) broker \<Rightarrow>
     json \<times> ('k, 'c, 's) broker" where
  "handle_mcp lb version tk req client b =
     (let rid = (case jget req ''id'' of Some i \<Rightarrow> i | None \<Rightarrow> JNull);
          meth = (case Option.bind (jget req ''method'') as_str of Some m \<Rightarrow> m | None \<Rightarrow> [])
      in
        if meth = ''initialize'' then (success rid (initialize_result version), b)
        else if meth = ''ping'' then (success rid (jobj []), b)
        else if meth = ''tools/list'' then (handle_tools_list tk rid b, b)
        else if meth = ''tools/call'' then handle_tools_call lb tk rid (jget req ''params'') b
        else (mcp_error rid (- 32601) (''method not found: '' @ meth), b))"

lemma response_ids [simp]:
  "jget (success rid v) ''id'' = Some rid" "jget (mcp_error rid c m) ''id'' = Some rid"
  "jget (mcp_internal_error rid) ''id'' = Some rid"
  by (simp_all add: success_def mcp_error_def mcp_internal_error_def jget_jobj)

interpretation mcp: mcp_handler "handle_mcp lb version tk" for lb version tk
proof
  fix req client b resp b'
  assume h: "handle_mcp lb version tk req client b = (resp, b')"
  have call: "jget (fst (handle_tools_call lb tk rid params b)) ''id'' = Some rid" for rid params
    by (auto simp: handle_tools_call_def Let_def split: sum.split prod.split option.split)
  have list: "jget (handle_tools_list tk rid b) ''id'' = Some rid" for rid
    by (simp add: handle_tools_list_def split: option.split)
  show "jget resp ''id'' = Some (request_id req)"
    using h call [of "request_id req" "jget req ''params''"] list
    by (auto simp: handle_mcp_def request_id_def Let_def split: if_splits)
qed

section \<open>The type of a response\<close>

text \<open>
  A JSON-RPC 2.0 response object: the version, the id of the request and exactly one of a result
  and an error, which has one of the handler's codes and a text; no other member.
\<close>

definition rpc_error_object :: "json \<Rightarrow> bool" where
  "rpc_error_object e \<longleftrightarrow>
     (\<exists>code message. jget e ''code'' = Some (JNum (NegInt code)) \<and> jget e ''message'' = Some (JStr message)
        \<and> code \<in> {- 32601, - 32602, - 32603})"

definition rpc_response :: "json \<Rightarrow> (json \<Rightarrow> bool) \<Rightarrow> json \<Rightarrow> bool" where
  "rpc_response rid result_type v \<longleftrightarrow>
     (\<forall>k. jget v k \<noteq> None \<longrightarrow> k \<in> {''jsonrpc'', ''id'', ''result'', ''error''})
     \<and> jget v ''jsonrpc'' = Some (JStr ''2.0'') \<and> jget v ''id'' = Some rid
     \<and> (case jget v ''result'' of
          Some r \<Rightarrow> jget v ''error'' = None \<and> result_type r
        | None \<Rightarrow> (case jget v ''error'' of Some e \<Rightarrow> rpc_error_object e | None \<Rightarrow> False))"

text \<open>The result each method promises; a tool's own result is the child's.\<close>

definition result_type :: "string \<Rightarrow> json \<Rightarrow> bool" where
  "result_type meth r \<longleftrightarrow>
     (meth = ''initialize'' \<longrightarrow> jget r ''protocolVersion'' = Some (JStr ''2024-11-05'')
        \<and> jget r ''capabilities'' \<noteq> None \<and> jget r ''serverInfo'' \<noteq> None)
     \<and> (meth = ''ping'' \<longrightarrow> r = jobj [])
     \<and> (meth = ''tools/list'' \<longrightarrow> (\<exists>tools. jget r ''tools'' = Some (JArr tools)))"

lemma success_typed: "ty r \<Longrightarrow> rpc_response rid ty (success rid r)"
  by (simp add: rpc_response_def success_def jget_jobj)

lemma mcp_error_typed: "code \<in> {- 32601, - 32602, - 32603} \<Longrightarrow> rpc_response rid ty (mcp_error rid code message)"
  by (simp add: rpc_response_def rpc_error_object_def mcp_error_def jget_jobj)

definition request_method :: "json \<Rightarrow> string" where
  "request_method req = (case Option.bind (jget req ''method'') as_str of Some m \<Rightarrow> m | None \<Rightarrow> [])"

end
