(* ===== verification/BrokerSystem.thy ===== *)
theory BrokerSystem
  imports McpHandler
begin

text \<open>
  The broker as a transition system: the control channel, the MCP endpoint and its subscribers
  act on the shared state one request at a time, at instants of a monotonic clock. Every
  request is a step labelled with what was asked and answered; a run is a sequence of steps.
\<close>

section \<open>What each operation leaves untouched\<close>

abbreviation agg_of :: "('k, 'c, 's) broker \<Rightarrow> ('c, 's) aggregator" where
  "agg_of b \<equiv> guarded (bk_agg b)"

abbreviation slots_of :: "('k, 'c, 's) broker \<Rightarrow> broker_state" where
  "slots_of b \<equiv> ag_state (agg_of b)"

abbreviation nonces_of :: "('k, 'c, 's) broker \<Rightarrow> nonce_store" where
  "nonces_of b \<equiv> guarded (bk_nonces b)"

lemma log_record_frame [simp]:
  "bk_agg (log_record tk m b) = bk_agg b" "bk_notifier (log_record tk m b) = bk_notifier b"
  "bk_nonces (log_record tk m b) = bk_nonces b" "bk_registry (log_record tk m b) = bk_registry b"
  "bk_audit (log_record tk m b) = bk_audit b"
  by (simp_all add: log_record_def split: option.split)

lemma tape_record_frame [simp]:
  "bk_agg (tape_record lb tk ev b) = bk_agg b" "bk_notifier (tape_record lb tk ev b) = bk_notifier b"
  "bk_nonces (tape_record lb tk ev b) = bk_nonces b" "bk_registry (tape_record lb tk ev b) = bk_registry b"
  "bk_log (tape_record lb tk ev b) = bk_log b"
  "bk_audit (tape_record lb tk ev b) = audit_record (lib_entry lb) (tk_wall tk) (tk_io tk) ev (bk_audit b)"
  by (simp_all add: tape_record_def)

lemma notify_if_frame [simp]:
  "bk_agg (notify_if lb ch b) = bk_agg b" "bk_nonces (notify_if lb ch b) = bk_nonces b"
  "bk_registry (notify_if lb ch b) = bk_registry b" "bk_audit (notify_if lb ch b) = bk_audit b"
  "bk_log (notify_if lb ch b) = bk_log b"
  "bk_notifier (notify_if lb ch b) =
     (if ch then notify_tools_list_changed (lib_text lb) (bk_notifier b) else bk_notifier b)"
  by (simp_all add: notify_if_def)

lemma tape_named_frame [simp]:
  "bk_agg (tape_named lb tk ev name b) = bk_agg b" "bk_notifier (tape_named lb tk ev name b) = bk_notifier b"
  "bk_nonces (tape_named lb tk ev name b) = bk_nonces b" "bk_registry (tape_named lb tk ev name b) = bk_registry b"
  "bk_log (tape_named lb tk ev name b) = bk_log b"
  by (simp_all add: tape_named_def split: option.split)

section \<open>Submissions\<close>

lemma submit_cases:
  obtains (early) m where "submit lb tk client nh sh b = (RError m, b)"
  | (denied) n sig st e st' where "nonce_from_hex nh = Some n" "lock (bk_nonces b) = Some st"
      "decode_hex sh = Some sig"
      "verify_and_consume (lib_crypto lb) st client n sig (bk_registry b) (tk_now tk) = (Err e, st')"
      "submit lb tk client nh sh b =
         (reject e, log_record tk (''verification rejected for '' @ client @ '': '' @ elevation_error_text e)
            (tape_record lb tk (ElevationDenied ''(unknown)'' client (elevation_error_text e))
              (b\<lparr>bk_nonces := put (bk_nonces b) st'\<rparr>)))"
  | (elevated) n sig st sid e st' where "nonce_from_hex nh = Some n" "lock (bk_nonces b) = Some st"
      "decode_hex sh = Some sig"
      "verify_and_consume (lib_crypto lb) st client n sig (bk_registry b) (tk_now tk) = (Ok (VElevation sid e), st')"
      "submit lb tk client nh sh b = apply_elevation lb tk client sid e (b\<lparr>bk_nonces := put (bk_nonces b) st'\<rparr>)"
  | (confirmed) n sig st sid tool st' where "nonce_from_hex nh = Some n" "lock (bk_nonces b) = Some st"
      "decode_hex sh = Some sig"
      "verify_and_consume (lib_crypto lb) st client n sig (bk_registry b) (tk_now tk) = (Ok (VConfirm sid tool), st')"
      "submit lb tk client nh sh b = apply_confirm lb tk sid tool (b\<lparr>bk_nonces := put (bk_nonces b) st'\<rparr>)"
proof (cases "nonce_from_hex nh")
  case None
  then show thesis by (intro early) (simp add: submit_def err_def)
next
  case (Some n)
  note n = this
  show thesis
  proof (cases "decode_hex sh")
    case None
    with n show thesis by (intro early) (simp add: submit_def err_def)
  next
    case (Some sig)
    note sig = this
    show thesis
    proof (cases "lock (bk_nonces b)")
      case None
      with n sig show thesis by (intro early) (simp add: submit_def internal_error_def)
    next
      case (Some st)
      obtain r st' where v: "verify_and_consume (lib_crypto lb) st client n sig (bk_registry b) (tk_now tk) = (r, st')"
        by force
      show thesis
      proof (cases r)
        case (Inl e)
        with n sig Some v show thesis by (intro denied) (simp_all add: submit_def)
      next
        case (Inr x)
        with n sig Some v show thesis
          by (cases x; simp; intro elevated confirmed) (simp_all add: submit_def)
      qed
    qed
  qed
qed

lemma apply_elevation_cases:
  obtains (failed) m where "apply_elevation lb tk client sid e b = (RError m, b)"
  | (granted) agg where "lock (bk_agg b) = Some agg" "server (ag_state agg) sid \<noteq> None"
      "apply_elevation lb tk client sid e b =
         (RDone (''elevated '' @ sid @ '' ('' @ mode_text (mode e) @ '')''),
          log_record tk (''elevation granted on '' @ sid @ '' ('' @ mode_text (mode e) @ '')'')
            (tape_record lb tk (ElevationGranted sid client (mode_text (mode e)))
              (notify_if lb
                (ag_exposure_snapshot (change_slot sid (grant_elevation e) agg) (tk_now tk)
                   \<noteq> ag_exposure_snapshot agg (tk_now tk))
                (b\<lparr>bk_agg := put (bk_agg b) (change_slot sid (grant_elevation e) agg)\<rparr>))))"
proof (cases "lock (bk_agg b)")
  case None
  then show thesis by (intro failed) (simp add: apply_elevation_def internal_error_def)
next
  case (Some agg)
  then show thesis
    by (cases "server (ag_state agg) sid")
      (auto simp: apply_elevation_def err_def Let_def intro: failed granted)
qed

lemma apply_confirm_cases:
  obtains (failed) m where "apply_confirm lb tk sid tool b = (RError m, b)"
  | (approved) agg where "lock (bk_agg b) = Some agg"
      "apply_confirm lb tk sid tool b =
         (RDone (''confirmed '' @ sid @ ''.'' @ tool @ '' (single use)''),
          log_record tk (''confirm approved for '' @ sid @ ''.'' @ tool)
            (tape_record lb tk (ConfirmApproved sid tool)
              (b\<lparr>bk_agg := put (bk_agg b) (approve_action sid tool (tk_now tk) agg)\<rparr>)))"
  by (cases "lock (bk_agg b)") (auto simp: apply_confirm_def internal_error_def)

lemma revoke_cases:
  obtains (failed) m where "revoke lb tk sid b = (RError m, b)"
  | (revoked) agg where "lock (bk_agg b) = Some agg" "server (ag_state agg) sid \<noteq> None"
      "revoke lb tk sid b =
         (RDone (''revoked '' @ sid),
          log_record tk (''elevation revoked on '' @ sid)
            (tape_record lb tk (ElevationRevoked sid ''operator'')
              (notify_if lb
                (ag_exposure_snapshot (change_slot sid revoke_elevation agg) (tk_now tk)
                   \<noteq> ag_exposure_snapshot agg (tk_now tk))
                (b\<lparr>bk_agg := put (bk_agg b) (change_slot sid revoke_elevation agg)\<rparr>))))"
proof (cases "lock (bk_agg b)")
  case None
  then show thesis by (intro failed) (simp add: revoke_def internal_error_def)
next
  case (Some agg)
  then show thesis
    by (cases "server (ag_state agg) sid")
      (auto simp: revoke_def err_def Let_def intro: failed revoked)
qed

lemma issue_nonce_cases:
  obtains (failed) m where "issue_nonce tk client p b = (RError m, b)"
  | (refused) st m st' where "lock (bk_nonces b) = Some st" "st' = nonces_prune (tk_now tk) st"
      "issue_nonce tk client p b = (RError m, b\<lparr>bk_nonces := put (bk_nonces b) st'\<rparr>)"
  | (issued) st n st' where "lock (bk_nonces b) = Some st"
      "issue st client p (tk_now tk) (tk_random tk) = (Ok n, st')"
      "issue_nonce tk client p b = (RNonce (nonce_to_hex n), b\<lparr>bk_nonces := put (bk_nonces b) st'\<rparr>)"
proof (cases "lock (bk_nonces b)")
  case None
  then show thesis by (intro failed) (simp add: issue_nonce_def internal_error_def)
next
  case (Some st)
  obtain r st' where i: "issue st client p (tk_now tk) (tk_random tk) = (r, st')" by force
  show thesis
  proof (cases r)
    case (Inl e)
    then have "st' = nonces_prune (tk_now tk) st"
      using i by (auto simp: issue_def Let_def split: if_splits sum.splits)
    with Inl Some i show thesis by (intro refused) (simp_all add: issue_nonce_def err_def)
  next
    case (Inr n)
    with Some i show thesis by (intro issued) (simp_all add: issue_nonce_def)
  qed
qed

lemma request_elevation_cases:
  obtains (failed) m' where "request_elevation tk client sid m ttl b = (RError m', b)"
  | (issuing) rm where "request_elevation tk client sid m ttl b = issue_nonce tk client (Elevate sid rm) b"
  by (cases "m = ''duration''"; cases "m = ''until_revoked''"; cases ttl)
    (auto simp: request_elevation_def err_def)

lemma lifecycle_cases:
  obtains (failed) m where "lifecycle lb tk op sid b = (RError m, b)"
  | (ran) agg r agg' where "lock (bk_agg b) = Some agg" "run_lifecycle (lib_host lb) op sid agg = (r, agg')"
      "snd (lifecycle lb tk op sid b) =
         log_record tk (verb op @ '' '' @ sid @ (case r of Inr u \<Rightarrow> [] | Inl e \<Rightarrow> '' failed: '' @ aggregator_error_text e))
           (notify_if lb (is_ok r \<and> ag_exposure_snapshot agg' (tk_now tk) \<noteq> ag_exposure_snapshot agg (tk_now tk))
             (b\<lparr>bk_agg := put (bk_agg b) agg'\<rparr>))"
      "is_ok r \<longleftrightarrow> (\<exists>m. fst (lifecycle lb tk op sid b) = RDone m)"
      "\<forall>h. fst (lifecycle lb tk op sid b) \<noteq> RNonce h"
proof (cases "lock (bk_agg b)")
  case None
  then show thesis by (intro failed) (simp add: lifecycle_def internal_error_def)
next
  case (Some agg)
  obtain r agg' where r: "run_lifecycle (lib_host lb) op sid agg = (r, agg')" by force
  with Some show thesis
    by (intro ran [OF Some r]) (cases r; simp add: lifecycle_def notify_if_def Let_def)+
qed

section \<open>The abstract machine\<close>

text \<open>
  What can happen to the aggregator, without the channels: the specification that the two
  handlers refine. A label says which transition was taken.
\<close>

datatype agg_label =
    LIdle
  | LLife lifecycle_cmd string
  | LGrant string elevation
  | LRevoke string
  | LApprove string string
  | LCall string json

inductive agg_step ::
  "('c, 's) host \<Rightarrow> timestamp \<Rightarrow> ('c, 's) aggregator \<Rightarrow> agg_label \<Rightarrow> ('c, 's) aggregator \<Rightarrow> bool"
  for h :: "('c, 's) host" and now :: timestamp where
  idle: "agg_step h now a LIdle a"
| life: "run_lifecycle h op sid a = (r, a') \<Longrightarrow> agg_step h now a (LLife op sid) a'"
| grant: "server (ag_state a) sid \<noteq> None \<Longrightarrow> agg_step h now a (LGrant sid e) (change_slot sid (grant_elevation e) a)"
| revoke: "server (ag_state a) sid \<noteq> None \<Longrightarrow> agg_step h now a (LRevoke sid) (change_slot sid revoke_elevation a)"
| approve: "agg_step h now a (LApprove sid tool) (approve_action sid tool now a)"
| call: "call (host_api h) external args now a = (r, a') \<Longrightarrow> agg_step h now a (LCall external args) a'"

inductive_cases agg_step_gE: "agg_step h now a (LGrant sid e) a'"

inductive_simps agg_step_simps:
  "agg_step h now a LIdle a'" "agg_step h now a (LGrant sid e) a'" "agg_step h now a (LRevoke sid) a'"
  "agg_step h now a (LApprove sid tool) a'"

lemma change_slot_ok [inv_intros]:
  "agg_ok a \<Longrightarrow> (\<And>s. slot_id (f s) = slot_id s) \<Longrightarrow> (\<And>s. slot_tools (f s) = slot_tools s) \<Longrightarrow>
     agg_ok (change_slot sid f a)"
  unfolding change_slot_def by (rule agg_ok_state)

lemma run_lifecycle_op: "lifecycle_op (run_lifecycle h op)"
  by (cases op)
    (simp_all add: start.lifecycle_op_axioms stop.lifecycle_op_axioms pause.lifecycle_op_axioms
      resume.lifecycle_op_axioms)

interpretation run: lifecycle_op "run_lifecycle h op" for h op
  by (rule run_lifecycle_op)

lemma agg_step_ok: "agg_step h now a lbl a' \<Longrightarrow> agg_ok a \<Longrightarrow> agg_ok a'"
proof (induction rule: agg_step.induct)
  case (life op sid a r a')
  then show ?case using run.op_ok [of a h op sid] by simp
next
  case (call external args a r a')
  then show ?case using agg_ok_call [of a "host_api h" external args now] by simp
qed (simp_all add: agg_ok_approve change_slot_ok)

lemma agg_step_manifest: "agg_step h now a lbl a' \<Longrightarrow> ag_manifest a' = ag_manifest a"
proof (induction rule: agg_step.induct)
  case (life op sid a r a')
  then show ?case using run.op_manifest [of h op sid a] by simp
next
  case (call external args a r a')
  then show ?case using call_frame(1) [of "host_api h" external args now a] by simp
qed (simp_all add: change_slot_def approve_action_def)

text \<open>The elevation of a server changes only by a grant, a revocation or a fault, and only in these ways.\<close>

lemma agg_step_elevation:
  assumes "agg_step h now a lbl a'" and "server (ag_state a') sid = Some slot'"
    and "slot_elevation slot' = Some e"
  shows "lbl = LGrant sid e \<or> (\<exists>slot. server (ag_state a) sid = Some slot \<and> slot_elevation slot = Some e)"
  using assms
proof (induction rule: agg_step.induct)
  case (life op i a r a')
  then show ?case using run.op_elevation_any [of h op i a sid] by (cases "server (ag_state a) sid") auto
next
  case (call external args a r a')
  then show ?case using call_state [of "host_api h" external args now a]
    by (auto simp: server_server_mut split: if_splits)
qed (auto simp: change_slot_def approve_action_def server_server_mut split: if_splits)

lemma agg_step_confirmations:
  assumes "agg_step h now a lbl a'" and "c \<in> set (ag_confirmations a')"
  shows "c \<in> set (ag_confirmations a)
    \<or> lbl = LApprove (cf_server c) (cf_tool c) \<and> cf_approved_at c = now"
  using assms
proof (induction rule: agg_step.induct)
  case (life op sid a r a')
  then show ?case using run.op_confirmations [of h op sid a] by simp
next
  case (approve a sid tool)
  then show ?case by (auto simp: approve_action_def confirmations_retain_def)
next
  case (call external args a r a')
  then have "c \<in> set (ag_confirmations (snd (call (host_api h) external args now a)))" by simp
  then show ?case
  proof (cases rule: call_cases [of "host_api h" external args now a])
    case (confirmed sid tool slot c1 cs)
    then show ?thesis using call(2) \<open>c \<in> set (ag_confirmations (snd _))\<close> confirms.set_spend [OF confirmed(3)]
      by (auto simp: route_frame)
  qed (auto simp: route_frame)
qed (auto simp: change_slot_def)

section \<open>Coverage\<close>

text \<open>The label a submission may take is the one its signed purpose names.\<close>

fun label_of :: "purpose \<Rightarrow> timestamp \<Rightarrow> agg_label" where
  "label_of (Elevate sid (ReqDuration ttl)) now = LGrant sid (for_duration now ttl)"
| "label_of (Elevate sid ReqUntilRevoked) now = LGrant sid (until_revoked now)"
| "label_of (ConfirmTool sid tool) now = LApprove sid tool"

text \<open>
  Given who has authorised what when (\<open>A\<close>: client, nonce, purpose, instant), every elevation in
  force and every confirmation held is the effect of something authorised.
\<close>

definition grants_covered ::
  "(string \<Rightarrow> nonce \<Rightarrow> purpose \<Rightarrow> timestamp \<Rightarrow> bool) \<Rightarrow> ('c, 's) aggregator \<Rightarrow> bool" where
  "grants_covered A a \<longleftrightarrow>
     (\<forall>sid slot e. server (ag_state a) sid = Some slot \<and> slot_elevation slot = Some e \<longrightarrow>
        (\<exists>client n p now. A client n p now \<and> LGrant sid e = label_of p now))"

definition approvals_covered ::
  "(string \<Rightarrow> nonce \<Rightarrow> purpose \<Rightarrow> timestamp \<Rightarrow> bool) \<Rightarrow> ('c, 's) aggregator \<Rightarrow> bool" where
  "approvals_covered A a \<longleftrightarrow>
     (\<forall>c \<in> set (ag_confirmations a).
        \<exists>client n. A client n (ConfirmTool (cf_server c) (cf_tool c)) (cf_approved_at c))"

text \<open>The labels that add authority.\<close>

fun gains :: "agg_label \<Rightarrow> bool" where
  "gains (LGrant sid e) = True"
| "gains (LApprove sid tool) = True"
| "gains _ = False"

lemma gains_cases:
  assumes "gains lbl"
  obtains sid e where "lbl = LGrant sid e" | sid tool where "lbl = LApprove sid tool"
  using assms by (cases lbl) auto

lemma grants_covered_mono:
  "grants_covered A a \<Longrightarrow> (\<And>client n p now. A client n p now \<Longrightarrow> A' client n p now) \<Longrightarrow> grants_covered A' a"
  unfolding grants_covered_def by meson

lemma approvals_covered_mono:
  "approvals_covered A a \<Longrightarrow> (\<And>client n p now. A client n p now \<Longrightarrow> A' client n p now) \<Longrightarrow>
     approvals_covered A' a"
  unfolding approvals_covered_def by meson

lemma covered_start:
  "unelevated (ag_state a) \<Longrightarrow> grants_covered A a"
  "ag_confirmations a = [] \<Longrightarrow> approvals_covered A a"
  by (auto simp: grants_covered_def approvals_covered_def unelevated_def dest: server_SomeD)

lemma agg_step_covered:
  assumes step: "agg_step h now a lbl a'" and gr: "grants_covered A a" and ap: "approvals_covered A a"
    and new: "gains lbl \<Longrightarrow> \<exists>client n p. A client n p now \<and> lbl = label_of p now"
  shows "grants_covered A a' \<and> approvals_covered A a'"
proof
  show "grants_covered A a'"
    unfolding grants_covered_def
  proof (intro allI impI, elim conjE)
    fix sid slot e
    assume "server (ag_state a') sid = Some slot" "slot_elevation slot = Some e"
    from agg_step_elevation [OF step this]
    show "\<exists>client n p now. A client n p now \<and> LGrant sid e = label_of p now"
      using new gr unfolding grants_covered_def by fastforce
  qed
  show "approvals_covered A a'"
    unfolding approvals_covered_def
  proof
    fix c
    assume "c \<in> set (ag_confirmations a')"
    from agg_step_confirmations [OF step this]
    show "\<exists>client n. A client n (ConfirmTool (cf_server c) (cf_tool c)) (cf_approved_at c)"
    proof
      assume "c \<in> set (ag_confirmations a)"
      with ap show ?thesis by (simp add: approvals_covered_def)
    next
      assume l: "lbl = LApprove (cf_server c) (cf_tool c) \<and> cf_approved_at c = now"
      with new obtain client n p where p: "A client n p now" "lbl = label_of p now" by auto
      with l have "p = ConfirmTool (cf_server c) (cf_tool c)"
        by (cases "(p, now)" rule: label_of.cases) auto
      with p l show ?thesis by blast
    qed
  qed
qed

section \<open>Refinement\<close>

text \<open>
  A signature over the challenge of this purpose, by the client's registered key, for a nonce
  that is outstanding for this client and not expired.
\<close>

definition signed_off ::
  "('k, 'c, 's) libs \<Rightarrow> tick \<Rightarrow> ('k, 'c, 's) broker \<Rightarrow> string \<Rightarrow> nonce \<Rightarrow> u8 list \<Rightarrow> purpose \<Rightarrow> bool" where
  "signed_off lb tk b client n sig p \<longleftrightarrow>
     (\<exists>pd \<in> set (nonces_of b). \<exists>key.
        pd_nonce pd = n \<and> pd_client pd = client \<and> pd_purpose pd = p \<and> \<not> nonce_expired pd (tk_now tk)
        \<and> registry_key (bk_registry b) client = Some key \<and> length sig = signature_length
        \<and> verify_strict (lib_crypto lb) key
            (challenge_message (print_doc (lib_crypto lb)) n client p) sig)"

definition submission :: "control_request \<Rightarrow> string \<Rightarrow> nonce \<Rightarrow> u8 list \<Rightarrow> bool" where
  "submission req client n sig \<longleftrightarrow>
     (\<exists>nh sh. (req = CSubmitElevation client nh sh \<or> req = CSubmitConfirm client nh sh)
        \<and> nonce_from_hex nh = Some n \<and> decode_hex sh = Some sig)"

definition label_allowed ::
  "('k, 'c, 's) libs \<Rightarrow> tick \<Rightarrow> ('k, 'c, 's) broker \<Rightarrow> control_request \<Rightarrow> agg_label \<Rightarrow> bool" where
  "label_allowed lb tk b req lbl \<longleftrightarrow>
     (case lbl of
        LIdle \<Rightarrow> True
      | LLife op sid \<Rightarrow>
          req = (case op of LcStart \<Rightarrow> CStart sid | LcStop \<Rightarrow> CStop sid
                 | LcPause \<Rightarrow> CPause sid | LcResume \<Rightarrow> CResume sid)
      | LRevoke sid \<Rightarrow> req = CRevoke sid
      | LCall external args \<Rightarrow> False
      | _ \<Rightarrow> (\<exists>client n sig p. submission req client n sig \<and> signed_off lb tk b client n sig p
               \<and> lbl = label_of p (tk_now tk)))"

lemma verified_label:
  assumes "verify_and_consume (lib_crypto lb) (nonces_of b) client n sig (bk_registry b) (tk_now tk) = (Ok v, st')"
  shows "\<exists>p. signed_off lb tk b client n sig p \<and>
    label_of p (tk_now tk) = (case v of VElevation sid e \<Rightarrow> LGrant sid e | VConfirm sid tool \<Rightarrow> LApprove sid tool)"
proof -
  from verify_success [OF assms] obtain pd key where pd: "pd \<in> set (nonces_of b)"
    "signed_off lb tk b client n sig (pd_purpose pd)" "v = outcome (pd_purpose pd) (tk_now tk)"
    by (auto simp: signed_off_def)
  then show ?thesis
    by (intro exI [of _ "pd_purpose pd"])
      (cases "(pd_purpose pd, tk_now tk)" rule: outcome.cases; auto)
qed

lemma label_allowed_signed:
  assumes "submission req client n sig" and "signed_off lb tk b client n sig p"
    and "label_of p (tk_now tk) = lbl"
  shows "label_allowed lb tk b req lbl"
  using assms by (cases "(p, tk_now tk)" rule: label_of.cases) (fastforce simp: label_allowed_def)+

lemma submit_refines:
  assumes s: "submit lb tk client nh sh b = (resp, b')"
    and req: "req = CSubmitElevation client nh sh \<or> req = CSubmitConfirm client nh sh"
  shows "\<exists>lbl. agg_step (lib_host lb) (tk_now tk) (agg_of b) lbl (agg_of b') \<and> label_allowed lb tk b req lbl"
proof (cases rule: submit_cases [of lb tk client nh sh b])
  case (early m)
  with s show ?thesis by (intro exI [of _ LIdle]) (auto simp: agg_step.idle label_allowed_def)
next
  case (denied n sig st e st')
  with s show ?thesis by (intro exI [of _ LIdle]) (auto simp: agg_step.idle label_allowed_def)
next
  case (elevated n sig st sid e st')
  have st: "st = nonces_of b" using elevated(2) by (simp add: lock_guarded)
  from verified_label [of lb b client n sig tk] elevated(4) st obtain p where
    p: "signed_off lb tk b client n sig p" "label_of p (tk_now tk) = LGrant sid e" by fastforce
  have sub: "submission req client n sig" using req elevated by (auto simp: submission_def)
  let ?b = "b\<lparr>bk_nonces := put (bk_nonces b) st'\<rparr>"
  show ?thesis
  proof (cases rule: apply_elevation_cases [of lb tk client sid e ?b])
    case (failed m)
    with s elevated show ?thesis by (intro exI [of _ LIdle]) (auto simp: agg_step.idle label_allowed_def)
  next
    case (granted agg)
    then have "agg_step (lib_host lb) (tk_now tk) (agg_of b) (LGrant sid e) (agg_of b')"
      using s elevated by (auto simp: agg_step_simps lock_guarded)
    with label_allowed_signed [OF sub p] show ?thesis by blast
  qed
next
  case (confirmed n sig st sid tool st')
  have st: "st = nonces_of b" using confirmed(2) by (simp add: lock_guarded)
  from verified_label [of lb b client n sig tk] confirmed(4) st obtain p where
    p: "signed_off lb tk b client n sig p" "label_of p (tk_now tk) = LApprove sid tool" by fastforce
  have sub: "submission req client n sig" using req confirmed by (auto simp: submission_def)
  let ?b = "b\<lparr>bk_nonces := put (bk_nonces b) st'\<rparr>"
  show ?thesis
  proof (cases rule: apply_confirm_cases [of lb tk sid tool ?b])
    case (failed m)
    with s confirmed show ?thesis by (intro exI [of _ LIdle]) (auto simp: agg_step.idle label_allowed_def)
  next
    case (approved agg)
    then have "agg_step (lib_host lb) (tk_now tk) (agg_of b) (LApprove sid tool) (agg_of b')"
      using s confirmed by (auto simp: agg_step_simps lock_guarded)
    with label_allowed_signed [OF sub p] show ?thesis by blast
  qed
qed

lemma lifecycle_refines:
  assumes "lifecycle lb tk op sid b = (resp, b')"
  shows "agg_step (lib_host lb) (tk_now tk) (agg_of b) (LLife op sid) (agg_of b')
    \<or> agg_of b' = agg_of b"
proof (cases rule: lifecycle_cases [of lb tk op sid b])
  case (failed m)
  with assms show ?thesis by simp
next
  case (ran agg r agg')
  have "agg_of b' = agg'" using assms ran(3) by simp
  with ran(1,2) show ?thesis by (auto simp: lock_guarded intro: agg_step.life)
qed

lemma revoke_refines:
  "revoke lb tk sid b = (resp, b') \<Longrightarrow>
     agg_step (lib_host lb) (tk_now tk) (agg_of b) (LRevoke sid) (agg_of b') \<or> agg_of b' = agg_of b"
  by (cases rule: revoke_cases [of lb tk sid b]) (auto simp: agg_step_simps lock_guarded)

lemma issue_nonce_agg: "issue_nonce tk client p b = (resp, b') \<Longrightarrow> bk_agg b' = bk_agg b"
  by (cases rule: issue_nonce_cases [of tk client p b]) auto

lemma request_elevation_agg: "request_elevation tk client sid m ttl b = (resp, b') \<Longrightarrow> bk_agg b' = bk_agg b"
  by (cases rule: request_elevation_cases [of tk client sid m ttl b]) (auto dest: issue_nonce_agg)

lemma control_refines:
  assumes "handle_control lb tk req b = (resp, b')"
  shows "\<exists>lbl. agg_step (lib_host lb) (tk_now tk) (agg_of b) lbl (agg_of b') \<and> label_allowed lb tk b req lbl"
proof -
  have idle: ?thesis if "agg_of b' = agg_of b"
    using that by (intro exI [of _ LIdle]) (simp add: agg_step_simps label_allowed_def)
  have life: ?thesis if "lifecycle lb tk op sid b = (resp, b')"
    "req = (case op of LcStart \<Rightarrow> CStart sid | LcStop \<Rightarrow> CStop sid
       | LcPause \<Rightarrow> CPause sid | LcResume \<Rightarrow> CResume sid)" for op sid
    using lifecycle_refines [OF that(1)] that(2) idle by (force simp: label_allowed_def)
  show ?thesis
  proof (cases req)
    case (CRevoke sid)
    with assms revoke_refines [of lb tk sid b resp b'] idle show ?thesis
      by (force simp: label_allowed_def)
  next
    case (CSubmitElevation client nh sh)
    with assms submit_refines [of lb tk client nh sh b resp b' req] show ?thesis by simp
  next
    case (CSubmitConfirm client nh sh)
    with assms submit_refines [of lb tk client nh sh b resp b' req] show ?thesis by simp
  next
    case (CRequestElevation client sid m ttl)
    with assms request_elevation_agg [of tk client sid m ttl b resp b'] idle show ?thesis by simp
  next
    case (CRequestConfirm client sid tool)
    with assms issue_nonce_agg [of tk client "ConfirmTool sid tool" b resp b'] idle show ?thesis
      by (simp add: request_confirm_def)
  qed (use assms life [of LcStart] life [of LcStop] life [of LcPause] life [of LcResume] idle in auto)
qed

lemma mcp_refines:
  assumes "handle_mcp lb version tk req client b = (resp, b')"
  shows "(\<exists>external args. agg_step (lib_host lb) (tk_now tk) (agg_of b) (LCall external args) (agg_of b'))
    \<or> agg_of b' = agg_of b"
proof (cases "b' = b")
  case False
  then obtain rid where "handle_tools_call lb tk rid (jget req ''params'') b = (resp, b')"
    using assms by (auto simp: handle_mcp_def Let_def split: if_splits)
  with False obtain name args agg r agg' where
    "lock (bk_agg b) = Some agg" "call (host_api (lib_host lb)) name args (tk_now tk) agg = (r, agg')"
    "agg_of b' = agg'"
    by (auto simp: handle_tools_call_def Let_def split: sum.splits prod.splits option.splits if_splits)
  then show ?thesis by (auto simp: lock_guarded intro: agg_step.call)
qed simp

lemma mcp_frame:
  assumes "handle_mcp lb version tk req client b = (resp, b')"
  shows "bk_nonces b' = bk_nonces b \<and> bk_registry b' = bk_registry b \<and> bk_notifier b' = bk_notifier b
    \<and> bk_log b' = bk_log b"
  using assms
  by (auto simp: handle_mcp_def handle_tools_call_def Let_def
      split: sum.splits prod.splits option.splits if_splits)

end
