(* ===== verification/BrokerMain.thy ===== *)
theory BrokerMain
  imports McpHandler
begin

text \<open>
  \<open>crates/broker/src/main.rs\<close>: the daemon's command line, the loading of the client registry
  and of the audit tape, the start of \<open>serve\<close> up to the state in which it answers requests, and
  what each command prints. The environment, the files and the binding of the two listeners are
  inputs.
\<close>

section \<open>The environment\<close>

definition token_env :: string where "token_env = ''MCPLOCK_BEARER_TOKEN''"
definition listen_env :: string where "listen_env = ''MCPLOCK_LISTEN''"
definition default_listen :: string where "default_listen = ''127.0.0.1:8765''"
definition clients_env :: string where "clients_env = ''MCPLOCK_CLIENTS''"
definition audit_env :: string where "audit_env = ''MCPLOCK_AUDIT_LOG''"

text \<open>
  Environment variables are bytes (\<open>var_os\<close>); \<open>var\<close> fails on those that are not UTF-8. A file
  is read or opened for append (giving what it holds), or the call fails with the text of its
  error; binding the HTTP listener gives the address, when it is an IP socket. \<open>os_lossy\<close> and
  \<open>os_wide\<close> are the tables by which the standard library prints what is not ASCII.
\<close>

record os =
  os_vars :: "string smap"
  os_read :: "string \<Rightarrow> string + string"
  os_append :: "string \<Rightarrow> string + string"
  os_bind_http :: "string \<Rightarrow> string + string option"
  os_bind_control :: "string \<Rightarrow> string + unit"
  os_temp_dir :: string
  os_lossy :: "string \<Rightarrow> string"
  os_wide :: "string \<Rightarrow> string"

definition env_var :: "os \<Rightarrow> string \<Rightarrow> string option" where
  "env_var o_s name =
     (case sm_get (os_vars o_s) name of
        None \<Rightarrow> None
      | Some v \<Rightarrow> if utf8_valid v then Some v else None)"

text \<open>A line of the daemon on standard error.\<close>

definition lockd :: "string \<Rightarrow> string" where "lockd s = ''mcp-lockd: '' @ s"

section \<open>The client registry\<close>

definition decode_pubkey :: "string \<Rightarrow> u8 list option" where
  "decode_pubkey hex = hex_array public_key_len hex"

fun register_all ::
  "'k crypto \<Rightarrow> (string \<times> string) list \<Rightarrow> 'k client_registry \<Rightarrow> string list \<times> 'k client_registry" where
  "register_all cr [] reg = ([], reg)"
| "register_all cr ((cid, hex) # entries) reg =
     (let (said, reg') =
        (case decode_pubkey hex of
           Some key \<Rightarrow>
             (case register cr cid key reg of
                (Inl e, r) \<Rightarrow> ([lockd (''client '' @ quoted cid @ '' has an invalid public key; skipped'')], r)
              | (Inr u, r) \<Rightarrow> ([], r))
         | None \<Rightarrow> ([lockd (''client '' @ quoted cid @ '' public key is not 32-byte hex; skipped'')], reg));
          (rest, reg'') = register_all cr entries reg'
      in (said @ rest, reg''))"

definition load_registry ::
  "'k crypto \<Rightarrow> (string \<Rightarrow> string + string smap) \<Rightarrow> os \<Rightarrow> string list \<times> 'k client_registry" where
  "load_registry cr parse_map o_s =
     (case sm_get (os_vars o_s) clients_env of
        None \<Rightarrow> ([], registry_new)
      | Some path \<Rightarrow>
          (case os_read o_s path of
             Inl e \<Rightarrow>
               ([lockd (''cannot read '' @ clients_env @ '' ('' @ display_path (os_lossy o_s) path @ ''): '' @ e)],
                registry_new)
           | Inr bytes \<Rightarrow>
               (case parse_map bytes of
                  Inl e \<Rightarrow> ([lockd (clients_env @ '' is not valid JSON: '' @ e)], registry_new)
                | Inr entries \<Rightarrow> register_all cr entries registry_new)))"

definition load_audit :: "os \<Rightarrow> string list \<times> audit_log" where
  "load_audit o_s =
     (case sm_get (os_vars o_s) audit_env of
        Some path \<Rightarrow>
          (case audit_to_file (os_append o_s path) of
             Inr log \<Rightarrow> ([lockd (''audit log at '' @ display_path (os_lossy o_s) path)], log)
           | Inl e \<Rightarrow> ([lockd (''cannot open audit log ('' @ e @ ''); using in-memory'')], audit_in_memory))
      | None \<Rightarrow>
          ([lockd (audit_env @ '' unset '' @ em_dash @ '' audit log is in-memory only (not persisted)'')],
           audit_in_memory))"

section \<open>Serving\<close>

definition spawn_child ::
  "json_lib \<Rightarrow> (string \<Rightarrow> nat) \<Rightarrow> string \<Rightarrow>
     (string \<Rightarrow> string list \<Rightarrow> string smap \<Rightarrow> string + spawned_process) \<Rightarrow> string smap \<Rightarrow>
     server_manifest \<Rightarrow> child_error + stdio_client" where
  "spawn_child jl cost version spawn_os inherited srv =
     (let ctx = first_party []; env = srv_env srv
      in spawn jl cost version spawn_os inherited (srv_command srv) (srv_args srv) ctx env)"

text \<open>The host of the real daemon: every spawn is a stdio client, a child of this process.\<close>

definition stdio_host ::
  "json_lib \<Rightarrow> (string \<Rightarrow> nat) \<Rightarrow> string \<Rightarrow>
     ('s \<Rightarrow> string \<Rightarrow> string list \<Rightarrow> string smap \<Rightarrow> (string + spawned_process) \<times> 's) \<Rightarrow> string smap \<Rightarrow>
     (stdio_client, 's) host" where
  "stdio_host jl cost version os_spawn inherited =
     \<lparr>host_spawn = (\<lambda>srv s.
        (spawn_child jl cost version (\<lambda>c a e. fst (os_spawn s c a e)) inherited srv,
         snd (os_spawn s (srv_command srv) (srv_args srv) (command_env inherited (srv_env srv))))),
      host_api = stdio_api jl cost\<rparr>"

text \<open>
  A run of the daemon exits with a code, or serves: an endpoint and perhaps a control socket, over
  the broker.
\<close>

datatype ('k, 'c, 's) serve_outcome =
    Exit nat
  | Serving "('c, 's) mcp_state http_endpoint" "string option" "('k, 'c, 's) broker"

definition start_control_channel ::
  "tick \<Rightarrow> os \<Rightarrow> ('c, 's) aggregator mutex \<Rightarrow> notifier \<Rightarrow> 'k client_registry \<Rightarrow> audit_log \<Rightarrow>
     string list \<times> string option \<times> ('k, 'c, 's) broker" where
  "start_control_channel tk o_s agg nt reg audit =
     (let path = socket_path (os_vars o_s) (os_temp_dir o_s);
          handler = handler_new tk agg nt reg audit
      in (case os_bind_control o_s path of
            Inr u \<Rightarrow> ([lockd (''control socket at '' @ display_path (os_lossy o_s) path)], Some path, handler)
          | Inl e \<Rightarrow> ([lockd (''warning: control channel unavailable ('' @ e @ '')'')], None, handler)))"

text \<open>\<open>serve\<close>: the lines on standard error, in their order, and how it ends.\<close>

definition serve ::
  "('k, 'c, 's) libs \<Rightarrow> (string \<Rightarrow> string + manifest) \<Rightarrow> (string \<Rightarrow> u8 list) \<Rightarrow>
     (string \<Rightarrow> string + string smap) \<Rightarrow> string \<Rightarrow> os \<Rightarrow> tick \<Rightarrow> 's \<Rightarrow> string \<Rightarrow>
     string list \<times> ('k, 'c, 's) serve_outcome" where
  "serve lb parse sha parse_map version o_s tk sp path =
     (case load_from_path parse sha (os_read o_s) path of
        Inl e \<Rightarrow> ([lockd (manifest_error_text (os_wide o_s) e)], Exit 1)
      | Inr loaded \<Rightarrow>
          (let said = [''mcp-lockd '' @ version @ '': manifest '' @ display_path (os_lossy o_s) path
                        @ '' ('' @ lm_integrity loaded @ '')''];
               token = (case env_var o_s token_env of Some t \<Rightarrow> t | None \<Rightarrow> [])
           in
           case bearer_new token ''mcp-client'' of
             None \<Rightarrow>
               (said @ [lockd (''refusing to start '' @ em_dash @ '' set '' @ token_env
                          @ '' to a non-empty bearer token'')], Exit 1)
           | Some validator \<Rightarrow>
               (let said = said @ build_said (lib_host lb) (mf_servers (lm_manifest loaded)) sp in
                case build (lib_host lb) loaded sp of
                  Inl e \<Rightarrow> (said @ [lockd (''failed to start servers: '' @ aggregator_error_text e)], Exit 1)
                | Inr aggregator \<Rightarrow>
                    (let (said_reg, reg) = load_registry (lib_crypto lb) parse_map o_s;
                         said_empty = (if registry_is_empty reg
                           then [lockd (''no clients registered ('' @ clients_env @ '' unset/empty) '' @ em_dash
                                   @ '' elevation disabled (ship closed)'')] else []);
                         (said_audit, audit) = load_audit o_s;
                         said = said @ said_reg @ said_empty @ said_audit;
                         agg = mutex_new aggregator;
                         mcp = mcp_state_new agg audit;
                         listen = (case env_var o_s listen_env of Some l \<Rightarrow> l | None \<Rightarrow> default_listen)
                     in
                       (case endpoint_bind (os_bind_http o_s) listen validator mcp notifier_new of
                          Inl e \<Rightarrow> (said @ [lockd (''could not bind '' @ listen @ '': '' @ e)], Exit 1)
                        | Inr endpoint \<Rightarrow>
                            (case start_control_channel tk o_s agg notifier_new reg audit of
                               (said_control, control, b) \<Rightarrow>
                                 (said @ said_control
                                    @ [lockd (''MCP endpoint listening on http://'' @ he_local_addr endpoint
                                         @ '' (read-only until elevated)'')],
                                  Serving endpoint control b)))))))"

section \<open>Checking a manifest\<close>

text \<open>The exit code, what is printed, and what goes to standard error.\<close>

definition check_manifest ::
  "(string \<Rightarrow> string + manifest) \<Rightarrow> (string \<Rightarrow> u8 list) \<Rightarrow> os \<Rightarrow> string \<Rightarrow>
     nat \<times> string list \<times> string list" where
  "check_manifest parse sha o_s path =
     (case load_from_path parse sha (os_read o_s) path of
        Inl e \<Rightarrow> (1, [], [lockd (manifest_error_text (os_wide o_s) e)])
      | Inr loaded \<Rightarrow>
          (let st = from_manifest loaded in
           (0, [''manifest: '' @ display_path (os_lossy o_s) path,
                ''integrity (sha256): '' @ lm_integrity loaded,
                ''cold start: '' @ dec (length (bs_servers st)) @ '' server(s), ''
                  @ dec (elevation_count st) @ '' elevation(s)'']
               @ map (\<lambda>s. ''  ['' @ slot_id s @ ''] read-only exposure: '' @ join '', '' (exposed s 0))
                   (bs_servers st),
            [])))"

section \<open>The command line\<close>

fun debug_identity :: "process_identity \<Rightarrow> string" where
  "debug_identity BrokerServiceAccount = ''BrokerServiceAccount''"

definition print_posture :: "string \<Rightarrow> string list" where
  "print_posture version =
     (let default_ctx = first_party [] in
      [''mcp-lockd '' @ version @ '' (no listeners; broker core only)'',
       ''state: fail-closed '' @ em_dash @ '' no servers supervised, no tools exposed, zero elevations'',
       ''child execution context: identity='' @ debug_identity (ec_identity default_ctx)
         @ '', sandboxed='' @ debug_bool (is_sandboxed default_ctx),
       ''try: mcp-lockd --check-manifest <path>   (see docs/DESIGN.md)''])"

definition print_help :: "string \<Rightarrow> string list" where
  "print_help version =
     [''mcp-lockd '' @ version @ '' '' @ em_dash @ '' MCP-Lock broker daemon'', [], ''USAGE:'',
      ''    mcp-lockd serve --manifest <path>'', ''    mcp-lockd --check-manifest <path>'', [],
      ''COMMANDS:'',
      ''    serve --manifest <path>   Spawn the manifest'' @ [CHR 0x27] @ ''s servers and serve the'',
      ''                              aggregated MCP endpoint over HTTP (loopback).'',
      ''                              Requires '' @ token_env @ ''; binds '' @ listen_env,
      ''                              (default '' @ default_listen @ '').'', [],
      ''FLAGS:'',
      ''    --check-manifest <path>   Load a manifest read-only; print its'',
      ''                              integrity hash and cold-start exposure'',
      ''    -h, --help                Print this help'',
      ''    -V, --version             Print version'', [],
      ''The control channel and presence-gated elevation arrive in Slice 5.'']"

datatype command =
    CmdVersion
  | CmdHelp
  | CmdCheckManifest string
  | CmdServe string
  | CmdPosture
  | CmdUsage "string list"

definition parse_args :: "string list \<Rightarrow> command" where
  "parse_args args =
     (case args of
        [] \<Rightarrow> CmdPosture
      | a # rest \<Rightarrow>
          if a = ''--version'' \<or> a = ''-V'' then CmdVersion
          else if a = ''--help'' \<or> a = ''-h'' then CmdHelp
          else if a = ''--check-manifest'' then
            (case rest of
               path # _ \<Rightarrow> CmdCheckManifest path
             | [] \<Rightarrow> CmdUsage [lockd ''--check-manifest requires a path''])
          else if a = ''serve'' then
            (case rest of
               flag # rest' \<Rightarrow>
                 if flag = ''--manifest'' then
                   (case rest' of
                      path # _ \<Rightarrow> CmdServe path
                    | [] \<Rightarrow> CmdUsage [lockd ''serve --manifest requires a path''])
                 else CmdUsage [lockd ''usage: serve --manifest <path>'']
             | [] \<Rightarrow> CmdUsage [lockd ''usage: serve --manifest <path>''])
          else CmdUsage [lockd (''unknown argument '' @ quoted a), ''run `mcp-lockd --help` for usage''])"

text \<open>
  The whole daemon: what it prints on standard output and on standard error before it ends or
  starts to serve.
\<close>

definition lockd_main ::
  "('k, 'c, 's) libs \<Rightarrow> (string \<Rightarrow> string + manifest) \<Rightarrow> (string \<Rightarrow> u8 list) \<Rightarrow>
     (string \<Rightarrow> string + string smap) \<Rightarrow> string \<Rightarrow> os \<Rightarrow> tick \<Rightarrow> 's \<Rightarrow> string list \<Rightarrow>
     string list \<times> string list \<times> ('k, 'c, 's) serve_outcome" where
  "lockd_main lb parse sha parse_map version o_s tk sp args =
     (case parse_args args of
        CmdVersion \<Rightarrow> ([''mcp-lockd '' @ version], [], Exit 0)
      | CmdHelp \<Rightarrow> (print_help version, [], Exit 0)
      | CmdCheckManifest path \<Rightarrow>
          (case check_manifest parse sha o_s path of (code, out, said) \<Rightarrow> (out, said, Exit code))
      | CmdServe path \<Rightarrow>
          (case serve lb parse sha parse_map version o_s tk sp path of (said, r) \<Rightarrow> ([], said, r))
      | CmdPosture \<Rightarrow> (print_posture version, [], Exit 0)
      | CmdUsage said \<Rightarrow> ([], said, Exit 2))"

section \<open>Facts\<close>

text \<open>What a broker is right after \<open>serve\<close> has started it.\<close>

definition fresh_broker :: "('k, 'c, 's) libs \<Rightarrow> loaded_manifest \<Rightarrow> ('k, 'c, 's) broker \<Rightarrow> bool" where
  "fresh_broker lb loaded b \<longleftrightarrow>
     good_manifest (lm_manifest loaded)
     \<and> (\<exists>tk sp agg audit. build (lib_host lb) loaded sp = Ok agg
          \<and> length (ring audit) \<le> recent_cap
          \<and> b = handler_new tk (mutex_new agg) notifier_new (bk_registry b) audit)"

lemma ring_load_audit: "ring (snd (load_audit o_s)) = []"
  by (simp add: load_audit_def audit_to_file_def audit_in_memory_def ring_def split: option.split sum.split)

lemma handler_new_parts [simp]:
  "bk_registry (handler_new tk agg nt reg audit) = reg"
  "bk_agg (handler_new tk agg nt reg audit) = agg"
  "bk_audit (handler_new tk agg nt reg audit) = audit"
  by (simp_all add: handler_new_def log_record_def split: option.split)

lemma endpoint_bind_Ok:
  "endpoint_bind open_http addr v h nt = Ok ep \<Longrightarrow>
     open_http addr = Ok (Some (he_local_addr ep)) \<and> he_validator ep = v \<and> he_handler ep = h
     \<and> he_notifier ep = nt"
  by (auto simp: endpoint_bind_def ok_or.simps split: sum.splits option.splits)

text \<open>When \<open>serve\<close> serves, it went through every one of its steps.\<close>

lemma serve_steps:
  assumes "serve lb parse sha parse_map version o_s tk sp path = (said, Serving ep control b)"
  obtains loaded validator agg where
    "load_from_path parse sha (os_read o_s) path = Ok loaded"
    "bearer_new (case env_var o_s token_env of Some t \<Rightarrow> t | None \<Rightarrow> []) ''mcp-client'' = Some validator"
    "build (lib_host lb) loaded sp = Ok agg"
    "he_validator ep = validator" "he_handler ep = mcp_view b"
    "b = handler_new tk (mutex_new agg) notifier_new (snd (load_registry (lib_crypto lb) parse_map o_s))
           (snd (load_audit o_s))"
  using assms
  by (auto simp: serve_def start_control_channel_def Let_def mcp_view_def dest!: endpoint_bind_Ok
      split: sum.splits option.splits if_splits prod.splits)

text \<open>Among what it printed is what building the aggregator printed.\<close>

lemma serve_said:
  assumes "serve lb parse sha parse_map version o_s tk sp path = (said, Serving ep control b)"
    and "load_from_path parse sha (os_read o_s) path = Ok loaded"
    and "line \<in> set (build_said (lib_host lb) (mf_servers (lm_manifest loaded)) sp)"
  shows "line \<in> set said"
  using assms
  by (auto simp: serve_def Let_def split: sum.splits option.splits if_splits prod.splits)

lemma serve_aggregator:
  assumes "serve lb parse sha parse_map version o_s tk sp path = (said, Serving ep control b)"
    and "load_from_path parse sha (os_read o_s) path = Ok loaded"
  shows "\<exists>agg. build (lib_host lb) loaded sp = Ok agg \<and> bk_agg b = mutex_new agg"
  using assms by (auto elim!: serve_steps)

lemma serve_fresh:
  assumes "serve lb parse sha parse_map version o_s tk sp path = (said, Serving ep control b)"
  shows "\<exists>loaded token. load_from_path parse sha (os_read o_s) path = Ok loaded
    \<and> env_var o_s token_env = Some token \<and> bearer_new token ''mcp-client'' = Some (he_validator ep)
    \<and> fresh_broker lb loaded b
    \<and> bk_registry b = snd (load_registry (lib_crypto lb) parse_map o_s)
    \<and> he_handler ep = mcp_view b"
  using assms
proof (rule serve_steps)
  fix loaded validator agg
  assume l: "load_from_path parse sha (os_read o_s) path = Ok loaded"
    and v: "bearer_new (case env_var o_s token_env of Some t \<Rightarrow> t | None \<Rightarrow> []) ''mcp-client'' = Some validator"
    and g: "build (lib_host lb) loaded sp = Ok agg"
    and ep: "he_validator ep = validator" "he_handler ep = mcp_view b"
    and b: "b = handler_new tk (mutex_new agg) notifier_new
      (snd (load_registry (lib_crypto lb) parse_map o_s)) (snd (load_audit o_s))"
  have "good_manifest (lm_manifest loaded)"
    using l by (auto simp: load_from_path_def load_from_bytes_ok split: sum.splits)
  moreover have "\<exists>token. env_var o_s token_env = Some token \<and> bearer_new token ''mcp-client'' = Some validator"
    using v by (auto simp: bearer_new_def split: option.splits if_splits)
  moreover have "fresh_broker lb loaded b"
    unfolding fresh_broker_def
    using calculation(1) g b ring_load_audit [of o_s]
    by (intro conjI exI [of _ tk] exI [of _ sp] exI [of _ agg] exI [of _ "snd (load_audit o_s)"]) simp_all
  ultimately show ?thesis using l b ep by auto
qed

lemma register_all_Cons:
  "snd (register_all cr ((cid, hex) # entries) reg) =
     snd (register_all cr entries
       (case decode_pubkey hex of Some key \<Rightarrow> snd (register cr cid key reg) | None \<Rightarrow> reg))"
  by (auto simp: Let_def split: option.split prod.split sum.split)

lemma sm_ok_register_all: "sm_ok reg \<Longrightarrow> sm_ok (snd (register_all cr entries reg))"
proof (induction entries arbitrary: reg)
  case Nil
  then show ?case by simp
next
  case (Cons p entries)
  then show ?case
    by (cases p) (auto simp: register_all_Cons register_def sm.ok_insert simp del: register_all.simps
        split: option.split)
qed

lemma register_all_keys:
  assumes "registry_key (snd (register_all cr entries reg)) cid = Some key" and "sm_ok reg"
  shows "registry_key reg cid = Some key
    \<or> (\<exists>hex bytes. (cid, hex) \<in> set entries \<and> decode_pubkey hex = Some bytes
         \<and> key_from_bytes cr bytes = Some key)"
  using assms
proof (induction entries arbitrary: reg)
  case Nil
  then show ?case by simp
next
  case (Cons p entries)
  obtain i hex where p: "p = (i, hex)" by force
  note step = Cons.prems(1) [unfolded p register_all_Cons]
  show ?case
  proof (cases "decode_pubkey hex")
    case None
    with Cons.IH [of reg] Cons.prems(2) step show ?thesis by (auto simp: p)
  next
    case (Some bytes)
    with Cons.IH [of "snd (register cr i bytes reg)"] Cons.prems(2) step show ?thesis
      by (cases "key_from_bytes cr bytes")
        (auto simp: p register_def registry_key_def sm.get_insert sm.ok_insert split: if_splits)
  qed
qed

lemma load_registry_cases:
  obtains (none) "snd (load_registry cr parse_map o_s) = registry_new"
  | (entries) path bytes entries where "sm_get (os_vars o_s) clients_env = Some path"
      "os_read o_s path = Ok bytes" "parse_map bytes = Ok entries"
      "load_registry cr parse_map o_s = register_all cr entries registry_new"
proof (cases "sm_get (os_vars o_s) clients_env")
  case None
  then show thesis by (intro none) (simp add: load_registry_def)
next
  case (Some path)
  note p = this
  show thesis
  proof (cases "os_read o_s path")
    case (Inl e)
    with p show thesis by (intro none) (simp add: load_registry_def)
  next
    case (Inr bytes)
    with p show thesis
      by (cases "parse_map bytes") (simp_all add: load_registry_def none entries)
  qed
qed

lemma load_registry_keys:
  assumes "registry_key (snd (load_registry cr parse_map o_s)) cid = Some key"
  shows "\<exists>bytes. length bytes = 32 \<and> key_from_bytes cr bytes = Some key"
proof (cases rule: load_registry_cases [of cr parse_map o_s])
  case none
  with assms show ?thesis by (simp add: registry_new_def registry_key_def)
next
  case (entries path bytes es)
  with assms have "registry_key (snd (register_all cr es registry_new)) cid = Some key" by simp
  from register_all_keys [OF this] show ?thesis
    by (auto simp: registry_new_def registry_key_def decode_pubkey_def public_key_len_def
        dest!: length_hex_array)
qed

end
