(* ===== verification/BrokerRuns.thy ===== *)
theory BrokerRuns
  imports BrokerSystem BrokerMain
begin

text \<open>
  Runs of the broker: sequences of control requests, MCP requests and subscriptions on the
  shared state, at instants that never decrease. The invariants of every reachable state and
  what a run must contain for a server to be elevated or a confirmation to be accepted.
\<close>

section \<open>Steps\<close>

datatype event =
    EvControl tick control_request control_response
  | EvMcp tick json json
  | EvSubscribe
  | EvDisconnect nat

fun event_now :: "event \<Rightarrow> timestamp option" where
  "event_now (EvControl tk req resp) = Some (tk_now tk)"
| "event_now (EvMcp tk req resp) = Some (tk_now tk)"
| "event_now EvSubscribe = None"
| "event_now (EvDisconnect i) = None"

inductive broker_step ::
  "('k, 'c, 's) libs \<Rightarrow> string \<Rightarrow> ('k, 'c, 's) broker \<Rightarrow> event \<Rightarrow> ('k, 'c, 's) broker \<Rightarrow> bool"
  for lb :: "('k, 'c, 's) libs" and version :: string where
  control: "handle_control lb tk req b = (resp, b') \<Longrightarrow> broker_step lb version b (EvControl tk req resp) b'"
| mcp: "handle_mcp lb version tk req client b = (resp, b') \<Longrightarrow> broker_step lb version b (EvMcp tk req resp) b'"
| subscribe: "broker_step lb version b EvSubscribe (b\<lparr>bk_notifier := subscribe (bk_notifier b)\<rparr>)"
| disconnect: "i < length (guarded (bk_notifier b)) \<Longrightarrow>
    broker_step lb version b (EvDisconnect i)
      (b\<lparr>bk_notifier := put (bk_notifier b)
           ((guarded (bk_notifier b))[i := (guarded (bk_notifier b) ! i)\<lparr>tx_live := False\<rparr>])\<rparr>)"

inductive_cases broker_step_controlE: "broker_step lb version b (EvControl tk req resp) b'"

text \<open>The clock is monotonic: no instant of the run is later than the next event's.\<close>

definition in_order :: "event list \<Rightarrow> event \<Rightarrow> bool" where
  "in_order tr ev \<longleftrightarrow>
     (case event_now ev of
        None \<Rightarrow> True
      | Some now \<Rightarrow> list_all (\<lambda>e. case event_now e of None \<Rightarrow> True | Some t \<Rightarrow> t \<le> now) tr)"

inductive broker_run ::
  "('k, 'c, 's) libs \<Rightarrow> string \<Rightarrow> ('k, 'c, 's) broker \<Rightarrow> event list \<Rightarrow> ('k, 'c, 's) broker \<Rightarrow> bool"
  for lb :: "('k, 'c, 's) libs" and version :: string and b0 :: "('k, 'c, 's) broker" where
  start: "broker_run lb version b0 [] b0"
| extend: "broker_run lb version b0 tr b \<Longrightarrow> in_order tr ev \<Longrightarrow> broker_step lb version b ev b' \<Longrightarrow>
    broker_run lb version b0 (tr @ [ev]) b'"

text \<open>A step as a transition of the abstract machine.\<close>

lemma step_refines:
  assumes "broker_step lb version b ev b'"
  shows "(\<exists>now external args. agg_step (lib_host lb) now (agg_of b) (LCall external args) (agg_of b'))
    \<or> agg_of b' = agg_of b
    \<or> (\<exists>tk req resp lbl. ev = EvControl tk req resp \<and> handle_control lb tk req b = (resp, b')
         \<and> agg_step (lib_host lb) (tk_now tk) (agg_of b) lbl (agg_of b') \<and> label_allowed lb tk b req lbl)"
  using assms
proof (cases rule: broker_step.cases)
  case (control tk req resp)
  then show ?thesis using control_refines by blast
next
  case (mcp tk req client resp)
  then show ?thesis using mcp_refines [of lb version tk req client b resp b'] by blast
qed simp_all

lemma step_agg_ok:
  assumes "broker_step lb version b ev b'" and "agg_ok (agg_of b)"
  shows "agg_ok (agg_of b') \<and> ag_manifest (agg_of b') = ag_manifest (agg_of b)"
  using step_refines [OF assms(1)] assms(2) by (metis agg_step_manifest agg_step_ok)

section \<open>The other components of the state\<close>

lemma control_registry: "handle_control lb tk req b = (resp, b') \<Longrightarrow> bk_registry b' = bk_registry b"
proof -
  have iss: "issue_nonce tk client p b = (resp, b') \<Longrightarrow> bk_registry b' = bk_registry b" for client p
    by (cases rule: issue_nonce_cases [of tk client p b]) auto
  have req: "request_elevation tk client sid m ttl b = (resp, b') \<Longrightarrow> bk_registry b' = bk_registry b"
    for client sid m ttl
    by (cases rule: request_elevation_cases [of tk client sid m ttl b]) (auto dest: iss)
  have ele: "apply_elevation lb tk client sid e b1 = (resp, b') \<Longrightarrow> bk_registry b' = bk_registry b1" for client sid e b1
    by (cases rule: apply_elevation_cases [of lb tk client sid e b1]) auto
  have con: "apply_confirm lb tk sid tool b1 = (resp, b') \<Longrightarrow> bk_registry b' = bk_registry b1" for sid tool b1
    by (cases rule: apply_confirm_cases [of lb tk sid tool b1]) auto
  have sub: "submit lb tk client nh sh b = (resp, b') \<Longrightarrow> bk_registry b' = bk_registry b" for client nh sh
    by (cases rule: submit_cases [of lb tk client nh sh b]) (auto dest: ele con)
  have rev: "revoke lb tk sid b = (resp, b') \<Longrightarrow> bk_registry b' = bk_registry b" for sid
    by (cases rule: revoke_cases [of lb tk sid b]) auto
  have lif: "lifecycle lb tk op sid b = (resp, b') \<Longrightarrow> bk_registry b' = bk_registry b" for op sid
    by (cases rule: lifecycle_cases [of lb tk op sid b]) auto
  assume "handle_control lb tk req b = (resp, b')"
  then show ?thesis by (cases req) (auto simp: request_confirm_def intro: iss req sub rev lif)
qed

lemma step_registry: "broker_step lb version b ev b' \<Longrightarrow> bk_registry b' = bk_registry b"
  by (cases rule: broker_step.cases) (auto dest: control_registry mcp_frame)

text \<open>Only a submission takes nonces out, and only a request for one puts one in.\<close>

definition requested :: "control_request \<Rightarrow> string \<Rightarrow> purpose \<Rightarrow> bool" where
  "requested req client p \<longleftrightarrow>
     (case p of
        Elevate sid (ReqDuration ttl) \<Rightarrow> req = CRequestElevation client sid ''duration'' (Some ttl)
      | Elevate sid ReqUntilRevoked \<Rightarrow> (\<exists>ttl. req = CRequestElevation client sid ''until_revoked'' ttl)
      | ConfirmTool sid tool \<Rightarrow> req = CRequestConfirm client sid tool)"

lemma request_elevation_requested:
  obtains (failed) m' where "request_elevation tk client sid m ttl b = (RError m', b)"
  | (issuing) p where "request_elevation tk client sid m ttl b = issue_nonce tk client p b"
      "requested (CRequestElevation client sid m ttl) client p"
  by (cases "m = ''duration''"; cases "m = ''until_revoked''"; cases ttl)
    (auto simp: request_elevation_def err_def requested_def split: purpose.splits requested_mode.splits)

text \<open>How one control request changes the nonce store.\<close>

lemma control_nonces:
  assumes h: "handle_control lb tk req b = (resp, b')"
  shows "(nonces_of b' = nonces_of b \<and> (\<forall>x. resp \<noteq> RNonce x))
    \<or> (nonces_of b' = nonces_prune (tk_now tk) (nonces_of b) \<and> (\<forall>x. resp \<noteq> RNonce x) \<and> (\<forall>m. resp \<noteq> RDone m))
    \<or> (\<exists>client p n. requested req client p \<and> resp = RNonce (nonce_to_hex n)
         \<and> issue (nonces_of b) client p (tk_now tk) (tk_random tk) = (Ok n, nonces_of b'))
    \<or> (\<exists>client n sig r. submission req client n sig
         \<and> verify_and_consume (lib_crypto lb) (nonces_of b) client n sig (bk_registry b) (tk_now tk) = (r, nonces_of b')
         \<and> (\<forall>x. resp \<noteq> RNonce x) \<and> ((\<exists>m. resp = RDone m) \<longrightarrow> is_ok r))"
    (is "?same \<or> ?pruned \<or> ?issued \<or> ?verified")
proof -
  have iss: "?same \<or> ?pruned \<or> ?issued" if "issue_nonce tk client p b = (resp, b')" "requested req client p" for client p
  proof (cases rule: issue_nonce_cases [of tk client p b])
    case (failed m)
    with that show ?thesis by auto
  next
    case (refused st m st')
    with that show ?thesis by (auto simp: lock_guarded)
  next
    case (issued st n st')
    with that have ?issued
      by (intro exI [of _ client] exI [of _ p] exI [of _ n]) (auto simp: lock_guarded)
    then show ?thesis by blast
  qed
  have ele: "nonces_of b' = nonces_of b1 \<and> (\<forall>x. resp \<noteq> RNonce x)"
    if "apply_elevation lb tk client sid e b1 = (resp, b')" for client sid e b1
    using that by (cases rule: apply_elevation_cases [of lb tk client sid e b1]) auto
  have con: "nonces_of b' = nonces_of b1 \<and> (\<forall>x. resp \<noteq> RNonce x)"
    if "apply_confirm lb tk sid tool b1 = (resp, b')" for sid tool b1
    using that by (cases rule: apply_confirm_cases [of lb tk sid tool b1]) auto
  have sub: "?same \<or> ?verified" if s: "submit lb tk client nh sh b = (resp, b')"
    and r: "req = CSubmitElevation client nh sh \<or> req = CSubmitConfirm client nh sh" for client nh sh
  proof (cases rule: submit_cases [of lb tk client nh sh b])
    case (early m)
    with s show ?thesis by auto
  next
    case (denied n sig st e st')
    then have "submission req client n sig" using r by (auto simp: submission_def)
    then have ?verified using s denied
      by (intro exI [of _ client] exI [of _ n] exI [of _ sig] exI [of _ "Err e"])
        (auto simp: lock_guarded reject_def err_def)
    then show ?thesis by blast
  next
    case (elevated n sig st sid e st')
    then have "submission req client n sig" using r by (auto simp: submission_def)
    then have ?verified using ele s elevated
      by (intro exI [of _ client] exI [of _ n] exI [of _ sig] exI [of _ "Ok (VElevation sid e)"])
        (fastforce simp: lock_guarded)
    then show ?thesis by blast
  next
    case (confirmed n sig st sid tool st')
    then have "submission req client n sig" using r by (auto simp: submission_def)
    then have ?verified using con s confirmed
      by (intro exI [of _ client] exI [of _ n] exI [of _ sig] exI [of _ "Ok (VConfirm sid tool)"])
        (fastforce simp: lock_guarded)
    then show ?thesis by blast
  qed
  have lif: ?same if "lifecycle lb tk op sid b = (resp, b')" for op sid
    using that by (cases rule: lifecycle_cases [of lb tk op sid b]) auto
  have rev: ?same if "revoke lb tk sid b = (resp, b')" for sid
    using that by (cases rule: revoke_cases [of lb tk sid b]) auto
  show ?thesis
  proof (cases req)
    case CStatus
    with h show ?thesis by (auto simp: status_def internal_error_def split: option.splits)
  next
    case CList
    with h show ?thesis by (auto simp: list_tool_names_def internal_error_def split: option.splits)
  next
    case (CLogs l)
    with h show ?thesis by (auto simp: logs_def internal_error_def Let_def split: option.splits)
  next
    case (CRequestElevation client sid m ttl)
    then have s: "request_elevation tk client sid m ttl b = (resp, b')" using h by simp
    show ?thesis
    proof (cases rule: request_elevation_requested [of tk client sid m ttl b])
      case (failed m')
      with s show ?thesis by auto
    next
      case (issuing p)
      then have "issue_nonce tk client p b = (resp, b')" "requested req client p"
        using s CRequestElevation by simp_all
      from iss [OF this] show ?thesis by blast
    qed
  next
    case (CRequestConfirm client sid tool)
    then have "issue_nonce tk client (ConfirmTool sid tool) b = (resp, b')"
      "requested req client (ConfirmTool sid tool)"
      using h by (simp_all add: request_confirm_def requested_def)
    from iss [OF this] show ?thesis by blast
  next
    case (CSubmitElevation client nh sh)
    then have "submit lb tk client nh sh b = (resp, b')" using h by simp
    from sub [OF this] CSubmitElevation show ?thesis by blast
  next
    case (CSubmitConfirm client nh sh)
    then have "submit lb tk client nh sh b = (resp, b')" using h by simp
    from sub [OF this] CSubmitConfirm show ?thesis by blast
  qed (use h lif rev in auto)
qed

section \<open>What a run must contain\<close>

text \<open>The trace shows that this nonce was issued to this client for this purpose.\<close>

definition issued :: "event list \<Rightarrow> string \<Rightarrow> purpose \<Rightarrow> nonce \<Rightarrow> bool" where
  "issued tr client p n \<longleftrightarrow>
     (\<exists>tk req. EvControl tk req (RNonce (nonce_to_hex n)) \<in> set tr \<and> requested req client p)"

text \<open>
  The trace contains, at instant \<open>now\<close>, a submission whose signature verifies under the client's
  registered key over the challenge of this nonce, client and purpose, and before it the issue
  of the nonce for them.
\<close>

definition authorised ::
  "('k, 'c, 's) libs \<Rightarrow> 'k client_registry \<Rightarrow> event list \<Rightarrow> string \<Rightarrow> nonce \<Rightarrow> purpose \<Rightarrow> timestamp \<Rightarrow> bool" where
  "authorised lb reg tr client n p now \<longleftrightarrow>
     (\<exists>pre tk req resp post sig key.
        tr = pre @ EvControl tk req resp # post \<and> issued pre client p n \<and> tk_now tk = now
        \<and> submission req client n sig \<and> registry_key reg client = Some key
        \<and> length sig = signature_length
        \<and> verify_strict (lib_crypto lb) key (challenge_message (print_doc (lib_crypto lb)) n client p) sig)"

lemma issued_extend: "issued tr client p n \<Longrightarrow> issued (tr @ evs) client p n"
  by (auto simp: issued_def)

lemma authorised_extend: "authorised lb reg tr client n p now \<Longrightarrow> authorised lb reg (tr @ evs) client n p now"
  unfolding authorised_def by (metis append.assoc append_Cons)

text \<open>Every pending nonce was issued in the trace.\<close>

definition pending_issued :: "event list \<Rightarrow> nonce_store \<Rightarrow> bool" where
  "pending_issued tr st \<longleftrightarrow> (\<forall>pd \<in> set st. issued tr (pd_client pd) (pd_purpose pd) (pd_nonce pd))"

lemma step_pending:
  assumes "broker_step lb version b ev b'" and "pending_issued tr (nonces_of b)"
  shows "pending_issued (tr @ [ev]) (nonces_of b')"
proof -
  have keep: "pending_issued (tr @ [ev]) st" if "set st \<subseteq> set (nonces_of b)" for st
    using assms(2) that by (auto simp: pending_issued_def intro!: issued_extend)
  show ?thesis
    using assms(1)
  proof (cases rule: broker_step.cases)
    case (control tk req resp)
    from control_nonces [OF control(2)] show ?thesis
    proof (elim disjE exE conjE)
      fix client p n
      assume iss: "requested req client p" "resp = RNonce (nonce_to_hex n)"
        "issue (nonces_of b) client p (tk_now tk) (tk_random tk) = (Ok n, nonces_of b')"
      have "issued (tr @ [ev]) client p n" using iss control(1) by (auto simp: issued_def)
      moreover have "pending_issued (tr @ [ev]) (nonces_prune (tk_now tk) (nonces_of b))"
        using nonces.prune_subset by (rule keep)
      ultimately show ?thesis using issue_ok [OF iss(3)] by (auto simp: pending_issued_def)
    next
      fix client n sig r
      assume "verify_and_consume (lib_crypto lb) (nonces_of b) client n sig (bk_registry b) (tk_now tk)
        = (r, nonces_of b')"
      then have "set (nonces_of b') \<subseteq> set (nonces_of b)"
        using verify_shrinks [of "lib_crypto lb" "nonces_of b" client n sig "bk_registry b" "tk_now tk"] by simp
      then show ?thesis by (rule keep)
    qed (simp_all add: keep nonces.prune_subset)
  next
    case (mcp tk req client resp)
    then show ?thesis using mcp_frame [OF mcp(2)] by (intro keep) simp
  qed (use keep [of "nonces_of b"] in simp_all)
qed

text \<open>A grant or an approval is authorised by the step that makes it.\<close>

lemma label_authorised:
  assumes "label_allowed lb tk b req lbl" and "pending_issued tr (nonces_of b)"
    and "(\<exists>sid e. lbl = LGrant sid e) \<or> (\<exists>sid tool. lbl = LApprove sid tool)"
  shows "\<exists>client n p. authorised lb (bk_registry b) (tr @ [EvControl tk req resp]) client n p (tk_now tk)
    \<and> lbl = label_of p (tk_now tk)"
proof -
  from assms(1,3) obtain client n sig p where s: "submission req client n sig"
    "signed_off lb tk b client n sig p" "lbl = label_of p (tk_now tk)"
    by (auto simp: label_allowed_def)
  from s(2) obtain pd key where pd: "pd \<in> set (nonces_of b)" "pd_nonce pd = n" "pd_client pd = client"
    "pd_purpose pd = p" "registry_key (bk_registry b) client = Some key" "length sig = signature_length"
    "verify_strict (lib_crypto lb) key (challenge_message (print_doc (lib_crypto lb)) n client p) sig"
    unfolding signed_off_def by blast
  then have "issued tr client p n" using assms(2) by (auto simp: pending_issued_def)
  then have "authorised lb (bk_registry b) (tr @ [EvControl tk req resp]) client n p (tk_now tk)"
    unfolding authorised_def using s(1) pd by blast
  with s(3) show ?thesis by blast
qed

section \<open>Reachable states\<close>

definition elevations_authorised ::
  "('k, 'c, 's) libs \<Rightarrow> event list \<Rightarrow> ('k, 'c, 's) broker \<Rightarrow> bool" where
  "elevations_authorised lb tr b \<longleftrightarrow> grants_covered (authorised lb (bk_registry b) tr) (agg_of b)"

definition approvals_authorised ::
  "('k, 'c, 's) libs \<Rightarrow> event list \<Rightarrow> ('k, 'c, 's) broker \<Rightarrow> bool" where
  "approvals_authorised lb tr b \<longleftrightarrow> approvals_covered (authorised lb (bk_registry b) tr) (agg_of b)"

lemma step_authorised:
  assumes st: "broker_step lb version b ev b'" and pend: "pending_issued tr (nonces_of b)"
    and el: "elevations_authorised lb tr b" and ap: "approvals_authorised lb tr b"
  shows "elevations_authorised lb (tr @ [ev]) b' \<and> approvals_authorised lb (tr @ [ev]) b'"
proof -
  let ?A = "authorised lb (bk_registry b) (tr @ [ev])"
  have "grants_covered ?A (agg_of b)" "approvals_covered ?A (agg_of b)"
    using el ap unfolding elevations_authorised_def approvals_authorised_def
    by (auto elim!: grants_covered_mono approvals_covered_mono intro: authorised_extend)
  note keep = agg_step_covered [OF _ this]
  from step_refines [OF st] have "grants_covered ?A (agg_of b') \<and> approvals_covered ?A (agg_of b')"
  proof (elim disjE exE conjE)
    assume "agg_of b' = agg_of b"
    then have "agg_step (lib_host lb) 0 (agg_of b) LIdle (agg_of b')" by (simp add: agg_step_simps)
    then show ?thesis by (rule keep) simp
  next
    fix now external args
    assume "agg_step (lib_host lb) now (agg_of b) (LCall external args) (agg_of b')"
    then show ?thesis by (rule keep) simp
  next
    fix tk req resp lbl
    assume e: "ev = EvControl tk req resp" "label_allowed lb tk b req lbl"
      "agg_step (lib_host lb) (tk_now tk) (agg_of b) lbl (agg_of b')"
    from e(3) show ?thesis
      by (rule keep) (use label_authorised [OF e(2) pend] e(1) in \<open>auto elim: gains_cases\<close>)
  qed
  then show ?thesis
    unfolding elevations_authorised_def approvals_authorised_def step_registry [OF st] .
qed

lemma fresh_start:
  assumes "fresh_broker lb loaded b"
  shows "agg_ok (agg_of b) \<and> ag_manifest (agg_of b) = loaded \<and> unelevated (slots_of b)
    \<and> ag_confirmations (agg_of b) = [] \<and> nonces_of b = [] \<and> length (guarded (bk_log b)) \<le> max_log_entries
    \<and> length (ring (bk_audit b)) \<le> recent_cap"
proof -
  from assms obtain tk sp agg audit where m: "good_manifest (lm_manifest loaded)"
    and g: "build (lib_host lb) loaded sp = Ok agg" and r: "length (ring audit) \<le> recent_cap"
    and b: "b = handler_new tk (mutex_new agg) notifier_new (bk_registry b) audit"
    by (auto simp: fresh_broker_def)
  have "distinct (map srv_id (mf_servers (lm_manifest loaded)))" using m by (simp add: good_manifest_def)
  from build_cold [OF g this] r show ?thesis
    by (subst (1 2 3 4 5 6 7) b)
      (simp add: handler_new_def log_record_def nonces_new_def push_capped_room max_log_entries_def)
qed

text \<open>The invariant of every run, with what its trace must contain.\<close>

lemma run_invariant:
  assumes "broker_run lb version b0 tr b" and "fresh_broker lb loaded b0"
  shows "agg_ok (agg_of b) \<and> ag_manifest (agg_of b) = loaded \<and> bk_registry b = bk_registry b0
    \<and> pending_issued tr (nonces_of b) \<and> elevations_authorised lb tr b \<and> approvals_authorised lb tr b"
  using assms
proof (induction rule: broker_run.induct)
  case start
  from fresh_start [OF start] show ?case
    by (simp add: pending_issued_def elevations_authorised_def approvals_authorised_def covered_start)
next
  case (extend tr b ev b')
  with step_agg_ok [OF extend(3)] step_registry [OF extend(3)] step_pending [OF extend(3)]
    step_authorised [OF extend(3)] show ?case by simp
qed

section \<open>Counting nonces\<close>

text \<open>Submissions of this nonce by this client that were accepted, and issues of it to this client.\<close>

definition accepts :: "string \<Rightarrow> nonce \<Rightarrow> event \<Rightarrow> bool" where
  "accepts client n ev \<longleftrightarrow>
     (\<exists>tk req m sig. ev = EvControl tk req (RDone m) \<and> submission req client n sig)"

definition issues :: "string \<Rightarrow> nonce \<Rightarrow> event \<Rightarrow> bool" where
  "issues client n ev \<longleftrightarrow>
     (\<exists>tk req p. ev = EvControl tk req (RNonce (nonce_to_hex n)) \<and> requested req client p)"

definition outstanding_nonces :: "string \<Rightarrow> nonce \<Rightarrow> nonce_store \<Rightarrow> nat" where
  "outstanding_nonces client n st = size (filter_mset (pending_for (n, client)) (mset st))"

lemma submission_unique:
  "submission req c n sig \<Longrightarrow> submission req c' n' sig' \<Longrightarrow> c = c' \<and> n = n' \<and> sig = sig'"
  by (auto simp: submission_def)

lemma requested_unique: "requested req c p \<Longrightarrow> requested req c' p' \<Longrightarrow> c = c' \<and> p = p'"
  by (auto simp: requested_def split: purpose.splits requested_mode.splits)

lemma requested_not_submission: "requested req c p \<Longrightarrow> \<not> submission req c' n sig"
  by (auto simp: requested_def submission_def split: purpose.splits requested_mode.splits)

lemma accepts_control [simp]:
  "accepts client n (EvControl tk req resp) \<longleftrightarrow>
     (\<exists>m. resp = RDone m) \<and> (\<exists>sig. submission req client n sig)"
  by (auto simp: accepts_def)

lemma issues_control [simp]:
  "issues client n (EvControl tk req resp) \<longleftrightarrow>
     resp = RNonce (nonce_to_hex n) \<and> (\<exists>p. requested req client p)"
  by (auto simp: issues_def)

lemma accepts_issues_other [simp]:
  "\<not> accepts client n (EvMcp tk req' out)" "\<not> accepts client n EvSubscribe" "\<not> accepts client n (EvDisconnect i)"
  "\<not> issues client n (EvMcp tk req' out)" "\<not> issues client n EvSubscribe" "\<not> issues client n (EvDisconnect i)"
  by (auto simp: accepts_def issues_def)

lemma verify_outstanding:
  assumes "verify_and_consume cr st client n sig reg now = (r, st')"
  shows "outstanding_nonces c k st' + (if is_ok r \<and> c = client \<and> k = n then 1 else 0) \<le> outstanding_nonces c k st"
proof (cases "take_first (pending_for (n, client)) st")
  case None
  with assms verify_spends [OF assms] show ?thesis by (auto simp: outstanding_nonces_def)
next
  case (Some x)
  with verify_spends [OF assms] obtain p where t: "take_first (pending_for (n, client)) st = Some (p, st')"
    by auto
  have "mset st = add_mset p (mset st')" by (rule nonces.spend_mset [OF t])
  moreover have "pending_for (n, client) p" using nonces.spend_usable [OF t] by simp
  ultimately show ?thesis by (auto simp: outstanding_nonces_def pending_for_def)
qed

text \<open>One step: what is outstanding grows only with an issue and pays for every acceptance.\<close>

lemma step_outstanding:
  assumes "broker_step lb version b ev b'"
  shows "outstanding_nonces c k (nonces_of b') + (if accepts c k ev then 1 else 0)
    \<le> outstanding_nonces c k (nonces_of b) + (if issues c k ev then 1 else 0)"
  using assms
proof (cases rule: broker_step.cases)
  case (control tk req resp)
  have prune: "outstanding_nonces c k (nonces_prune (tk_now tk) st) \<le> outstanding_nonces c k st" for st
    unfolding outstanding_nonces_def by (rule nonces.prune_count)
  from control_nonces [OF control(2)] show ?thesis
  proof (elim disjE exE conjE)
    assume same: "nonces_of b' = nonces_of b" "\<forall>x. resp \<noteq> RNonce x"
    show ?thesis
    proof (cases "accepts c k ev")
      case True
      then obtain m sig where a: "resp = RDone m" "submission req c k sig" using control(1) by auto
      then obtain nh sh where r: "req = CSubmitElevation c nh sh \<or> req = CSubmitConfirm c nh sh"
        "nonce_from_hex nh = Some k" "decode_hex sh = Some sig"
        by (auto simp: submission_def)
      then have "submit lb tk c nh sh b = (RDone m, b')" using control(2) a by auto
      then obtain st v where v: "verify_and_consume (lib_crypto lb) (nonces_of b) c k sig (bk_registry b) (tk_now tk)
          = (Ok v, nonces_of b')"
      proof (cases rule: submit_cases [of lb tk c nh sh b])
        case (elevated n sig' st sid e st')
        then have "nonces_of b' = st'"
          using \<open>submit lb tk c nh sh b = (RDone m, b')\<close>
          by (cases rule: apply_elevation_cases [of lb tk c sid e "b\<lparr>bk_nonces := put (bk_nonces b) st'\<rparr>"]) auto
        with elevated r that show ?thesis by (auto simp: lock_guarded)
      next
        case (confirmed n sig' st sid tool st')
        then have "nonces_of b' = st'"
          using \<open>submit lb tk c nh sh b = (RDone m, b')\<close>
          by (cases rule: apply_confirm_cases [of lb tk sid tool "b\<lparr>bk_nonces := put (bk_nonces b) st'\<rparr>"]) auto
        with confirmed r that show ?thesis by (auto simp: lock_guarded)
      qed (auto simp: reject_def err_def)
      from verify_outstanding [OF v, of c k] show ?thesis by simp
    qed (simp add: same)
  next
    assume "nonces_of b' = nonces_prune (tk_now tk) (nonces_of b)" "\<forall>m. resp \<noteq> RDone m"
    then show ?thesis using prune [of "nonces_of b"] control(1) by simp
  next
    fix client p n
    assume i: "requested req client p" "resp = RNonce (nonce_to_hex n)"
      "issue (nonces_of b) client p (tk_now tk) (tk_random tk) = (Ok n, nonces_of b')"
    have "outstanding_nonces c k (nonces_of b') =
        outstanding_nonces c k (nonces_prune (tk_now tk) (nonces_of b)) + (if c = client \<and> k = n then 1 else 0)"
      using issue_ok [OF i(3)] by (auto simp: outstanding_nonces_def pending_for_def)
    moreover have "issues c k ev \<longleftrightarrow> c = client \<and> k = n"
      using i control(1) by (auto simp: nonce_to_hex_inj dest: requested_unique)
    ultimately show ?thesis using prune [of "nonces_of b"] i(2) control(1) by simp
  next
    fix client n sig r
    assume v: "submission req client n sig"
      "verify_and_consume (lib_crypto lb) (nonces_of b) client n sig (bk_registry b) (tk_now tk) = (r, nonces_of b')"
      "(\<exists>m. resp = RDone m) \<longrightarrow> is_ok r"
    have imp: "is_ok r \<and> c = client \<and> k = n" if acc: "accepts c k ev"
    proof -
      from acc control(1) obtain m sig' where "resp = RDone m" "submission req c k sig'" by auto
      with v(3) submission_unique [OF v(1)] show ?thesis by blast
    qed
    have "outstanding_nonces c k (nonces_of b') + (if accepts c k ev then 1 else 0)
        \<le> outstanding_nonces c k (nonces_of b') + (if is_ok r \<and> c = client \<and> k = n then 1 else 0)"
    proof (cases "accepts c k ev")
      case True
      from imp [OF this] show ?thesis by simp
    next
      case False
      then show ?thesis by simp
    qed
    also have "\<dots> \<le> outstanding_nonces c k (nonces_of b)" by (rule verify_outstanding [OF v(2)])
    finally show ?thesis by (rule trans_le_add1)
  qed
next
  case (mcp tk req client resp)
  then show ?thesis using mcp_frame [OF mcp(2)] by simp
qed simp_all

lemma run_outstanding:
  assumes "broker_run lb version b0 tr b" and "fresh_broker lb loaded b0"
  shows "length (filter (accepts c k) tr) + outstanding_nonces c k (nonces_of b) \<le> length (filter (issues c k) tr)"
  using assms
proof (induction rule: broker_run.induct)
  case start
  then show ?case using fresh_start [OF start] by (simp add: outstanding_nonces_def)
next
  case (extend tr b ev b')
  from step_outstanding [OF extend(3), of c k] extend show ?case by auto
qed

section \<open>Bounded resources and the tape\<close>

text \<open>A control request writes at most one line to the log ring and one to the tape.\<close>

lemma log_record_length:
  "length (guarded (bk_log b)) \<le> max_log_entries \<Longrightarrow> length (guarded (bk_log (log_record tk m b))) \<le> max_log_entries"
  by (cases "bk_log b") (simp add: log_record_def length_push_capped)

definition tape_step :: "('k, 'c, 's) libs \<Rightarrow> audit_log \<Rightarrow> audit_log \<Rightarrow> bool" where
  "tape_step lb log log' \<longleftrightarrow>
     log' = log \<or> (\<exists>wall io ev. log' = audit_record (lib_entry lb) wall io ev log)"

lemma tape_step_record [simp]: "tape_step lb log (audit_record (lib_entry lb) wall io ev log)"
  unfolding tape_step_def by blast

lemma tape_step_refl [simp]: "tape_step lb log log"
  by (simp add: tape_step_def)

lemma tape_step_append: "tape_step lb log log' \<Longrightarrow> \<exists>w. tape log' = tape log @ w"
  unfolding tape_step_def using tape_append_only by (metis append_Nil2)

lemma tape_step_ring: "tape_step lb log log' \<Longrightarrow> length (ring log) \<le> recent_cap \<Longrightarrow> length (ring log') \<le> recent_cap"
  unfolding tape_step_def using ring_bounded by blast

definition small_step :: "('k, 'c, 's) libs \<Rightarrow> ('k, 'c, 's) broker \<Rightarrow> ('k, 'c, 's) broker \<Rightarrow> bool" where
  "small_step lb b b' \<longleftrightarrow> tape_step lb (bk_audit b) (bk_audit b')
     \<and> (length (guarded (bk_log b)) \<le> max_log_entries \<longrightarrow> length (guarded (bk_log b')) \<le> max_log_entries)"

lemma small_step_refl [simp]: "small_step lb b b"
  by (simp add: small_step_def)

lemma control_small: "handle_control lb tk req b = (resp, b') \<Longrightarrow> small_step lb b b'"
proof -
  have iss: "issue_nonce tk client p b = (resp, b') \<Longrightarrow> small_step lb b b'" for client p
    by (cases rule: issue_nonce_cases [of tk client p b]) (auto simp: small_step_def)
  have req: "request_elevation tk client sid m ttl b = (resp, b') \<Longrightarrow> small_step lb b b'" for client sid m ttl
    by (cases rule: request_elevation_cases [of tk client sid m ttl b]) (auto dest: iss)
  have ele: "apply_elevation lb tk client sid e (b\<lparr>bk_nonces := x\<rparr>) = (resp, b') \<Longrightarrow> small_step lb b b'" for client sid e x
    by (cases rule: apply_elevation_cases [of lb tk client sid e "b\<lparr>bk_nonces := x\<rparr>"])
      (auto simp: small_step_def log_record_length)
  have con: "apply_confirm lb tk sid tool (b\<lparr>bk_nonces := x\<rparr>) = (resp, b') \<Longrightarrow> small_step lb b b'" for sid tool x
    by (cases rule: apply_confirm_cases [of lb tk sid tool "b\<lparr>bk_nonces := x\<rparr>"])
      (auto simp: small_step_def log_record_length)
  have sub: "submit lb tk client nh sh b = (resp, b') \<Longrightarrow> small_step lb b b'" for client nh sh
    by (cases rule: submit_cases [of lb tk client nh sh b])
      (auto dest: ele con simp: small_step_def log_record_length)
  have rev: "revoke lb tk sid b = (resp, b') \<Longrightarrow> small_step lb b b'" for sid
    by (cases rule: revoke_cases [of lb tk sid b]) (auto simp: small_step_def log_record_length)
  have lif: "lifecycle lb tk op sid b = (resp, b') \<Longrightarrow> small_step lb b b'" for op sid
    by (cases rule: lifecycle_cases [of lb tk op sid b]) (auto simp: small_step_def log_record_length)
  assume "handle_control lb tk req b = (resp, b')"
  then show ?thesis by (cases req) (auto simp: request_confirm_def intro: iss req sub rev lif)
qed

lemma mcp_small:
  assumes "handle_mcp lb version tk req client b = (resp, b')" shows "small_step lb b b'"
proof -
  have named: "tape_step lb (bk_audit b1) (bk_audit (tape_named lb tk ev name b1))" for ev name b1
    by (simp add: tape_named_def split: option.split)
  show ?thesis
    using assms named [of "b\<lparr>bk_agg := x\<rparr>" for x] mcp_frame [OF assms]
    by (auto simp: small_step_def handle_mcp_def handle_tools_call_def Let_def
        split: sum.splits prod.splits option.splits if_splits)
qed

lemma step_small: "broker_step lb version b ev b' \<Longrightarrow> small_step lb b b'"
proof (induction rule: broker_step.induct)
  case (control tk req b resp b')
  then show ?case by (rule control_small)
next
  case (mcp tk req client b resp b')
  then show ?case by (rule mcp_small)
qed (simp_all add: small_step_def)

lemma step_nonces_bounded:
  assumes "broker_step lb version b ev b'" and "length (nonces_of b) \<le> max_pending_nonces"
  shows "length (nonces_of b') \<le> max_pending_nonces"
  using assms(1)
proof (cases rule: broker_step.cases)
  case (control tk req resp)
  from control_nonces [OF control(2)] show ?thesis
  proof (elim disjE exE conjE)
    assume "nonces_of b' = nonces_prune (tk_now tk) (nonces_of b)"
    then show ?thesis using nonces.length_prune [of "tk_now tk" "nonces_of b"] assms(2) by simp
  next
    fix client p n
    assume "issue (nonces_of b) client p (tk_now tk) (tk_random tk) = (Ok n, nonces_of b')"
    from issue_bounded [OF assms(2), of client p "tk_now tk" "tk_random tk"] this show ?thesis by simp
  next
    fix client n sig r
    assume "verify_and_consume (lib_crypto lb) (nonces_of b) client n sig (bk_registry b) (tk_now tk) = (r, nonces_of b')"
    then show ?thesis using length_verify [of "lib_crypto lb" "nonces_of b" client n sig "bk_registry b" "tk_now tk"]
        assms(2) by simp
  qed (use assms(2) in simp)
next
  case (mcp tk req client resp)
  then show ?thesis using mcp_frame [OF mcp(2)] assms(2) by simp
qed (use assms(2) in simp_all)

lemma run_resources:
  assumes "broker_run lb version b0 tr b" and "fresh_broker lb loaded b0"
  shows "length (nonces_of b) \<le> max_pending_nonces \<and> length (guarded (bk_log b)) \<le> max_log_entries
    \<and> length (ring (bk_audit b)) \<le> recent_cap \<and> (\<exists>w. tape (bk_audit b) = tape (bk_audit b0) @ w)"
  using assms
proof (induction rule: broker_run.induct)
  case start
  from fresh_start [OF start] show ?case by (simp add: max_pending_nonces_def)
next
  case (extend tr b ev b')
  then have "small_step lb b b'" by (intro step_small)
  then have s: "tape_step lb (bk_audit b) (bk_audit b')" "length (guarded (bk_log b')) \<le> max_log_entries"
    using extend by (auto simp: small_step_def)
  obtain w where "tape (bk_audit b') = tape (bk_audit b) @ w" using tape_step_append [OF s(1)] by blast
  with s extend step_nonces_bounded [OF extend(3)] tape_step_ring [OF s(1)] show ?case by auto
qed

end
