(* ===== verification/AggregatorProps.thy ===== *)
theory AggregatorProps
  imports AggregatorFacts
begin

text \<open>
  The properties of the aggregator, each over the definitions of \<open>Aggregator\<close>, and a concrete
  broker (one server with a read, a write and a confirm tool) on which they are exercised.
\<close>

section \<open>A concrete broker\<close>

text \<open>The child is the number of calls it still answers; after that it has exited.\<close>

definition demo_def :: "string \<Rightarrow> tool_def" where
  "demo_def n = \<lparr>td_name = n, td_definition = JObj [(''name'', JStr n)]\<rparr>"

definition demo_list :: "nat \<Rightarrow> (child_error + tool_def list) \<times> nat" where
  "demo_list c = (Ok (map demo_def [''search'', ''send'', ''purge'', ''new'']), c)"

definition demo_call :: "nat \<Rightarrow> string \<Rightarrow> json \<Rightarrow> (child_error + json) \<times> nat" where
  "demo_call c name args = (if c = 0 then (Err ChildExited, 0) else (Ok args, c - 1))"

definition demo_alive :: "nat \<Rightarrow> bool \<times> nat" where
  "demo_alive c = (c \<noteq> 0, c)"

definition demo_api :: "nat child_api" where
  "demo_api = \<lparr>api_list_tools = demo_list, api_call_tool = demo_call, api_is_alive = demo_alive\<rparr>"

definition demo_host :: "(nat, unit) host" where
  "demo_host = \<lparr>host_spawn = (\<lambda>srv sp. (Ok 1, ())), host_api = demo_api\<rparr>"

definition demo_server :: server_manifest where
  "demo_server = \<lparr>srv_id = ''mail'', srv_command = ''m'', srv_args = [], srv_env = [],
     srv_tools = [(''purge'', Confirm), (''search'', Read), (''send'', Write)]\<rparr>"

definition demo_loaded :: loaded_manifest where
  "demo_loaded = \<lparr>lm_manifest = \<lparr>mf_servers = [demo_server]\<rparr>, lm_integrity = []\<rparr>"

definition demo_slot :: server_slot where
  "demo_slot = new_running ''mail''
     [\<lparr>ct_name = ''search'', ct_class = Read\<rparr>, \<lparr>ct_name = ''send'', ct_class = Write\<rparr>,
      \<lparr>ct_name = ''purge'', ct_class = Confirm\<rparr>, \<lparr>ct_name = ''new'', ct_class = Write\<rparr>]"

definition demo_defs :: "json smap" where
  "demo_defs = [(''new'', JObj [(''name'', JStr ''new'')]), (''purge'', JObj [(''name'', JStr ''purge'')]),
     (''search'', JObj [(''name'', JStr ''search'')]), (''send'', JObj [(''name'', JStr ''send'')])]"

definition demo_agg :: "(nat, unit) aggregator" where
  "demo_agg = \<lparr>ag_manifest = demo_loaded, ag_spawner = (), ag_state = \<lparr>bs_servers = [demo_slot]\<rparr>,
     ag_children = [(''mail'', 1)], ag_tool_defs = [(''mail'', demo_defs)], ag_confirmations = []\<rparr>"

text \<open>The same broker with the server elevated until revoked and one approval of \<open>purge\<close>.\<close>

definition demo_elevated :: "(nat, unit) aggregator" where
  "demo_elevated = demo_agg\<lparr>ag_state := server_mut ''mail'' (grant_elevation (until_revoked 5)) (ag_state demo_agg),
     ag_confirmations := [\<lparr>cf_server = ''mail'', cf_tool = ''purge'', cf_approved_at = 7\<rparr>]\<rparr>"

lemmas demo_defs_all = demo_def_def demo_list_def demo_call_def demo_alive_def demo_api_def demo_host_def
  demo_server_def demo_loaded_def demo_slot_def demo_defs_def demo_agg_def demo_elevated_def

lemma demo_build: "build demo_host demo_loaded () = Ok demo_agg"
  by (simp add: demo_defs_all build_def spawn_and_classify_def namespace_sep_def
      classify_advertised_def classify_def new_running_def cold_start_def sm_collect_def Let_def)

lemma demo_distinct: "distinct (map srv_id (mf_servers (lm_manifest demo_loaded)))"
  by (simp add: demo_loaded_def)

lemma demo_agg_ok: "agg_ok demo_agg"
  using build_cold [OF demo_build demo_distinct] by simp

lemma demo_elevated_ok: "agg_ok demo_elevated"
  unfolding demo_elevated_def
  by (simp add: agg_ok_state [OF demo_agg_ok, of "grant_elevation (until_revoked 5)" "''mail''", simplified])

lemma demo_server_eq:
  "server (ag_state demo_agg) ''mail'' = Some demo_slot"
  "server (ag_state demo_elevated) ''mail'' = Some (grant_elevation (until_revoked 5) demo_slot)"
  by (simp_all add: demo_elevated_def server_server_mut) (simp_all add: demo_agg_def demo_slot_def server_def new_running_def)

lemma demo_exposed:
  "set (exposed (grant_elevation (until_revoked 5) demo_slot) now) = {''search'', ''send'', ''purge'', ''new''}"
  "set (exposed demo_slot now) = {''search''}"
  by (auto simp: set_exposed elevated_at_def demo_slot_def)

section \<open>Cold start\<close>

text \<open>A broker built from a manifest with distinct ids starts closed: no server is elevated, and at
  every instant each exposed tool is one the operator's manifest declares \<open>Read\<close> for that
  server, whatever the children advertise.\<close>

lemma cold_start_read_only:
  assumes "build h loaded sp = Ok a" and "distinct (map srv_id (mf_servers (lm_manifest loaded)))"
  shows "elevation_count (ag_state a) = 0
    \<and> (\<forall>slot \<in> set (bs_servers (ag_state a)). \<forall>now. \<forall>n \<in> set (exposed slot now).
         \<exists>srv. manifest_server (lm_manifest loaded) (slot_id slot) = Some srv
           \<and> sm_get (srv_tools srv) n = Some Read)"
proof -
  note cold = build_cold [OF assms]
  then have un: "unelevated (ag_state a)" and ok: "broker_ok (lm_manifest loaded) (ag_state a)"
    by (auto simp: agg_ok_def)
  have "\<exists>srv. manifest_server (lm_manifest loaded) (slot_id slot) = Some srv
      \<and> sm_get (srv_tools srv) n = Some Read"
    if slot: "slot \<in> set (bs_servers (ag_state a))" and n: "n \<in> set (exposed slot now)" for slot now n
  proof -
    from ok slot obtain srv names where srv: "manifest_server (lm_manifest loaded) (slot_id slot) = Some srv"
      "slot_tools slot = classify_advertised (srv_tools srv) names"
      by (auto simp: broker_ok_def slot_classified_def)
    from unelevated_exposed [OF un slot n] srv(2) have "is_read (ct_class (classify (srv_tools srv) n))"
      by (auto simp: set_classify_advertised)
    with srv show ?thesis by (simp add: classify_read_iff)
  qed
  with un show ?thesis by (simp add: unelevated_count)
qed

theorem cold_start_read_only_witness:
  "elevation_count (ag_state demo_agg) = 0
    \<and> (\<forall>slot \<in> set (bs_servers (ag_state demo_agg)). \<forall>now. \<forall>n \<in> set (exposed slot now).
         \<exists>srv. manifest_server (lm_manifest demo_loaded) (slot_id slot) = Some srv
           \<and> sm_get (srv_tools srv) n = Some Read)"
  by (rule cold_start_read_only [OF demo_build demo_distinct])

section \<open>The gate of a call\<close>

text \<open>C9: A call that reaches a child (it returns the child's value or the child's error, or changes any
  child) names a known server and a tool of it that is exposed at that instant; when the tool's
  class requires per-action presence, an unexpired confirmation for exactly that server and
  tool was outstanding.\<close>

theorem call_only_exposed:
  assumes "call api external args now a = (r, a')" and "reached r \<or> ag_children a' \<noteq> ag_children a"
  shows "\<exists>sid tool slot. external = external_name sid tool \<and> server (ag_state a) sid = Some slot
    \<and> tool \<in> set (exposed slot now)
    \<and> (needs_confirmation slot tool \<longrightarrow>
         (\<exists>c \<in> set (ag_confirmations a). confirmation_for (sid, tool) now c))"
  using call_reached [OF assms] by (auto simp: call_admitted_def)

lemma demo_needs:
  "needs_confirmation (grant_elevation (until_revoked 5) demo_slot) ''purge''"
  "\<not> needs_confirmation demo_slot ''search''"
  by (simp_all add: needs_confirmation_def demo_slot_def)

lemma demo_purge:
  "call demo_api ''mail.purge'' JNull 9 demo_elevated =
     (Ok JNull, demo_elevated\<lparr>ag_confirmations := [], ag_children := [(''mail'', 0)]\<rparr>)"
proof -
  have "split_once namespace_sep ''mail.purge'' = Some (''mail'', ''purge'')"
    by (simp add: namespace_sep_def)
  moreover have "take_first (confirmation_for (''mail'', ''purge'') 9) (ag_confirmations demo_elevated) =
      Some (\<lparr>cf_server = ''mail'', cf_tool = ''purge'', cf_approved_at = 7\<rparr>, [])"
    by (simp add: demo_elevated_def take_first_def confirmation_for_def confirmation_expired_def
        confirmation_ttl_secs_def sat_sub_def swap_remove_def)
  ultimately show ?thesis
    using demo_needs(1)
    by (simp add: call_def demo_server_eq demo_exposed needs_confirmation_def Let_def route_def)
      (simp add: demo_elevated_def demo_agg_def demo_api_def demo_call_def)
qed

theorem call_only_exposed_witness:
  "\<exists>sid tool slot. ''mail.purge'' = external_name sid tool \<and> server (ag_state demo_elevated) sid = Some slot
    \<and> tool \<in> set (exposed slot 9)"
proof -
  have "reached (Ok JNull)" by simp
  then show ?thesis using call_only_exposed [OF demo_purge] by blast
qed

section \<open>Single use\<close>

text \<open>A history of approvals and calls, and the calls of one tool that reached its child.\<close>

datatype ledger_step = Approve string string timestamp | Invoke string json timestamp

fun ledger_apply :: "'c child_api \<Rightarrow> ledger_step \<Rightarrow> ('c, 's) aggregator \<Rightarrow> ('c, 's) aggregator" where
  "ledger_apply api (Approve sid tool now) a = approve_action sid tool now a"
| "ledger_apply api (Invoke external args now) a = snd (call api external args now a)"

fun ledger_reached ::
  "'c child_api \<Rightarrow> string \<times> string \<Rightarrow> ledger_step list \<Rightarrow> ('c, 's) aggregator \<Rightarrow> nat" where
  "ledger_reached api q [] a = 0"
| "ledger_reached api q (st # sts) a =
     (case st of
        Approve sid tool now \<Rightarrow> 0
      | Invoke external args now \<Rightarrow>
          if external = external_name (fst q) (snd q) \<and> reached (fst (call api external args now a))
          then 1 else 0)
     + ledger_reached api q sts (ledger_apply api st a)"

fun ledger_approvals :: "string \<times> string \<Rightarrow> ledger_step list \<Rightarrow> nat" where
  "ledger_approvals q [] = 0"
| "ledger_approvals q (st # sts) =
     (case st of Approve sid tool now \<Rightarrow> if q = (sid, tool) then 1 else 0 | Invoke _ _ _ \<Rightarrow> 0)
     + ledger_approvals q sts"

definition guarded_tool :: "string \<times> string \<Rightarrow> ('c, 's) aggregator \<Rightarrow> bool" where
  "guarded_tool q a \<longleftrightarrow> (\<exists>slot. server (ag_state a) (fst q) = Some slot \<and> needs_confirmation slot (snd q))"

lemma guarded_ledger:
  assumes "guarded_tool q a" shows "guarded_tool q (ledger_apply api st a)"
proof (cases st)
  case (Approve sid tool now)
  with assms show ?thesis by (simp add: guarded_tool_def approve_action_def)
next
  case (Invoke external args now)
  have "guarded_tool q a'" if "ag_state a' = ag_state a \<or> (\<exists>sid. ag_state a' = server_mut sid close_slot (ag_state a))"
    for a' :: "('a, 'b) aggregator"
    using that assms by (auto simp: guarded_tool_def server_server_mut needs_confirmation_def)
  then show ?thesis using Invoke call_state [of api external args now a] by simp
qed

text \<open>C19: Confirmations are single-use: over any history of approvals and calls, a tool whose class requires
  per-action presence reaches its child at most as often as it was approved, counting the
  approvals outstanding at the beginning.\<close>

theorem confirm_ledger:
  assumes "guarded_tool q a" and "namespace_sep \<notin> set (fst q)"
  shows "ledger_reached api q sts a \<le> ledger_approvals q sts + outstanding q a"
  using assms(1)
proof (induction sts arbitrary: a)
  case Nil
  then show ?case by simp
next
  case (Cons st sts)
  note IH = Cons.IH [OF guarded_ledger [OF Cons.prems]]
  show ?case
  proof (cases st)
    case (Approve sid tool now)
    with IH [of api st] approve_outstanding [of q sid tool now a] show ?thesis by auto
  next
    case (Invoke external args now)
    from Cons.prems obtain slot where slot: "server (ag_state a) (fst q) = Some slot"
      "needs_confirmation slot (snd q)" by (auto simp: guarded_tool_def)
    show ?thesis
    proof (cases "external = external_name (fst q) (snd q) \<and> reached (fst (call api external args now a))")
      case True
      obtain r a' where c: "call api external args now a = (r, a')" by force
      with True call_spends [of api "fst q" "snd q" args now a r a' slot] slot assms(2)
      have "outstanding q a = Suc (outstanding q a')" by auto
      with IH [of api st] Invoke True c show ?thesis by simp
    next
      case False
      with IH [of api st] Invoke call_outstanding [of q api external args now a] show ?thesis by auto
    qed
  qed
qed

theorem confirm_ledger_witness:
  "ledger_reached demo_api (''mail'', ''purge'')
     [Invoke ''mail.purge'' JNull 9, Invoke ''mail.purge'' JNull 10] demo_elevated
   \<le> ledger_approvals (''mail'', ''purge'')
       [Invoke ''mail.purge'' JNull 9, Invoke ''mail.purge'' JNull 10]
     + outstanding (''mail'', ''purge'') demo_elevated"
  by (rule confirm_ledger) (auto simp: guarded_tool_def demo_server_eq demo_needs namespace_sep_def)

section \<open>The listing\<close>



section \<open>Faults\<close>

text \<open>C18: A call whose child has exited, failed its pipe or timed out fails closed before the error is
  returned: its server is stopped without elevation and exposes nothing at any instant, and
  every other server is as it was.\<close>

theorem fault_fails_closed:
  assumes "call api (external_name sid tool) args now a = (Err (AgChild ce), a')"
    and "child_gone ce" and "namespace_sep \<notin> set sid"
  shows "(\<exists>slot. server (ag_state a') sid = Some slot \<and> slot_state slot = Stopped
      \<and> slot_elevation slot = None \<and> (\<forall>later. exposed slot later = []))
    \<and> (\<forall>j. j \<noteq> sid \<longrightarrow> server (ag_state a') j = server (ag_state a) j)"
proof -
  from call_fault [OF assms(1,2)] obtain i t where "external_name sid tool = external_name i t"
    "namespace_sep \<notin> set i" "ag_state a' = server_mut i close_slot (ag_state a)"
    "server (ag_state a) i \<noteq> None" by blast
  with assms(3) show ?thesis by (auto simp: external_name_inj server_server_mut)
qed

lemma demo_crash:
  "call demo_api ''mail.search'' JNull 9 (demo_elevated\<lparr>ag_children := [(''mail'', 0)]\<rparr>) =
     (Err (AgChild ChildExited), demo_elevated\<lparr>ag_children := [(''mail'', 0)],
        ag_state := server_mut ''mail'' close_slot (ag_state demo_elevated)\<rparr>)"
proof -
  have "split_once namespace_sep ''mail.search'' = Some (''mail'', ''search'')"
    by (simp add: namespace_sep_def)
  moreover have "\<not> needs_confirmation (grant_elevation (until_revoked 5) demo_slot) ''search''"
    by (simp add: needs_confirmation_def demo_slot_def)
  ultimately show ?thesis
    by (simp add: call_def demo_server_eq demo_exposed needs_confirmation_def Let_def route_def
        demo_api_def demo_call_def)
qed

theorem fault_fails_closed_witness:
  "\<exists>slot. server (server_mut ''mail'' close_slot (ag_state demo_elevated)) ''mail'' = Some slot
     \<and> slot_state slot = Stopped \<and> slot_elevation slot = None \<and> (\<forall>later. exposed slot later = [])"
proof -
  have "''mail.search'' = external_name ''mail'' ''search''" by (simp add: external_name_def namespace_sep_def)
  from fault_fails_closed [OF demo_crash [unfolded this]] show ?thesis
    by (simp add: namespace_sep_def)
qed

text \<open>Reaping closes exactly the servers whose child is not alive: each of them is stopped, unelevated
  and exposes nothing, and every other server is untouched.\<close>

lemma reap_closes_dead:
  assumes "agg_ok a"
  shows "server (ag_state (reap_exited_children api a)) i =
    (if \<exists>child. sm_get (ag_children a) i = Some child \<and> \<not> fst (api_is_alive api child)
     then map_option (\<lambda>s. s\<lparr>slot_state := Stopped, slot_elevation := None\<rparr>) (server (ag_state a) i)
     else server (ag_state a) i)"
proof -
  have "close_slot = (\<lambda>s. s\<lparr>slot_state := Stopped, slot_elevation := None\<rparr>)"
    by (rule ext) (simp add: close_slot_def fail_closed_def set_slot_state_def)
  then show ?thesis
    using assms server_reap [of a api i] by (auto simp: agg_ok_def split: option.splits)
qed

theorem reap_closes_dead_witness:
  "server (ag_state (reap_exited_children demo_api demo_agg)) ''mail'' =
    (if \<exists>child. sm_get (ag_children demo_agg) ''mail'' = Some child \<and> \<not> fst (api_is_alive demo_api child)
     then map_option (\<lambda>s. s\<lparr>slot_state := Stopped, slot_elevation := None\<rparr>) (server (ag_state demo_agg) ''mail'')
     else server (ag_state demo_agg) ''mail'')"
  by (rule reap_closes_dead [OF demo_agg_ok])

section \<open>Lifecycle\<close>

text \<open>Pausing or stopping a known server succeeds, hides all of its tools at every instant and leaves
  every other server as it was; stopping also drops its child.\<close>

lemma pause_stop_expose_nothing:
  assumes "server (ag_state a) i = Some slot" and "sm_ok (ag_children a)"
  shows "fst (pause i a) = Ok () \<and> fst (stop i a) = Ok ()
    \<and> map_option (\<lambda>s. exposed s now) (server (ag_state (snd (pause i a))) i) = Some []
    \<and> map_option (\<lambda>s. exposed s now) (server (ag_state (snd (stop i a))) i) = Some []
    \<and> sm_get (ag_children (snd (stop i a))) i = None
    \<and> (\<forall>j. j \<noteq> i \<longrightarrow> server (ag_state (snd (pause i a))) j = server (ag_state a) j
         \<and> server (ag_state (snd (stop i a))) j = server (ag_state a) j)"
  using assms
  by (simp add: pause_def set_state_known stop_known server_server_mut sm.get_remove)

theorem pause_stop_expose_nothing_witness:
  "fst (pause ''mail'' demo_agg) = Ok () \<and> fst (stop ''mail'' demo_agg) = Ok ()
    \<and> map_option (\<lambda>s. exposed s 0) (server (ag_state (snd (pause ''mail'' demo_agg))) ''mail'') = Some []
    \<and> map_option (\<lambda>s. exposed s 0) (server (ag_state (snd (stop ''mail'' demo_agg))) ''mail'') = Some []
    \<and> sm_get (ag_children (snd (stop ''mail'' demo_agg))) ''mail'' = None
    \<and> server (ag_state (snd (pause ''mail'' demo_agg))) ''other'' = server (ag_state demo_agg) ''other''"
proof -
  have ok: "sm_ok (ag_children demo_agg)" by (simp add: demo_agg_def sm_ok_def)
  show ?thesis using pause_stop_expose_nothing [OF demo_server_eq(1) ok, of 0] by simp
qed

lemma start_result:
  assumes "agg_ok a" and "start h i a = (Ok (), a')"
  shows "\<exists>slot slot'. server (ag_state a) i = Some slot \<and> server (ag_state a') i = Some slot'
    \<and> slot_state slot' = Running \<and> slot_elevation slot' = slot_elevation slot
    \<and> (sm_contains (ag_children a) i \<and> slot_tools slot' = slot_tools slot
       \<or> (\<exists>srv names. manifest_server (lm_manifest (ag_manifest a)) i = Some srv
            \<and> slot_tools slot' = map (classify (srv_tools srv)) names))
    \<and> (unelevated (ag_state a) \<longrightarrow> unelevated (ag_state a'))"
proof -
  have known: "server (ag_state a) i \<noteq> None"
    using start_unknown [OF assms(1), of i h] assms(2) by auto
  have un: "unelevated (ag_state a) \<longrightarrow> unelevated (ag_state a')"
    using start.op_unelevated [OF assms(1), of h i] assms(2) by simp
  show ?thesis
  proof (cases rule: start_cases [of a i h])
    case (alive srv)
    then have "a' = snd (set_state i Running a)" using assms(2) by (metis snd_conv)
    then show ?thesis using known un alive by (auto simp: server_set_state)
  next
    case (spawned srv child classified defs sp)
    then have a': "a' = snd (set_state i Running (respawned i child classified defs sp a))"
      using assms(2) by (metis snd_conv)
    from spawn_and_classify_ok [OF spawned(3)] obtain names where
      "classified = map (classify (srv_tools srv)) names" by (auto simp: classify_advertised_def)
    with known un spawned(1) show ?thesis unfolding a' by (auto simp: server_set_state)
  qed (use assms in auto)
qed


lemma demo_start:
  "\<exists>a'. start demo_host ''mail'' (snd (stop ''mail'' demo_elevated)) = (Ok (), a')
     \<and> server (ag_state a') ''mail'' =
         Some (grant_elevation (until_revoked 5) demo_slot)"
proof -
  let ?a = "snd (stop ''mail'' demo_elevated)"
  have a: "ag_manifest ?a = demo_loaded" "ag_children ?a = []"
    "server (ag_state ?a) ''mail'' = Some (set_slot_state Stopped (grant_elevation (until_revoked 5) demo_slot))"
    by (simp_all add: stop_known demo_server_eq server_server_mut)
      (simp_all add: demo_elevated_def demo_agg_def)
  show ?thesis
    by (simp add: start_def a sm_contains_def manifest_server_def demo_loaded_def demo_server_def
        demo_host_def spawn_and_classify_def demo_api_def demo_list_def Let_def set_state_def
        server_server_mut classify_advertised_def classify_def demo_def_def)
      (simp add: set_tools_def set_slot_state_def grant_elevation_def demo_slot_def new_running_def)
qed




text \<open>After a crash the dead child stays registered, so a start does not spawn a new one: it
  succeeds and sets the server running with the dead child.\<close>

lemma start_after_crash_keeps_child:
  assumes "call api (external_name sid tool) args now a = (Err (AgChild ce), a')" and "child_gone ce"
    and "agg_ok a" and "namespace_sep \<notin> set sid"
  shows "\<exists>child. sm_get (ag_children a') sid = Some child
    \<and> fst (start h sid a') = Ok () \<and> ag_children (snd (start h sid a')) = ag_children a'
    \<and> ag_spawner (snd (start h sid a')) = ag_spawner a'"
proof -
  from call_fault [OF assms(1,2)] assms(4) have
    st: "ag_state a' = server_mut sid close_slot (ag_state a)" "server (ag_state a) sid \<noteq> None"
    by (auto simp: external_name_inj)
  have ok: "agg_ok a'" using agg_ok_call [OF assms(3), of api "external_name sid tool" args now] assms(1) by simp
  have srv: "server (ag_state a') sid \<noteq> None" using st by (simp add: server_server_mut)
  have child: "sm_get (ag_children a') sid \<noteq> None"
  proof (cases rule: call_cases [of api "external_name sid tool" args now a])
    case (refused e)
    with assms show ?thesis by auto
  next
    case (plain i t slot)
    then have "i = sid" using assms(4) by (auto simp: call_admitted_def external_name_inj)
    with plain assms(1) show ?thesis
      by (auto simp: route_def Let_def sm_get_update split: option.splits prod.splits sum.splits if_splits)
  next
    case (confirmed i t slot c cs)
    then have "i = sid" using assms(4) by (auto simp: call_admitted_def external_name_inj)
    with confirmed assms(1) show ?thesis
      by (auto simp: route_def Let_def sm_get_update split: option.splits prod.splits sum.splits if_splits)
  qed
  have "manifest_server (lm_manifest (ag_manifest a')) sid \<noteq> None"
    using ok srv unknown_server [of "lm_manifest (ag_manifest a')" "ag_state a'" sid] by (auto simp: agg_ok_def)
  with child have "start h sid a' = set_state sid Running a'"
    by (auto simp: start_running sm_contains_def)
  with child srv show ?thesis by (auto simp: set_state_def)
qed

theorem start_after_crash_keeps_child_witness:
  "\<exists>a'. fst (start demo_host ''mail'' a') = Ok ()
     \<and> ag_children (snd (start demo_host ''mail'' a')) = ag_children a'
     \<and> ag_children a' = [(''mail'', 0)]"
proof -
  have n: "''mail.search'' = external_name ''mail'' ''search''" by (simp add: external_name_def namespace_sep_def)
  have ok: "agg_ok (demo_elevated\<lparr>ag_children := [(''mail'', 0)]\<rparr>)"
    using demo_elevated_ok by (simp add: agg_ok_def sm_ok_def)
  show ?thesis
    using start_after_crash_keeps_child [OF demo_crash [unfolded n] _ ok, of demo_host]
    by (intro exI [of _ "demo_elevated\<lparr>ag_children := [(''mail'', 0)],
        ag_state := server_mut ''mail'' close_slot (ag_state demo_elevated)\<rparr>"]) (simp add: namespace_sep_def)
qed

end
