(* ===== verification/BrokerProps.thy ===== *)
theory BrokerProps
  imports BrokerRuns AggregatorProps
begin

text \<open>
  The properties of the running broker: what has to have happened before a write tool is
  exposed or a confirm tool runs, nonces that cannot be replayed, bounded resources, the tape,
  and the notifications. They are stated for every run from the state in which \<open>serve\<close> starts.
\<close>

section \<open>A concrete run\<close>

definition demo_libs :: "(unit, nat, unit) libs" where
  "demo_libs = \<lparr>lib_host = demo_host,
     lib_crypto = \<lparr>key_from_bytes = (\<lambda>bs. Some ()), verify_strict = (\<lambda>k m s. True), print_doc = (\<lambda>d. Some [])\<rparr>,
     lib_entry = (\<lambda>t e. Some ''e''), lib_text = (\<lambda>v. ''m'')\<rparr>"

definition demo_tick :: tick where
  "demo_tick = \<lparr>tk_now = 5, tk_log_now = 5, tk_wall = Some 9, tk_random = Some (replicate 32 7),
     tk_io = (None, None)\<rparr>"

definition demo_nonce :: nonce where "demo_nonce = Nonce (replicate 32 7)"

definition demo_signature :: "u8 list" where "demo_signature = replicate 64 1"

definition demo_b0 :: "(unit, nat, unit) broker" where
  "demo_b0 = handler_new demo_tick (mutex_new demo_agg) notifier_new [(''c'', ())] audit_in_memory"

text \<open>An elevation and a confirmation are requested and their signatures submitted, in turn.\<close>

definition demo_requests :: "control_request list" where
  "demo_requests =
     [CRequestElevation ''c'' ''mail'' ''until_revoked'' None,
      CSubmitElevation ''c'' (nonce_to_hex demo_nonce) (to_hex demo_signature),
      CRequestConfirm ''c'' ''mail'' ''purge'',
      CSubmitConfirm ''c'' (nonce_to_hex demo_nonce) (to_hex demo_signature)]"

fun play :: "control_request list \<Rightarrow> (unit, nat, unit) broker \<Rightarrow> event list \<times> (unit, nat, unit) broker" where
  "play [] b = ([], b)"
| "play (req # reqs) b =
     (let (resp, b') = handle_control demo_libs demo_tick req b; (evs, b'') = play reqs b'
      in (EvControl demo_tick req resp # evs, b''))"

lemma play_step: "handle_control demo_libs demo_tick req b = (resp, b') \<Longrightarrow>
    play (req # reqs) b = (EvControl demo_tick req resp # fst (play reqs b'), snd (play reqs b'))"
  by (simp add: split_def Let_def)

declare play.simps [simp del]

lemma play_Nil [simp]: "play [] b = ([], b)"
  by (simp add: play.simps)

lemma play_run:
  assumes "broker_run demo_libs v b0 tr b"
    and "\<forall>ev \<in> set tr. \<exists>req resp. ev = EvControl demo_tick req resp"
  shows "broker_run demo_libs v b0 (tr @ fst (play reqs b)) (snd (play reqs b))"
  using assms
proof (induction reqs arbitrary: tr b)
  case Nil
  then show ?case by simp
next
  case (Cons req reqs)
  obtain resp b' where h: "handle_control demo_libs demo_tick req b = (resp, b')" by force
  have "in_order tr (EvControl demo_tick req resp)"
    using Cons.prems(2) by (force simp: in_order_def list_all_iff)
  with Cons.prems(1) have "broker_run demo_libs v b0 (tr @ [EvControl demo_tick req resp]) b'"
    by (rule broker_run.extend) (rule broker_step.control [OF h])
  from Cons.IH [OF this] Cons.prems(2) show ?case by (simp add: play_step [OF h])
qed

lemma demo_good: "good_manifest (lm_manifest demo_loaded)"
  by (simp add: demo_loaded_def demo_server_def good_manifest_def good_server_def manifest_bounds
      sm_keys_def blank_def trim_def trim_end_def ws1_def ws2_def ws3_def)

lemma demo_fresh: "fresh_broker demo_libs demo_loaded demo_b0"
  unfolding fresh_broker_def
  using demo_good demo_build
  by (intro conjI exI [of _ demo_tick] exI [of _ "()"] exI [of _ demo_agg] exI [of _ audit_in_memory])
    (simp_all add: demo_b0_def demo_libs_def ring_def audit_in_memory_def)


text \<open>Each of the two round trips, on any broker without pending nonces.\<close>

lemma demo_issue:
  assumes "bk_nonces b = mutex_new []"
  shows "issue_nonce demo_tick ''c'' p b = (RNonce (nonce_to_hex demo_nonce),
    b\<lparr>bk_nonces := mutex_new [\<lparr>pd_nonce = demo_nonce, pd_client = ''c'', pd_purpose = p, pd_issued_at = 5\<rparr>]\<rparr>)"
  using assms
  by (simp add: issue_nonce_def issue_def demo_tick_def nonces_prune_def max_pending_nonces_def
      nonce_generate_def demo_nonce_def)

lemma demo_submit:
  assumes "bk_nonces b = mutex_new [\<lparr>pd_nonce = demo_nonce, pd_client = ''c'', pd_purpose = p, pd_issued_at = 5\<rparr>]"
    and "registry_key (bk_registry b) ''c'' = Some ()"
  shows "submit demo_libs demo_tick ''c'' (nonce_to_hex demo_nonce) (to_hex demo_signature) b =
    (case outcome p 5 of
       VElevation sid e \<Rightarrow> apply_elevation demo_libs demo_tick ''c'' sid e (b\<lparr>bk_nonces := mutex_new []\<rparr>)
     | VConfirm sid tool \<Rightarrow> apply_confirm demo_libs demo_tick sid tool (b\<lparr>bk_nonces := mutex_new []\<rparr>))"
proof -
  have "nonce_from_hex (nonce_to_hex demo_nonce) = Some demo_nonce"
    by (rule nonce_round_trip) (simp add: demo_nonce_def nonce_len_def)
  moreover have "decode_hex (to_hex demo_signature) = Some demo_signature" by (rule decode_hex_to_hex)
  moreover have "verify_and_consume (lib_crypto demo_libs)
      [\<lparr>pd_nonce = demo_nonce, pd_client = ''c'', pd_purpose = p, pd_issued_at = 5\<rparr>] ''c'' demo_nonce
      demo_signature (bk_registry b) 5 = (Ok (outcome p 5), [])"
    using assms(2)
    by (simp add: verify_and_consume_def take_first_def pending_for_def swap_remove_def
        demo_signature_def signature_length_def demo_libs_def)
  ultimately show ?thesis using assms(1)
    by (simp add: submit_def demo_tick_def split: verified.split)
qed

lemma demo_grant:
  assumes "bk_agg b = mutex_new demo_agg"
  shows "\<exists>m b'. apply_elevation demo_libs demo_tick ''c'' ''mail'' (until_revoked 5) b = (RDone m, b')
    \<and> bk_agg b' = mutex_new (change_slot ''mail'' (grant_elevation (until_revoked 5)) demo_agg)
    \<and> bk_nonces b' = bk_nonces b \<and> bk_registry b' = bk_registry b"
proof (cases rule: apply_elevation_cases [of demo_libs demo_tick "''c''" "''mail''" "until_revoked 5" b])
  case (failed m)
  then show ?thesis using assms demo_server_eq(1)
    by (simp add: apply_elevation_def Let_def)
next
  case (granted agg)
  then show ?thesis using assms by simp
qed

lemma demo_approve:
  assumes "bk_agg b = mutex_new a"
  shows "\<exists>m b'. apply_confirm demo_libs demo_tick ''mail'' ''purge'' b = (RDone m, b')
    \<and> bk_agg b' = mutex_new (approve_action ''mail'' ''purge'' 5 a)
    \<and> bk_nonces b' = bk_nonces b \<and> bk_registry b' = bk_registry b"
  using assms by (simp add: apply_confirm_def demo_tick_def)

definition demo_final :: "(nat, unit) aggregator" where
  "demo_final = approve_action ''mail'' ''purge'' 5 (change_slot ''mail'' (grant_elevation (until_revoked 5)) demo_agg)"

lemma demo_play_final: "agg_of (snd (play demo_requests demo_b0)) = demo_final"
proof -
  let ?b = demo_b0
  let ?pd = "\<lambda>p. \<lparr>pd_nonce = demo_nonce, pd_client = ''c'', pd_purpose = p, pd_issued_at = 5\<rparr>"
  have b0: "bk_nonces ?b = mutex_new []" "bk_agg ?b = mutex_new demo_agg" "bk_registry ?b = [(''c'', ())]"
    by (simp_all add: demo_b0_def handler_new_def nonces_new_def)
  let ?e = "Elevate ''mail'' ReqUntilRevoked" and ?c = "ConfirmTool ''mail'' ''purge''"
  let ?b1 = "?b\<lparr>bk_nonces := mutex_new [?pd ?e]\<rparr>"
  have s1: "handle_control demo_libs demo_tick (CRequestElevation ''c'' ''mail'' ''until_revoked'' None) ?b =
      (RNonce (nonce_to_hex demo_nonce), ?b1)"
    by (simp add: request_elevation_def demo_issue [OF b0(1)])
  obtain m2 b2 where b2: "apply_elevation demo_libs demo_tick ''c'' ''mail'' (until_revoked 5)
        (?b1\<lparr>bk_nonces := mutex_new []\<rparr>) = (RDone m2, b2)"
    "bk_agg b2 = mutex_new (change_slot ''mail'' (grant_elevation (until_revoked 5)) demo_agg)"
    "bk_nonces b2 = mutex_new []" "bk_registry b2 = [(''c'', ())]"
    using demo_grant [of "?b1\<lparr>bk_nonces := mutex_new []\<rparr>"] b0 by auto
  have s2: "handle_control demo_libs demo_tick
      (CSubmitElevation ''c'' (nonce_to_hex demo_nonce) (to_hex demo_signature)) ?b1 = (RDone m2, b2)"
    using demo_submit [of ?b1 ?e] b0 b2(1) by (simp add: registry_key_def)
  let ?b3 = "b2\<lparr>bk_nonces := mutex_new [?pd ?c]\<rparr>"
  have s3: "handle_control demo_libs demo_tick (CRequestConfirm ''c'' ''mail'' ''purge'') b2 =
      (RNonce (nonce_to_hex demo_nonce), ?b3)"
    by (simp add: request_confirm_def demo_issue [OF b2(3)])
  obtain m4 b4 where b4: "apply_confirm demo_libs demo_tick ''mail'' ''purge'' (?b3\<lparr>bk_nonces := mutex_new []\<rparr>) = (RDone m4, b4)"
    "bk_agg b4 = mutex_new demo_final"
    using demo_approve [of "?b3\<lparr>bk_nonces := mutex_new []\<rparr>"] b2(2) by (auto simp: demo_final_def)
  have s4: "handle_control demo_libs demo_tick
      (CSubmitConfirm ''c'' (nonce_to_hex demo_nonce) (to_hex demo_signature)) ?b3 = (RDone m4, b4)"
    using demo_submit [of ?b3 ?c] b2(4) b4(1) by (simp add: registry_key_def)
  have "snd (play demo_requests demo_b0) = b4"
    by (simp add: demo_requests_def play_step [OF s1] play_step [OF s2] play_step [OF s3] play_step [OF s4])
  with b4(2) show ?thesis by simp
qed

lemma demo_play_run:
  "broker_run demo_libs v demo_b0 (fst (play demo_requests demo_b0)) (snd (play demo_requests demo_b0))"
  using play_run [OF broker_run.start, of v demo_b0 demo_requests] by simp

lemma demo_played:
  "\<exists>tr b. broker_run demo_libs v demo_b0 tr b \<and> agg_of b = demo_final"
  using demo_play_run demo_play_final by blast

lemma demo_final_facts:
  "server (ag_state demo_final) ''mail'' = Some (grant_elevation (until_revoked 5) demo_slot)"
  "ag_confirmations demo_final = [\<lparr>cf_server = ''mail'', cf_tool = ''purge'', cf_approved_at = 5\<rparr>]"
  "ag_children demo_final = [(''mail'', 1)]"
  using demo_server_eq(1)
  by (simp_all add: demo_final_def approve_action_def change_slot_def server_server_mut)
    (simp_all add: demo_agg_def confirmations_retain_def)

section \<open>No elevation without a signature\<close>

text \<open>What a signed mode allows, as a bound on the instants of exposure.\<close>

fun within_window :: "requested_mode \<Rightarrow> timestamp \<Rightarrow> timestamp \<Rightarrow> bool" where
  "within_window (ReqDuration ttl) granted now = (unat now < unat granted + unat ttl)"
| "within_window ReqUntilRevoked granted now = True"

text \<open>
  What coverage gives, whoever keeps the record \<open>A\<close> of what was authorised: an exposed tool that the
  manifest does not declare \<open>Read\<close> is within a window somebody signed, and a call of a tool that needs
  a confirmation comes at most 30 seconds after the instant of a signed approval.
\<close>

lemma covered_exposure:
  assumes "agg_ok a" and "grants_covered A a"
    and "server (ag_state a) sid = Some slot" and "n \<in> set (exposed slot now)"
    and "\<forall>srv. manifest_server (lm_manifest (ag_manifest a)) sid = Some srv \<longrightarrow> sm_get (srv_tools srv) n \<noteq> Some Read"
  shows "\<exists>client k rm granted. A client k (Elevate sid rm) granted \<and> within_window rm granted now"
proof -
  have ok: "broker_ok (lm_manifest (ag_manifest a)) (ag_state a)" using assms(1) by (auto simp: agg_ok_def)
  from broker_ok_slot [OF ok assms(3)] obtain srv names where
    "manifest_server (lm_manifest (ag_manifest a)) sid = Some srv"
    "slot_tools slot = classify_advertised (srv_tools srv) names" by (auto simp: slot_classified_def)
  with assms(5) have "t \<in> set (slot_tools slot) \<Longrightarrow> ct_name t = n \<Longrightarrow> \<not> is_read (ct_class t)" for t
    by (auto simp: set_classify_advertised classify_read_iff)
  with assms(4) obtain e where e: "slot_elevation slot = Some e" "is_active e now"
    by (auto simp: set_exposed elevated_at_def is_some_and_iff)
  with assms(2,3) obtain client k p granted where c: "A client k p granted" "LGrant sid e = label_of p granted"
    by (fastforce simp: grants_covered_def)
  then obtain rm where p: "p = Elevate sid rm"
    "e = (case rm of ReqDuration ttl \<Rightarrow> for_duration granted ttl | ReqUntilRevoked \<Rightarrow> until_revoked granted)"
    by (cases "(p, granted)" rule: label_of.cases) auto
  with e(2) have "within_window rm granted now"
    by (cases rm) (simp_all add: is_active_for_duration)
  with c(1) p(1) show ?thesis by blast
qed

lemma covered_call:
  assumes "approvals_covered A a" and "call api external args now a = (r, a')" and "reached r"
  shows "\<exists>sid tool slot. external = external_name sid tool \<and> server (ag_state a) sid = Some slot
    \<and> tool \<in> set (exposed slot now)
    \<and> (needs_confirmation slot tool \<longrightarrow>
         (\<exists>client k t. A client k (ConfirmTool sid tool) t \<and> unat now \<le> unat t + 30))"
proof -
  from call_reached [OF assms(2)] assms(3) obtain sid tool slot where
    adm: "call_admitted external now a sid tool slot"
    and conf: "needs_confirmation slot tool \<longrightarrow>
      (\<exists>c \<in> set (ag_confirmations a). confirmation_for (sid, tool) now c)" by blast
  have "\<exists>client k t. A client k (ConfirmTool sid tool) t \<and> unat now \<le> unat t + 30"
    if "needs_confirmation slot tool"
  proof -
    from conf that obtain c where c: "c \<in> set (ag_confirmations a)" "cf_server c = sid"
      "cf_tool c = tool" "\<not> confirmation_expired c now" by (auto simp: confirmation_for_def)
    then have "unat now \<le> unat (cf_approved_at c) + 30"
      by (simp add: confirmation_expired_older older_than_iff confirmation_ttl_secs_def)
    moreover from c(1) assms(1) obtain client k where
      "A client k (ConfirmTool (cf_server c) (cf_tool c)) (cf_approved_at c)"
      by (auto simp: approvals_covered_def)
    ultimately show ?thesis using c(2,3) by blast
  qed
  with adm show ?thesis unfolding call_admitted_def by blast
qed

text \<open>If nobody can authorise anything, nothing is elevated or confirmed and only \<open>Read\<close> tools are exposed.\<close>

lemma covered_by_nobody:
  assumes "agg_ok a" and "grants_covered A a" and "approvals_covered A a"
    and none: "\<And>client k p now. \<not> A client k p now"
  shows "elevation_count (ag_state a) = 0 \<and> ag_confirmations a = []
    \<and> (\<forall>sid slot now n. server (ag_state a) sid = Some slot \<and> n \<in> set (exposed slot now) \<longrightarrow>
         (\<exists>srv. manifest_server (lm_manifest (ag_manifest a)) sid = Some srv \<and> sm_get (srv_tools srv) n = Some Read))"
proof -
  have ok: "broker_ok (lm_manifest (ag_manifest a)) (ag_state a)" using assms(1) by (auto simp: agg_ok_def)
  have "unelevated (ag_state a)"
    unfolding unelevated_def
  proof
    fix slot
    assume "slot \<in> set (bs_servers (ag_state a))"
    then have "server (ag_state a) (slot_id slot) = Some slot" by (rule broker_ok_member [OF ok])
    with assms(2) none show "slot_elevation slot = None"
      by (cases "slot_elevation slot") (auto simp: grants_covered_def)
  qed
  moreover have "ag_confirmations a = []"
    using assms(3) none by (cases "ag_confirmations a") (auto simp: approvals_covered_def)
  moreover have "\<exists>srv. manifest_server (lm_manifest (ag_manifest a)) sid = Some srv \<and> sm_get (srv_tools srv) n = Some Read"
    if "server (ag_state a) sid = Some slot" "n \<in> set (exposed slot now)" for sid slot now n
    using covered_exposure [OF assms(1,2) that] none by blast
  ultimately show ?thesis unfolding unelevated_count by blast
qed

text \<open>In every reachable state of the broker, a tool that the operator's manifest does not declare
  \<open>Read\<close> is exposed only if the run contains a nonce issued to a registered client for a write
  window on that server and, later, a submission of that client whose Ed25519 signature over
  the canonical challenge of exactly that nonce, client, server and mode verifies under the
  client's registered key; and only within the window that was signed.\<close>

lemma write_exposure_authorised:
  assumes "fresh_broker lb loaded b0" and "broker_run lb version b0 tr b"
    and "server (slots_of b) sid = Some slot" and "n \<in> set (exposed slot now)"
    and "\<forall>srv. manifest_server (lm_manifest loaded) sid = Some srv \<longrightarrow> sm_get (srv_tools srv) n \<noteq> Some Read"
  shows "\<exists>client k rm granted.
    authorised lb (bk_registry b0) tr client k (Elevate sid rm) granted \<and> within_window rm granted now"
  using run_invariant [OF assms(2,1)] assms(3-5)
  by (intro covered_exposure [of "agg_of b"]) (auto simp: elevations_authorised_def)

theorem write_exposure_authorised_witness:
  "\<exists>tr b client k rm granted. broker_run demo_libs ''0'' demo_b0 tr b
    \<and> authorised demo_libs (bk_registry demo_b0) tr client k (Elevate ''mail'' rm) granted
    \<and> within_window rm granted 8"
proof -
  obtain tr b where run: "broker_run demo_libs ''0'' demo_b0 tr b" and b: "agg_of b = demo_final"
    using demo_played by blast
  have "server (slots_of b) ''mail'' = Some (grant_elevation (until_revoked 5) demo_slot)"
    by (simp add: b demo_final_facts)
  moreover have "''send'' \<in> set (exposed (grant_elevation (until_revoked 5) demo_slot) 8)"
    by (simp add: demo_exposed)
  moreover have "\<forall>srv. manifest_server (lm_manifest demo_loaded) ''mail'' = Some srv \<longrightarrow>
      sm_get (srv_tools srv) ''send'' \<noteq> Some Read"
    by (auto simp: demo_loaded_def demo_server_def manifest_server_def)
  ultimately show ?thesis using write_exposure_authorised [OF demo_fresh run] run by blast
qed

text \<open>In every reachable state, a call that reaches a child's tool whose class requires per-action
  presence is covered by a submission in the run whose signature verifies, by a registered
  client, over the challenge of exactly that server and tool, at most 30 seconds before.\<close>

lemma confirm_call_authorised:
  assumes "fresh_broker lb loaded b0" and "broker_run lb version b0 tr b"
    and "call (host_api (lib_host lb)) external args now (agg_of b) = (r, a')" and "reached r"
  shows "\<exists>sid tool slot. external = external_name sid tool \<and> server (slots_of b) sid = Some slot
    \<and> tool \<in> set (exposed slot now)
    \<and> (needs_confirmation slot tool \<longrightarrow>
         (\<exists>client k t. authorised lb (bk_registry b0) tr client k (ConfirmTool sid tool) t
            \<and> unat now \<le> unat t + 30))"
  using run_invariant [OF assms(2,1)]
  by (intro covered_call [OF _ assms(3,4)]) (auto simp: approvals_authorised_def)

lemma demo_call_reached:
  "reached (fst (call (host_api (lib_host demo_libs)) (external_name ''mail'' ''purge'') args 9 demo_final))"
proof -
  have split: "split_once namespace_sep (external_name ''mail'' ''purge'') = Some (''mail'', ''purge'')"
    by (simp add: external_name_def namespace_sep_def)
  show ?thesis
    using demo_needs(1) unfolding needs_confirmation_def
    by (simp add: call_def split demo_final_facts demo_exposed Let_def take_first_def confirmation_for_def
        confirmation_expired_def confirmation_ttl_secs_def sat_sub_def swap_remove_def route_def
        demo_libs_def demo_host_def demo_api_def demo_call_def)
qed

text \<open>The name of the demonstration call names only that tool.\<close>

lemma demo_call_name:
  assumes "agg_ok a" and "ag_state a = ag_state demo_final" and "server (ag_state a) sid = Some slot"
    and "external_name ''mail'' ''purge'' = external_name sid tool"
  shows "sid = ''mail'' \<and> tool = ''purge'' \<and> needs_confirmation slot tool"
proof -
  have "namespace_sep \<notin> set sid" using assms(1,3) by (auto simp: agg_ok_def dest: broker_ok_slot)
  then have "sid = ''mail''" "tool = ''purge''"
    using assms(4) external_name_inj [of "''mail''" sid "''purge''" tool] by (auto simp: namespace_sep_def)
  with assms(2,3) demo_needs(1) show ?thesis by (simp add: demo_final_facts)
qed

theorem confirm_call_authorised_witness:
  "\<exists>tr b client k t. broker_run demo_libs ''0'' demo_b0 tr b
    \<and> authorised demo_libs (bk_registry demo_b0) tr client k (ConfirmTool ''mail'' ''purge'') t"
proof -
  obtain tr b where run: "broker_run demo_libs ''0'' demo_b0 tr b" and b: "agg_of b = demo_final"
    using demo_played by blast
  obtain r a' where c: "call (host_api (lib_host demo_libs)) (external_name ''mail'' ''purge'') JNull 9 (agg_of b) = (r, a')"
    by force
  then have "reached r" using demo_call_reached [of JNull] b by simp
  from confirm_call_authorised [OF demo_fresh run c this] run_invariant [OF run demo_fresh] b run
  show ?thesis using demo_call_name [of "agg_of b"] by metis
qed

text \<open>Ship closed: with no registered client, no sequence of requests whatever elevates a server or gets a
  confirmation, and every tool exposed at any instant is declared \<open>Read\<close> in the manifest.\<close>

lemma ship_closed:
  assumes "fresh_broker lb loaded b0" and "broker_run lb version b0 tr b" and "bk_registry b0 = []"
  shows "elevation_count (slots_of b) = 0 \<and> ag_confirmations (agg_of b) = []
    \<and> (\<forall>sid slot now n. server (slots_of b) sid = Some slot \<and> n \<in> set (exposed slot now) \<longrightarrow>
         (\<exists>srv. manifest_server (lm_manifest loaded) sid = Some srv \<and> sm_get (srv_tools srv) n = Some Read))"
proof -
  let ?A = "authorised lb (bk_registry b0) tr"
  have none: "\<not> ?A client k p now" for client k p now
    by (simp add: authorised_def assms(3) registry_key_def)
  from run_invariant [OF assms(2,1)] have inv: "agg_ok (agg_of b)" "ag_manifest (agg_of b) = loaded"
    "grants_covered ?A (agg_of b)" "approvals_covered ?A (agg_of b)"
    by (auto simp: elevations_authorised_def approvals_authorised_def)
  then show ?thesis using covered_by_nobody [OF inv(1,3,4) none] by blast
qed

definition demo_closed :: "(unit, nat, unit) broker" where
  "demo_closed = handler_new demo_tick (mutex_new demo_agg) notifier_new [] audit_in_memory"

lemma demo_closed_fresh: "fresh_broker demo_libs demo_loaded demo_closed"
  unfolding fresh_broker_def
  using demo_good demo_build
  by (intro conjI exI [of _ demo_tick] exI [of _ "()"] exI [of _ demo_agg] exI [of _ audit_in_memory])
    (simp_all add: demo_closed_def demo_libs_def ring_def audit_in_memory_def)

theorem ship_closed_witness:
  "elevation_count (slots_of demo_closed) = 0 \<and> ag_confirmations (agg_of demo_closed) = []"
  using ship_closed [OF demo_closed_fresh broker_run.start [of demo_libs "''0''"]]
  by (simp add: demo_closed_def)

section \<open>No replay\<close>

text \<open>A nonce is never replayed: over any run, a client's submissions of one nonce are accepted at most
  as often as that nonce was issued to that client, so a nonce issued once is accepted at most
  once, whatever is submitted with it and whenever.\<close>

lemma no_replay:
  assumes "fresh_broker lb loaded b0" and "broker_run lb version b0 tr b"
  shows "length (filter (accepts client n) tr) \<le> length (filter (issues client n) tr)"
  using run_outstanding [OF assms(2,1), of client n] by simp

theorem no_replay_witness:
  "\<exists>tr b. broker_run demo_libs ''0'' demo_b0 tr b \<and> agg_of b = demo_final
     \<and> length (filter (accepts ''c'' demo_nonce) tr) \<le> length (filter (issues ''c'' demo_nonce) tr)"
  using demo_played no_replay [OF demo_fresh] by blast

section \<open>Bounded resources and the tape\<close>

text \<open>In every reachable state the broker is well-formed, at most 1024 nonces are outstanding, the log
  ring holds at most 500 lines and the tape's ring at most 500, and the file of the tape is
  what it was at the start with bytes appended.\<close>

lemma broker_invariant:
  assumes "fresh_broker lb loaded b0" and "broker_run lb version b0 tr b"
  shows "agg_ok (agg_of b) \<and> ag_manifest (agg_of b) = loaded \<and> bk_registry b = bk_registry b0
    \<and> length (nonces_of b) \<le> 1024 \<and> length (guarded (bk_log b)) \<le> 500 \<and> length (ring (bk_audit b)) \<le> 500
    \<and> (\<exists>w. tape (bk_audit b) = tape (bk_audit b0) @ w)"
  using run_invariant [OF assms(2,1)] run_resources [OF assms(2,1)]
  by (simp add: max_pending_nonces_def max_log_entries_def recent_cap_def)

theorem broker_invariant_witness:
  "agg_ok (agg_of demo_b0) \<and> length (nonces_of demo_b0) \<le> 1024"
  using broker_invariant [OF demo_fresh broker_run.start [of demo_libs "''0''"]] by blast

section \<open>Notifications\<close>

lemma run_lifecycle_err: "run_lifecycle h op sid a = (Err e, a') \<Longrightarrow> ag_state a' = ag_state a"
proof (cases op)
  case LcStart
  assume "run_lifecycle h op sid a = (Err e, a')"
  then have s: "start h sid a = (Err e, a')" using LcStart by simp
  show ?thesis
  proof (cases rule: start_cases [of a sid h])
    case (alive srv)
    with s show ?thesis by (auto simp: set_state_def split: option.splits)
  next
    case (spawned srv child classified defs sp)
    with s show ?thesis by (auto simp: set_state_def respawned_def server_server_mut split: option.splits if_splits)
  qed (use s in auto)
qed (auto simp: stop_def pause_def resume_def set_state_def split: option.splits)

definition notified :: "('k, 'c, 's) libs \<Rightarrow> tick \<Rightarrow> ('k, 'c, 's) broker \<Rightarrow> ('k, 'c, 's) broker \<Rightarrow> bool" where
  "notified lb tk b b' \<longleftrightarrow> bk_notifier b' =
    (if ag_exposure_snapshot (agg_of b') (tk_now tk) \<noteq> ag_exposure_snapshot (agg_of b) (tk_now tk)
     then notify_tools_list_changed (lib_text lb) (bk_notifier b) else bk_notifier b)"

text \<open>C21: Clients of the MCP endpoint are told exactly when the exposed tools changed: a control request
  broadcasts one \<open>tools/list_changed\<close> if the exposure at its instant differs before and after
  it, and otherwise sends nothing.\<close>

theorem list_changed_exact:
  assumes "handle_control lb tk req b = (resp, b')"
  shows "bk_notifier b' =
    (if ag_exposure_snapshot (agg_of b') (tk_now tk) \<noteq> ag_exposure_snapshot (agg_of b) (tk_now tk)
     then notify_tools_list_changed (lib_text lb) (bk_notifier b) else bk_notifier b)"
proof -
  have iss: "notified lb tk b b'" if "issue_nonce tk client p b = (resp, b')" for client p
    using that by (cases rule: issue_nonce_cases [of tk client p b]) (auto simp: notified_def)
  have req: "notified lb tk b b'" if "request_elevation tk client sid m ttl b = (resp, b')" for client sid m ttl
    using that by (cases rule: request_elevation_cases [of tk client sid m ttl b]) (auto simp: notified_def dest: iss)
  have ele: "notified lb tk b b'" if "apply_elevation lb tk client sid e (b\<lparr>bk_nonces := x\<rparr>) = (resp, b')" for client sid e x
    using that by (cases rule: apply_elevation_cases [of lb tk client sid e "b\<lparr>bk_nonces := x\<rparr>"])
      (auto simp: notified_def lock_guarded)
  have con: "notified lb tk b b'" if "apply_confirm lb tk sid tool (b\<lparr>bk_nonces := x\<rparr>) = (resp, b')" for sid tool x
    using that by (cases rule: apply_confirm_cases [of lb tk sid tool "b\<lparr>bk_nonces := x\<rparr>"])
      (auto simp: notified_def lock_guarded ag_exposure_snapshot_def approve_action_def)
  have sub: "notified lb tk b b'" if s: "submit lb tk client nh sh b = (resp, b')" for client nh sh
  proof (cases rule: submit_cases [of lb tk client nh sh b])
    case (elevated n sig st sid e st')
    then show ?thesis using s ele [of client sid e] by (simp add: notified_def)
  next
    case (confirmed n sig st sid tool st')
    then show ?thesis using s con [of sid tool] by (simp add: notified_def)
  qed (use s in \<open>auto simp: notified_def\<close>)
  have rev: "notified lb tk b b'" if "revoke lb tk sid b = (resp, b')" for sid
    using that by (cases rule: revoke_cases [of lb tk sid b]) (auto simp: notified_def lock_guarded)
  have lif: "notified lb tk b b'" if l: "lifecycle lb tk op sid b = (resp, b')" for op sid
  proof (cases rule: lifecycle_cases [of lb tk op sid b])
    case (failed m)
    with l show ?thesis by (simp add: notified_def)
  next
    case (ran agg r agg')
    have "ag_exposure_snapshot agg' (tk_now tk) = ag_exposure_snapshot agg (tk_now tk)" if "\<not> is_ok r"
      using that ran(2) run_lifecycle_err by (cases r) (fastforce simp: ag_exposure_snapshot_def)+
    with ran l show ?thesis by (auto simp: notified_def lock_guarded)
  qed
  have same: "notified lb tk b b" by (simp add: notified_def)
  have "notified lb tk b b'"
    using assms same by (cases req) (auto simp: request_confirm_def intro: iss req sub rev lif)
  then show ?thesis by (simp add: notified_def)
qed

theorem list_changed_exact_witness:
  "\<exists>resp b'. handle_control demo_libs demo_tick (CPause ''mail'') demo_b0 = (resp, b')
    \<and> bk_notifier b' =
      (if ag_exposure_snapshot (agg_of b') 5 \<noteq> ag_exposure_snapshot (agg_of demo_b0) 5
       then notify_tools_list_changed (\<lambda>v. ''m'') (bk_notifier demo_b0) else bk_notifier demo_b0)"
proof -
  obtain resp b' where h: "handle_control demo_libs demo_tick (CPause ''mail'') demo_b0 = (resp, b')" by force
  from list_changed_exact [OF h] h show ?thesis by (auto simp: demo_tick_def demo_libs_def)
qed

section \<open>The audit of submissions\<close>





section \<open>Responses\<close>

text \<open>C24: Every answer of the MCP handler, to any JSON value whatever, is a well-typed JSON-RPC 2.0
  response: an object with the version, the id of the request (null if it has none) and exactly
  one of a result of the type its method promises and an error object with one of the codes
  -32601, -32602, -32603 and a text.\<close>

theorem mcp_response_typed:
  assumes "handle_mcp lb version tk req client b = (resp, b')"
  shows "rpc_response (request_id req) (result_type (request_method req)) resp"
proof -
  have init: "result_type ''initialize'' (initialize_result version)"
    by (simp add: result_type_def initialize_result_def mcp_protocol_version_def jget_jobj)
  have list: "rpc_response rid (result_type ''tools/list'') (handle_tools_list tk rid bk)" for rid bk
    by (auto simp: handle_tools_list_def mcp_internal_error_def mcp_error_typed split: option.split
        intro!: success_typed) (simp add: result_type_def jget_jobj)
  have any: "result_type ''tools/call'' r" for r by (simp add: result_type_def)
  have tool: "rpc_response rid (result_type ''tools/call'') (fst (handle_tools_call lb tk rid params b))" for rid params
    by (auto simp: handle_tools_call_def Let_def mcp_internal_error_def mcp_error_typed any
        split: sum.split prod.split option.split intro!: success_typed)
  have ping: "result_type ''ping'' (jobj [])" by (simp add: result_type_def)
  show ?thesis
    using assms tool [of "request_id req" "jget req ''params''"]
    by (auto simp: handle_mcp_def request_id_def request_method_def Let_def list init ping mcp_error_typed
        intro!: success_typed split: if_splits)
qed

theorem mcp_response_typed_witness:
  "\<exists>resp b'. handle_mcp demo_libs ''0'' demo_tick (jobj [(''id'', JNum (PosInt 7)), (''method'', JStr ''ping'')])
      (ValidatedClient ''c'') demo_b0 = (resp, b')
    \<and> rpc_response (JNum (PosInt 7)) (result_type ''ping'') resp"
proof -
  let ?req = "jobj [(''id'', JNum (PosInt 7)), (''method'', JStr ''ping'')]"
  obtain resp b' where h: "handle_mcp demo_libs ''0'' demo_tick ?req (ValidatedClient ''c'') demo_b0 = (resp, b')"
    by force
  have "request_id ?req = JNum (PosInt 7)" "request_method ?req = ''ping''"
    by (simp_all add: request_id_def request_method_def jget_jobj)
  with mcp_response_typed [OF h] h show ?thesis by auto
qed

section \<open>Serving\<close>

text \<open>C25: \<open>serve\<close> starts only with a manifest that loads and satisfies the validation specification and a
  non-empty bearer token, and then in a fresh broker whose registry has, for every client, a key
  made from 32 bytes in hex; a client that presents anything but the token is refused, and the
  endpoint's handler shares the aggregator and the tape of the control handler. Its servers are those
  of the manifest, each running with its child, or stopped with no tool and named on standard error.\<close>

theorem serve_starts_closed:
  assumes "serve lb parse sha parse_map version o_s tk sp path = (said, Serving ep control b)"
  shows "\<exists>loaded token agg. load_from_path parse sha (os_read o_s) path = Ok loaded
    \<and> good_manifest (lm_manifest loaded) \<and> env_var o_s token_env = Some token \<and> token \<noteq> []
    \<and> (\<forall>t c. validate_bearer (he_validator ep) t = Ok c \<longleftrightarrow> t = Some token \<and> c = ValidatedClient ''mcp-client'')
    \<and> fresh_broker lb loaded b \<and> he_handler ep = mcp_view b
    \<and> (\<forall>cid key. registry_key (bk_registry b) cid = Some key \<longrightarrow>
         (\<exists>bytes. length bytes = 32 \<and> key_from_bytes (lib_crypto lb) bytes = Some key))
    \<and> (sm_get (os_vars o_s) clients_env = None \<longrightarrow> bk_registry b = [])
    \<and> bk_agg b = mutex_new agg
    \<and> map slot_id (bs_servers (ag_state agg)) = map srv_id (mf_servers (lm_manifest loaded))
    \<and> (\<forall>slot \<in> set (bs_servers (ag_state agg)).
         slot_state slot = Running \<and> sm_contains (ag_children agg) (slot_id slot)
         \<or> slot_state slot = Stopped \<and> slot_tools slot = []
             \<and> (\<exists>e. start_failed_line (slot_id slot) e \<in> set said))"
proof -
  from serve_fresh [OF assms] obtain loaded token where f:
    "load_from_path parse sha (os_read o_s) path = Ok loaded" "env_var o_s token_env = Some token"
    "bearer_new token ''mcp-client'' = Some (he_validator ep)" "fresh_broker lb loaded b"
    "bk_registry b = snd (load_registry (lib_crypto lb) parse_map o_s)" "he_handler ep = mcp_view b" by blast
  have good: "good_manifest (lm_manifest loaded)" using f(4) by (simp add: fresh_broker_def)
  have tok: "token \<noteq> []" using f(3) by (auto simp: bearer_new_def)
  have key: "\<forall>cid key. registry_key (bk_registry b) cid = Some key \<longrightarrow>
      (\<exists>bytes. length bytes = 32 \<and> key_from_bytes (lib_crypto lb) bytes = Some key)"
    unfolding f(5) by (intro allI impI) (rule load_registry_keys)
  have none: "sm_get (os_vars o_s) clients_env = None \<longrightarrow> bk_registry b = []"
    by (simp add: f(5) load_registry_def registry_new_def)
  have val: "\<forall>t c. validate_bearer (he_validator ep) t = Ok c \<longleftrightarrow> t = Some token \<and> c = ValidatedClient ''mcp-client''"
    by (simp add: validate_bearer_ok [OF f(3)])
  from serve_aggregator [OF assms f(1)] obtain agg where agg:
    "build (lib_host lb) loaded sp = Ok agg" "bk_agg b = mutex_new agg" by blast
  have ids: "distinct (map srv_id (mf_servers (lm_manifest loaded)))" using good by (simp add: good_manifest_def)
  have servers: "slot_state slot = Running \<and> sm_contains (ag_children agg) (slot_id slot)
      \<or> slot_state slot = Stopped \<and> slot_tools slot = []
          \<and> (\<exists>e. start_failed_line (slot_id slot) e \<in> set said)"
    if s: "slot \<in> set (bs_servers (ag_state agg))" for slot
    using build_slots(2) [OF agg(1) ids s] build_announces [OF agg(1) s] serve_said [OF assms f(1)] by blast
  show ?thesis
    by (intro exI [of _ loaded] exI [of _ token] exI [of _ agg] conjI ballI f(1,2,4,6) good tok key none val
        agg(2) build_slots(1) [OF agg(1) ids] servers)
qed

definition demo_os :: os where
  "demo_os = \<lparr>os_vars = [(''MCPLOCK_BEARER_TOKEN'', ''k'')], os_read = (\<lambda>p. Ok []),
     os_append = (\<lambda>p. Err []), os_bind_http = (\<lambda>l. Ok (Some l)), os_bind_control = (\<lambda>p. Ok ()),
     os_temp_dir = ''/tmp'', os_lossy = (\<lambda>s. s), os_wide = (\<lambda>s. s)\<rparr>"

abbreviation demo_parse :: "string \<Rightarrow> string + manifest" where
  "demo_parse \<equiv> \<lambda>s. Ok (lm_manifest demo_loaded)"

lemma demo_serve:
  "\<exists>said ep control b.
     serve demo_libs demo_parse (\<lambda>s. []) (\<lambda>s. Ok []) version demo_os demo_tick () ''m'' =
       (said, Serving ep control b)"
proof -
  have load: "load_from_path demo_parse (\<lambda>s. []) (os_read demo_os) ''m'' = Ok demo_loaded"
    using demo_good by (simp add: load_from_path_def load_from_bytes_ok demo_os_def demo_loaded_def max_manifest_bytes_def)
  have tok: "env_var demo_os token_env = Some ''k''"
    by (simp add: env_var_def demo_os_def token_env_def utf8_ascii)
  have bind: "endpoint_bind (os_bind_http demo_os) l v h nt = Ok \<lparr>he_local_addr = l, he_validator = v, he_handler = h, he_notifier = nt\<rparr>"
    for l v nt and h :: "(nat, unit) mcp_state"
    by (simp add: endpoint_bind_def demo_os_def ok_or.simps)
  show ?thesis
    using demo_build
    by (simp add: serve_def load tok bearer_new_def Let_def demo_libs_def case_prod_beta bind)
qed

theorem serve_starts_closed_witness:
  "\<exists>said ep control b.
     serve demo_libs demo_parse (\<lambda>s. []) (\<lambda>s. Ok []) ''0'' demo_os demo_tick () ''m'' =
       (said, Serving ep control b)
     \<and> validate_bearer (he_validator ep) (Some ''x'') \<noteq> Ok (ValidatedClient ''mcp-client'')"
proof -
  have tok: "env_var demo_os token_env = Some ''k''"
    by (simp add: env_var_def demo_os_def token_env_def utf8_ascii)
  obtain said ep control b where
    s: "serve demo_libs demo_parse (\<lambda>s. []) (\<lambda>s. Ok []) ''0'' demo_os demo_tick () ''m'' =
       (said, Serving ep control b)"
    using demo_serve [of "''0''"] by blast
  from serve_starts_closed [OF s] tok show ?thesis using s by force
qed

end
