(* ===== verification/CliProps.thy ===== *)
theory CliProps
  imports Cli BrokerProps
begin

text \<open>
  The properties of the control client: its flags, what a usage error sends, and the whole
  elevation exchange, from the command line over the socket to the elevated server.
\<close>

section \<open>The flags\<close>

text \<open>An option as the operator means it, and as it is typed.\<close>

datatype mode_flag = TtlFlag u64 | UntilFlag

fun typed_flag :: "mode_flag \<Rightarrow> string list" where
  "typed_flag (TtlFlag n) = [''--ttl'', dec (unat n)]"
| "typed_flag UntilFlag = [''--until-revoked'']"

fun last_ttl :: "u64 \<Rightarrow> mode_flag list \<Rightarrow> u64" where
  "last_ttl d [] = d"
| "last_ttl d (TtlFlag n # fs) = last_ttl n fs"
| "last_ttl d (UntilFlag # fs) = last_ttl d fs"

lemma parse_dec_u64: "parse_uint 10 18446744073709551616 (dec (unat (n :: u64))) = Some (unat n)"
proof -
  have "unat n < 18446744073709551616" using unsigned_less [where 'a = nat and w = n] by simp
  then show ?thesis by (rule parse_dec)
qed

lemma mode_loop_typed:
  "mode_loop ttl u (concat (map typed_flag fs)) = Ok (last_ttl ttl fs, u \<or> UntilFlag \<in> set fs)"
proof (induction fs arbitrary: ttl u)
  case Nil
  then show ?case by simp
next
  case (Cons f fs)
  then show ?case by (cases f) (simp_all add: parse_dec_u64)
qed

lemma mode_loop_until: "mode_loop ttl u fs = Ok (n, v) \<Longrightarrow> u \<Longrightarrow> v"
  by (induction ttl u fs rule: mode_loop.induct) (auto split: if_splits list.splits option.splits)

text \<open>
  The flags of \<open>elevate\<close> say what they mean, in any order and number: the last \<open>--ttl\<close> gives the
  seconds (300 without one, any 64-bit number is accepted), and one \<open>--until-revoked\<close> anywhere
  asks for an elevation without expiry.
\<close>

lemma parse_mode_typed:
  "parse_mode (concat (map typed_flag fs)) =
     Ok (if UntilFlag \<in> set fs then ReqUntilRevoked else ReqDuration (last_ttl 300 fs))"
  by (simp add: parse_mode_def mode_loop_typed default_ttl_secs_def)

section \<open>Exit codes\<close>

lemma cli_print_exit: "cr_exit (cli_print resp) = (case resp of RNonce n \<Rightarrow> 1 | RError m \<Rightarrow> 1 | _ \<Rightarrow> 0)"
  by (cases resp) (simp_all add: cli_ok_def fail_def)

lemma cli_send_exit:
  "cli_send_request env send req w = (r, w') \<Longrightarrow> snd (send req w) = w' \<and> (\<forall>c. r = Err c \<longrightarrow> cr_exit c = 1)"
  by (auto simp: cli_send_request_def split: prod.splits sum.splits)

lemma submit_signed_exit:
  "submit_signed env sg send seed client req p w = (c, w') \<Longrightarrow> cr_exit c \<in> {0, 1}"
  by (auto simp: submit_signed_def Let_def fail_def cli_print_exit dest!: cli_send_exit
      split: prod.splits sum.splits control_response.splits option.splits)

lemma cli_simple_exit: "cli_simple env send args w = (c, w') \<Longrightarrow> cr_exit c \<in> {0, 1} \<or> cr_exit c = 2 \<and> w' = w"
  by (auto simp: cli_simple_def usage_error_def cli_print_exit dest!: cli_send_exit
      split: prod.splits sum.splits control_response.splits)

text \<open>
  The client exits with 0, 1 or 2, and with 2, a usage error, it has sent nothing: an unknown
  command or flag, a missing argument or a missing or malformed key is refused before the broker
  hears of it.
\<close>

lemma usage_error_sends_nothing:
  assumes "cli_main version env sg send args w = (c, w')"
  shows "cr_exit c \<le> 2 \<and> (cr_exit c = 2 \<longrightarrow> w' = w)"
proof -
  have ele: "cr_exit c \<in> {0, 1} \<or> cr_exit c = 2 \<and> w' = w" if "elevate env sg send args w = (c, w')"
    using that by (auto simp: elevate_def usage_error_def Let_def dest: submit_signed_exit
        split: list.splits sum.splits requested_mode.splits)
  have con: "cr_exit c \<in> {0, 1} \<or> cr_exit c = 2 \<and> w' = w" if "confirm env sg send args w = (c, w')"
    using that by (auto simp: confirm_def usage_error_def dest: submit_signed_exit
        split: list.splits sum.splits)
  have "cr_exit c \<in> {0, 1} \<or> cr_exit c = 2 \<and> w' = w"
    using assms ele con cli_simple_exit [of env send args w c w']
    by (auto simp: cli_main_def cli_run_def cli_ok_def split: list.splits if_splits)
  then show ?thesis by auto
qed

definition no_env :: cli_env where "no_env = \<lparr>ce_vars = [], ce_temp_dir = ''/tmp'', ce_lossy = (\<lambda>s. s)\<rparr>"
definition demo_signer :: signer where
  "demo_signer = \<lparr>sg_sign = (\<lambda>seed m. demo_signature), sg_print_doc = (\<lambda>d. Some [])\<rparr>"

theorem usage_error_sends_nothing_witness:
  "\<exists>c w'. cli_main ''0'' no_env demo_signer (\<lambda>q n. (Ok (RDone []), Suc n)) [''elevate'', ''mail''] (0 :: nat) = (c, w')
     \<and> cr_exit c = 2 \<and> w' = 0"
proof -
  obtain c w' where m: "cli_main ''0'' no_env demo_signer (\<lambda>q n. (Ok (RDone []), Suc n)) [''elevate'', ''mail''] (0 :: nat)
      = (c, w')" by force
  moreover from m have "cr_exit c = 2"
    by (auto simp: cli_main_def cli_run_def elevate_def parse_mode_def load_identity_def cli_var_def
        no_env_def usage_error_def Let_def)
  ultimately show ?thesis using usage_error_sends_nothing [OF m] by blast
qed

section \<open>The elevation exchange\<close>

text \<open>
  The socket between the client and the broker: each exchange takes the next reading of the
  broker's clocks and random bytes, and what the broker makes of the line is its new state.
\<close>

definition broker_link ::
  "control_codec \<Rightarrow> ('k, 'c, 's) libs \<Rightarrow> (tick list \<times> ('k, 'c, 's) broker) cli_send" where
  "broker_link cd lb req = (\<lambda>(tks, b).
     case tks of
       [] \<Rightarrow> (Err ''connection refused'', tks, b)
     | tk # tks' \<Rightarrow>
         (client_request cd (broker_peer cd (handle_control lb tk) b) req, tks',
          case print_request cd req of
            Inl e \<Rightarrow> b
          | Inr line \<Rightarrow>
              snd (serve_connection cd (handle_control lb tk)
                \<lparr>cn_clone = True, cn_bytes = line @ [CHR 0x0A], cn_end = Eof\<rparr> b)))"

definition crosses :: "control_codec \<Rightarrow> control_request \<Rightarrow> control_response \<Rightarrow> bool" where
  "crosses cd req resp \<longleftrightarrow> line_codec (print_request cd) (parse_request cd) req
     \<and> line_codec (print_response cd) (parse_response cd) resp"

lemma broker_link_ok:
  assumes "crosses cd req resp" and h: "handle_control lb tk req b = (resp, b')"
  shows "broker_link cd lb req (tk # tks, b) = (Ok resp, tks, b')"
proof -
  from assms(1) have rq: "line_codec (print_request cd) (parse_request cd) req"
    and rs: "line_codec (print_response cd) (parse_response cd) resp" by (simp_all add: crosses_def)
  from serve_connection_ok [where handle = "handle_control lb tk", OF rq h rs] obtain out line where
    o: "print_request cd req = Ok line" "print_response cd resp = Ok out"
    "serve_connection cd (handle_control lb tk)
       \<lparr>cn_clone = True, cn_bytes = line @ [CHR 0x0A], cn_end = Eof\<rparr> b = (Some (out @ [CHR 0x0A]), b')" by blast
  with line_codec_read_back [OF rs] have "client_request cd (broker_peer cd (handle_control lb tk) b) req = Ok resp"
    by (auto simp: client_request_def broker_peer_def)
  with o show ?thesis by (simp add: broker_link_def)
qed

text \<open>A broker that can issue: no poisoned lock, room for a nonce, and random bytes not in use.\<close>

definition can_issue :: "tick \<Rightarrow> nonce \<Rightarrow> string \<Rightarrow> ('k, 'c, 's) broker \<Rightarrow> bool" where
  "can_issue tk n client b \<longleftrightarrow>
     \<not> poisoned (bk_agg b) \<and> \<not> poisoned (bk_nonces b)
     \<and> length (nonces_prune (tk_now tk) (nonces_of b)) < max_pending_nonces
     \<and> list_all (\<lambda>p. \<not> pending_for (n, client) p) (nonces_of b)
     \<and> tk_random tk = Some (nonce_bytes n) \<and> length (nonce_bytes n) = nonce_len"

text \<open>The client's seed belongs to the registered key: what it signs, the key verifies.\<close>

definition signs_for :: "'k crypto \<Rightarrow> signer \<Rightarrow> u8 list \<Rightarrow> 'k \<Rightarrow> bool" where
  "signs_for cr sg seed key \<longleftrightarrow> sg_print_doc sg = print_doc cr \<and>
     (\<forall>m. length (sg_sign sg seed m) = signature_length \<and> verify_strict cr key m (sg_sign sg seed m))"

lemma lock_unpoisoned: "\<not> poisoned m \<Longrightarrow> lock m = Some (guarded m)"
  by (cases m) simp

lemma issue_nonce_ok:
  assumes "can_issue tk n client b"
  shows "issue_nonce tk client p b = (RNonce (nonce_to_hex n),
    b\<lparr>bk_nonces := put (bk_nonces b) (nonces_prune (tk_now tk) (nonces_of b)
        @ [\<lparr>pd_nonce = n, pd_client = client, pd_purpose = p, pd_issued_at = tk_now tk\<rparr>])\<rparr>)"
  using assms
  by (cases n) (auto simp: can_issue_def issue_nonce_def lock_unpoisoned issue_def nonce_generate_def Let_def)

lemma position_append_last: "\<forall>x \<in> set xs. \<not> P x \<Longrightarrow> P y \<Longrightarrow> position P (xs @ [y]) = Some (length xs)"
  by (induction xs) auto

lemma take_last: "\<forall>x \<in> set xs. \<not> P x \<Longrightarrow> P y \<Longrightarrow> take_first P (xs @ [y]) = Some (y, xs)"
  by (simp add: take_first_def position_append_last swap_remove_def)

lemma submit_ok:
  assumes "bk_nonces b = Mutex False (st @ [\<lparr>pd_nonce = n, pd_client = client, pd_purpose = p, pd_issued_at = t\<rparr>])"
    and "list_all (\<lambda>q. \<not> pending_for (n, client) q) st" and "length (nonce_bytes n) = nonce_len"
    and "registry_key (bk_registry b) client = Some key" and "signs_for (lib_crypto lb) sg seed key"
    and "sat_sub (tk_now tk) t \<le> nonce_ttl_secs"
  shows "submit lb tk client (nonce_to_hex n)
      (to_hex (sg_sign sg seed (challenge_message (sg_print_doc sg) n client p))) b =
    (case outcome p (tk_now tk) of
       VElevation sid e \<Rightarrow> apply_elevation lb tk client sid e (b\<lparr>bk_nonces := Mutex False st\<rparr>)
     | VConfirm sid tool \<Rightarrow> apply_confirm lb tk sid tool (b\<lparr>bk_nonces := Mutex False st\<rparr>))"
proof -
  let ?sig = "sg_sign sg seed (challenge_message (sg_print_doc sg) n client p)"
  have "take_first (pending_for (n, client))
      (st @ [\<lparr>pd_nonce = n, pd_client = client, pd_purpose = p, pd_issued_at = t\<rparr>]) =
      Some (\<lparr>pd_nonce = n, pd_client = client, pd_purpose = p, pd_issued_at = t\<rparr>, st)"
    using assms(2) by (intro take_last) (auto simp: list_all_iff pending_for_def)
  then have "verify_and_consume (lib_crypto lb)
      (st @ [\<lparr>pd_nonce = n, pd_client = client, pd_purpose = p, pd_issued_at = t\<rparr>])
      client n ?sig (bk_registry b) (tk_now tk) = (Ok (outcome p (tk_now tk)), st)"
    using assms(4-6) by (simp add: verify_and_consume_def signs_for_def not_less)
  then show ?thesis
    using assms(1,3) by (simp add: submit_def nonce_round_trip decode_hex_to_hex split: verified.split)
qed

lemma apply_elevation_ok:
  assumes "bk_agg b = Mutex False agg" and "server (ag_state agg) sid = Some slot"
  shows "\<exists>b'. apply_elevation lb tk client sid e b = (RDone (''elevated '' @ sid @ '' ('' @ mode_text (mode e) @ '')''), b')
    \<and> server (slots_of b') sid = Some (grant_elevation e slot)"
  using assms by (simp add: apply_elevation_def Let_def change_slot_def server_server_mut)

fun mode_args :: "requested_mode \<Rightarrow> string \<times> u64 option" where
  "mode_args (ReqDuration ttl) = (''duration'', Some ttl)"
| "mode_args ReqUntilRevoked = (''until_revoked'', None)"

fun mode_elevation :: "requested_mode \<Rightarrow> timestamp \<Rightarrow> elevation" where
  "mode_elevation (ReqDuration ttl) now = for_duration now ttl"
| "mode_elevation ReqUntilRevoked now = until_revoked now"

lemma outcome_mode: "outcome (Elevate sid m) now = VElevation sid (mode_elevation m now)"
  by (cases m) simp_all

lemma mode_text_elevation: "mode_text (mode (mode_elevation m now)) = fst (mode_args m)"
  by (cases m) (simp_all add: for_duration_def until_revoked_def mode_def)

text \<open>What a client submits for a purpose.\<close>

fun submission_for :: "purpose \<Rightarrow> string \<Rightarrow> string \<Rightarrow> string \<Rightarrow> control_request" where
  "submission_for (Elevate sid m) client nonce_hex sig_hex = CSubmitElevation client nonce_hex sig_hex"
| "submission_for (ConfirmTool sid tool) client nonce_hex sig_hex = CSubmitConfirm client nonce_hex sig_hex"

text \<open>The broker's side of an exchange: a nonce, and the outcome of the signed submission.\<close>

lemma nonce_exchange:
  assumes "can_issue tk1 n client b" and "registry_key (bk_registry b) client = Some key"
    and "signs_for (lib_crypto lb) sg seed key"
    and "sat_sub (tk_now tk2) (tk_now tk1) \<le> nonce_ttl_secs"
  obtains b1 b0 where "issue_nonce tk1 client p b = (RNonce (nonce_to_hex n), b1)"
    "bk_agg b0 = Mutex False (agg_of b)"
    "handle_control lb tk2 (submission_for p client (nonce_to_hex n)
         (to_hex (sg_sign sg seed (challenge_message (sg_print_doc sg) n client p)))) b1 =
       (case outcome p (tk_now tk2) of
          VElevation sid e \<Rightarrow> apply_elevation lb tk2 client sid e b0
        | VConfirm sid tool \<Rightarrow> apply_confirm lb tk2 sid tool b0)"
proof -
  let ?st = "nonces_prune (tk_now tk1) (nonces_of b)"
  let ?p = "\<lparr>pd_nonce = n, pd_client = client, pd_purpose = p, pd_issued_at = tk_now tk1\<rparr>"
  let ?b1 = "b\<lparr>bk_nonces := Mutex False (?st @ [?p])\<rparr>"
  have nonces: "bk_nonces b = Mutex False (nonces_of b)" and agg: "bk_agg b = Mutex False (agg_of b)"
    using assms(1) unfolding can_issue_def by (metis mutex.collapse)+
  have put: "put (bk_nonces b) v = Mutex False v" for v by (subst nonces) simp
  have one: "issue_nonce tk1 client p b = (RNonce (nonce_to_hex n), ?b1)"
    using issue_nonce_ok [OF assms(1)] by (simp add: put)
  have fresh: "list_all (\<lambda>q. \<not> pending_for (n, client) q) ?st"
    using assms(1) by (auto simp: can_issue_def list_all_iff nonces_prune_def)
  have b1: "bk_nonces ?b1 = Mutex False (?st @ [?p])"
    "registry_key (bk_registry ?b1) client = Some key"
    using assms(2) by simp_all
  have len: "length (nonce_bytes n) = nonce_len" using assms(1) by (simp add: can_issue_def)
  have "handle_control lb tk2 (submission_for p client nh sh) b1 = submit lb tk2 client nh sh b1" for nh sh b1
    by (cases p) simp_all
  then show thesis
    using submit_ok [OF b1(1) fresh len b1(2) assms(3) assms(4)] one agg
    by (intro that [of ?b1 "?b1\<lparr>bk_nonces := Mutex False ?st\<rparr>"]) simp_all
qed

text \<open>The client's side: what it prints when the broker answers both messages as it should.\<close>

lemma signed_exchange:
  assumes "length (nonce_bytes n) = nonce_len"
    and "handle_control lb tk1 req b = (RNonce (nonce_to_hex n), b1)"
    and "handle_control lb tk2 (submission_for p client (nonce_to_hex n)
         (to_hex (sg_sign sg seed (challenge_message (sg_print_doc sg) n client p)))) b1 = (RDone m, b2)"
    and "crosses cd req (RNonce (nonce_to_hex n))"
    and "crosses cd (submission_for p client (nonce_to_hex n)
             (to_hex (sg_sign sg seed (challenge_message (sg_print_doc sg) n client p)))) (RDone m)"
  shows "submit_signed env sg (broker_link cd lb) seed client req p ([tk1, tk2], b) = (cli_ok [m], [], b2)"
proof -
  note send1 = broker_link_ok [OF assms(4) assms(2), of "[tk2]"]
  note send2 = broker_link_ok [OF assms(5) assms(3), of "[]"]
  note hex = nonce_round_trip [OF assms(1)]
  show ?thesis
    using send2 by (cases p) (simp_all add: submit_signed_def cli_send_request_def send1 hex)
qed


text \<open>A codec of the four messages of an exchange on the concrete broker.\<close>

definition four_codec ::
  "control_request \<Rightarrow> control_request \<Rightarrow> control_response \<Rightarrow> control_response \<Rightarrow> control_codec" where
  "four_codec q1 q2 r1 r2 =
     \<lparr>print_request = (\<lambda>q. if q = q1 then Ok ''1'' else if q = q2 then Ok ''2'' else Err ''?''),
      parse_request = (\<lambda>s. if s = ''1'' @ [CHR 0x0A] then Ok q1 else if s = ''2'' @ [CHR 0x0A] then Ok q2 else Err ''?''),
      print_response = (\<lambda>r. if r = r1 then Ok ''3'' else if r = r2 then Ok ''4'' else Err ''?''),
      parse_response = (\<lambda>s. if s = ''3'' @ [CHR 0x0A] then Ok r1 else if s = ''4'' @ [CHR 0x0A] then Ok r2 else Err ''?'')\<rparr>"

lemma four_codec_crosses:
  "q1 \<noteq> q2 \<Longrightarrow> r1 \<noteq> r2 \<Longrightarrow> crosses (four_codec q1 q2 r1 r2) q1 r1"
  "q1 \<noteq> q2 \<Longrightarrow> r1 \<noteq> r2 \<Longrightarrow> crosses (four_codec q1 q2 r1 r2) q2 r2"
  by (simp_all add: crosses_def four_codec_def line_codec_def one_line_def utf8_ascii)

definition elevate_codec :: control_codec where
  "elevate_codec =
     four_codec (CRequestElevation ''c'' ''mail'' ''until_revoked'' None)
       (CSubmitElevation ''c'' (nonce_to_hex demo_nonce) (to_hex demo_signature))
       (RNonce (nonce_to_hex demo_nonce)) (RDone ''elevated mail (until_revoked)'')"

definition demo_cli_env :: cli_env where
  "demo_cli_env = \<lparr>ce_vars = sm_collect [(''MCPLOCK_CLIENT_ID'', ''c''),
     (''MCPLOCK_SIGNING_KEY'', to_hex (replicate 32 3))], ce_temp_dir = ''/tmp'', ce_lossy = (\<lambda>s. s)\<rparr>"

lemma to_hex_utf8: "utf8_valid (to_hex bs)"
proof (rule utf8_ascii)
  show "list_all (\<lambda>c. byte c < 128) (to_hex bs)"
    unfolding list_all_iff
  proof
    fix c assume "c \<in> set (to_hex bs)"
    then show "byte c < 128" using to_hex_ascii [of c bs] by simp
  qed
qed

lemma demo_identity: "load_identity demo_cli_env = Ok (''c'', replicate 32 3)"
  by (simp add: load_identity_def cli_var_def demo_cli_env_def sm_get_collect client_env_def key_env_def
      cli_decode_32_def hex_array_to_hex utf8_ascii to_hex_utf8 default_client_def)

lemma demo_can_issue: "can_issue demo_tick demo_nonce ''c'' demo_b0"
  by (simp add: can_issue_def demo_b0_def handler_new_def nonces_new_def nonces_prune_def
      max_pending_nonces_def demo_tick_def demo_nonce_def nonce_len_def)

lemma demo_signs:
  "registry_key (bk_registry demo_b0) ''c'' = Some ()"
  "signs_for (lib_crypto demo_libs) demo_signer (replicate 32 3) ()"
  "server (slots_of demo_b0) ''mail'' = Some demo_slot"
  by (simp_all add: demo_b0_def handler_new_def registry_key_def signs_for_def demo_libs_def
      demo_signer_def demo_signature_def signature_length_def demo_server_eq(1))


end
