(* ===== verification/ConfirmProps.thy ===== *)
theory ConfirmProps
  imports CliProps
begin

text \<open>
  The confirmation of one destructive action from end to end: from the operator's command over the
  socket to the call of the model that it lets through, once.
\<close>

section \<open>The approval\<close>

lemma apply_confirm_ok:
  assumes "bk_agg b = Mutex False agg"
  obtains b' where "apply_confirm lb tk sid tool b = (RDone (''confirmed '' @ sid @ ''.'' @ tool @ '' (single use)''), b')"
    "agg_of b' = approve_action sid tool (tk_now tk) agg"
  using assms by (simp add: apply_confirm_def)

lemma approved_call:
  assumes "server (ag_state a) sid = Some slot" "needs_confirmation slot tool" "namespace_sep \<notin> set sid"
    and "tool \<in> set (exposed slot now)" and "sat_sub now t \<le> confirmation_ttl_secs"
  shows "\<exists>cs. call api (external_name sid tool) args now (approve_action sid tool t a) =
    route api (external_name sid tool) sid tool args ((approve_action sid tool t a)\<lparr>ag_confirmations := cs\<rparr>)"
proof -
  let ?a = "approve_action sid tool t a" and ?c = "\<lparr>cf_server = sid, cf_tool = tool, cf_approved_at = t\<rparr>"
  have "?c \<in> set (ag_confirmations ?a)" by (simp add: approve_action_def)
  moreover have "confirmation_for (sid, tool) now ?c"
    using assms(5) by (simp add: confirmation_for_def confirmation_expired_def not_less)
  ultimately have "take_first (confirmation_for (sid, tool) now) (ag_confirmations ?a) \<noteq> None"
    by (auto simp: take_first_None)
  then obtain c cs where t: "take_first (confirmation_for (sid, tool) now) (ag_confirmations ?a) = Some (c, cs)"
    by auto
  have s: "server (ag_state ?a) sid = Some slot" using assms(1) by (simp add: approve_action_def)
  have "split_once namespace_sep (external_name sid tool) = Some (sid, tool)"
    using assms(3) by (simp add: external_name_def)
  with s t assms(2,4) show ?thesis
    by (intro exI [of _ cs]) (simp add: call_def needs_confirmation_def Let_def)
qed

text \<open>A tool with at most one approval is called at most once.\<close>

lemma single_approval:
  assumes slot: "server (ag_state a) sid = Some slot" "needs_confirmation slot tool" "namespace_sep \<notin> set sid"
    and one: "outstanding (sid, tool) a \<le> 1"
    and reached: "reached (fst (call api (external_name sid tool) args now a))"
  shows "\<not> reached (fst (call api (external_name sid tool) args' now'
    (snd (call api (external_name sid tool) args now a))))"
proof
  let ?ext = "external_name sid tool"
  obtain r a1 where c1: "call api ?ext args now a = (r, a1)" by force
  obtain r2 a2 where c2: "call api ?ext args' now' a1 = (r2, a2)" by force
  assume "reached (fst (call api ?ext args' now' (snd (call api ?ext args now a))))"
  with c1 c2 have r2: "reached r2" by simp
  from call_spends [OF c1 _ slot(3,1,2)] reached c1 one have none: "outstanding (sid, tool) a1 = 0" by simp
  from call_state [of api ?ext args now a] c1 obtain slot1 where
    s1: "server (ag_state a1) sid = Some slot1" "slot_tools slot1 = slot_tools slot"
    using slot(1) by (cases "server (ag_state a1) sid") (auto simp: server_server_mut split: if_splits)
  have "needs_confirmation slot1 tool" using slot(2) s1(2) by (simp add: needs_confirmation_def)
  from call_spends [OF c2 r2 slot(3) s1(1) this] none show False by simp
qed

text \<open>
  C7: an operator who holds a registered key can let one action through: over a codec that carries
  the four messages, \<open>mcp-lock confirm\<close> exits with success and changes no server; then a call of
  that tool within 30 seconds of the submission, while the tool is exposed, passes the gate to the
  child, and after one call has reached the child no other does, until another approval.
\<close>

theorem confirm_end_to_end:
  assumes "load_identity env = Ok (client, seed)"
    and "can_issue tk1 n client b" and "registry_key (bk_registry b) client = Some key"
    and "signs_for (lib_crypto lb) sg seed key"
    and "sat_sub (tk_now tk2) (tk_now tk1) \<le> nonce_ttl_secs"
    and "crosses cd (CRequestConfirm client sid tool) (RNonce (nonce_to_hex n))"
    and "crosses cd (CSubmitConfirm client (nonce_to_hex n)
             (to_hex (sg_sign sg seed (challenge_message (sg_print_doc sg) n client (ConfirmTool sid tool)))))
           (RDone (''confirmed '' @ sid @ ''.'' @ tool @ '' (single use)''))"
    and slot: "server (slots_of b) sid = Some slot" "needs_confirmation slot tool" "namespace_sep \<notin> set sid"
    and none: "outstanding (sid, tool) (agg_of b) = 0"
  shows "\<exists>b'. cli_main version env sg (broker_link cd lb) [''confirm'', sid, tool] ([tk1, tk2], b)
      = (cli_ok [''confirmed '' @ sid @ ''.'' @ tool @ '' (single use)''], [], b')
    \<and> slots_of b' = slots_of b
    \<and> (\<forall>args now. tool \<in> set (exposed slot now) \<longrightarrow> sat_sub now (tk_now tk2) \<le> confirmation_ttl_secs \<longrightarrow>
         (\<exists>cs. call api (external_name sid tool) args now (agg_of b') =
            route api (external_name sid tool) sid tool args ((agg_of b')\<lparr>ag_confirmations := cs\<rparr>)))
    \<and> (\<forall>args now args' now'. reached (fst (call api (external_name sid tool) args now (agg_of b'))) \<longrightarrow>
         \<not> reached (fst (call api (external_name sid tool) args' now'
              (snd (call api (external_name sid tool) args now (agg_of b'))))))"
proof -
  from nonce_exchange [OF assms(2-5), of "ConfirmTool sid tool"] obtain b1 b0 where
    x: "issue_nonce tk1 client (ConfirmTool sid tool) b = (RNonce (nonce_to_hex n), b1)"
      "bk_agg b0 = Mutex False (agg_of b)"
      "handle_control lb tk2 (submission_for (ConfirmTool sid tool) client (nonce_to_hex n)
         (to_hex (sg_sign sg seed (challenge_message (sg_print_doc sg) n client (ConfirmTool sid tool))))) b1 =
       apply_confirm lb tk2 sid tool b0"
    by simp blast
  obtain b' where granted: "apply_confirm lb tk2 sid tool b0 =
      (RDone (''confirmed '' @ sid @ ''.'' @ tool @ '' (single use)''), b')"
    and agg: "agg_of b' = approve_action sid tool (tk_now tk2) (agg_of b)"
    by (rule apply_confirm_ok [OF x(2)])
  have len: "length (nonce_bytes n) = nonce_len" using assms(2) by (simp add: can_issue_def)
  have one: "handle_control lb tk1 (CRequestConfirm client sid tool) b = (RNonce (nonce_to_hex n), b1)"
    using x(1) by (simp add: request_confirm_def)
  have "submit_signed env sg (broker_link cd lb) seed client (CRequestConfirm client sid tool)
      (ConfirmTool sid tool) ([tk1, tk2], b)
      = (cli_ok [''confirmed '' @ sid @ ''.'' @ tool @ '' (single use)''], [], b')"
    by (rule signed_exchange [OF len one x(3) [unfolded granted] assms(6)]) (use assms(7) in simp)
  then have run: "cli_main version env sg (broker_link cd lb) [''confirm'', sid, tool] ([tk1, tk2], b)
      = (cli_ok [''confirmed '' @ sid @ ''.'' @ tool @ '' (single use)''], [], b')"
    using assms(1) by (simp add: cli_main_def cli_run_def confirm_def)
  have state: "slots_of b' = slots_of b" by (simp add: agg approve_action_def)
  have "outstanding (sid, tool) (agg_of b') \<le> 1"
    using approve_outstanding [of "(sid, tool)" sid tool "tk_now tk2" "agg_of b"] none by (simp add: agg)
  note once = single_approval [OF slot(1) [folded state] slot(2,3) this]
  note passes = approved_call [OF slot, of _ "tk_now tk2", folded agg]
  show ?thesis
    by (intro exI [of _ b'] conjI allI impI run state passes once)
qed

definition confirm_codec :: control_codec where
  "confirm_codec =
     four_codec (CRequestConfirm ''c'' ''mail'' ''purge'')
       (CSubmitConfirm ''c'' (nonce_to_hex demo_nonce) (to_hex demo_signature))
       (RNonce (nonce_to_hex demo_nonce)) (RDone ''confirmed mail.purge (single use)'')"

theorem confirm_end_to_end_witness:
  "\<exists>b'. cli_main ''0'' demo_cli_env demo_signer (broker_link confirm_codec demo_libs)
      [''confirm'', ''mail'', ''purge''] ([demo_tick, demo_tick], demo_b0)
      = (cli_ok [''confirmed mail.purge (single use)''], [], b')
    \<and> slots_of b' = slots_of demo_b0"
proof -
  have now: "sat_sub (tk_now demo_tick) (tk_now demo_tick) \<le> nonce_ttl_secs" by simp
  have c1: "crosses confirm_codec (CRequestConfirm ''c'' ''mail'' ''purge'') (RNonce (nonce_to_hex demo_nonce))"
    unfolding confirm_codec_def by (simp add: four_codec_crosses)
  have c2: "crosses confirm_codec (CSubmitConfirm ''c'' (nonce_to_hex demo_nonce)
        (to_hex (sg_sign demo_signer (replicate 32 3)
          (challenge_message (sg_print_doc demo_signer) demo_nonce ''c'' (ConfirmTool ''mail'' ''purge'')))))
      (RDone (''confirmed '' @ ''mail'' @ ''.'' @ ''purge'' @ '' (single use)''))"
    unfolding confirm_codec_def by (simp add: demo_signer_def four_codec_crosses)
  have need: "needs_confirmation demo_slot ''purge''"
    by (simp add: needs_confirmation_def demo_slot_def new_running_def)
  have sep: "namespace_sep \<notin> set ''mail''" by (simp add: namespace_sep_def)
  have none: "outstanding (''mail'', ''purge'') (agg_of demo_b0) = 0"
    by (simp add: outstanding_def demo_b0_def handler_new_def demo_agg_def)
  from confirm_end_to_end [where version = "''0''" and api = demo_api, OF demo_identity demo_can_issue
      demo_signs(1,2) now c1 c2 demo_signs(3) need sep none]
  show ?thesis by auto
qed

end
