(* ===== verification/DaemonProps.thy ===== *)
theory DaemonProps
  imports BrokerProps
begin

text \<open>
  What the daemon does with its environment: the bearer token is used for nothing but the
  comparison with a presented one, and what a child server gets to see of the environment.
\<close>

section \<open>The token and the standard streams\<close>

text \<open>A run of the daemon with another token: the validator compares with other bytes.\<close>

fun retoken :: "string \<Rightarrow> ('k, 'c, 's) serve_outcome \<Rightarrow> ('k, 'c, 's) serve_outcome" where
  "retoken t (Exit code) = Exit code"
| "retoken t (Serving ep control b) =
     Serving (ep\<lparr>he_validator := (he_validator ep)\<lparr>sb_expected := as_bytes t\<rparr>\<rparr>) control b"

lemma env_names_not_token:
  "listen_env \<noteq> token_env" "clients_env \<noteq> token_env" "audit_env \<noteq> token_env" "socket_env \<noteq> token_env"
  by (simp_all add: listen_env_def clients_env_def audit_env_def socket_env_def token_env_def)

lemma endpoint_bind_retoken:
  "endpoint_bind open_http addr (v\<lparr>sb_expected := e\<rparr>) h nt =
     (case endpoint_bind open_http addr v h nt of
        Inl m \<Rightarrow> Err m
      | Inr ep \<Rightarrow> Ok (ep\<lparr>he_validator := (he_validator ep)\<lparr>sb_expected := e\<rparr>\<rparr>))"
  by (simp add: endpoint_bind_def ok_or.simps split: sum.split option.split)

lemma serve_retoken:
  assumes other: "\<And>k. k \<noteq> token_env \<Longrightarrow> sm_get vars' k = sm_get (os_vars o_s) k"
    and t: "env_var o_s token_env = Some t" "t \<noteq> []"
    and t': "env_var (o_s\<lparr>os_vars := vars'\<rparr>) token_env = Some t'" "t' \<noteq> []"
  shows "serve lb parse sha parse_map version (o_s\<lparr>os_vars := vars'\<rparr>) tk sp path =
    map_prod id (retoken t') (serve lb parse sha parse_map version o_s tk sp path)"
proof -
  let ?o = "o_s\<lparr>os_vars := vars'\<rparr>"
  have reg: "load_registry cr parse_map ?o = load_registry cr parse_map o_s" for cr :: "'a crypto"
    by (simp add: load_registry_def other env_names_not_token split: option.split sum.split)
  have audit: "load_audit ?o = load_audit o_s"
    by (simp add: load_audit_def other env_names_not_token split: option.split sum.split)
  have listen: "env_var ?o listen_env = env_var o_s listen_env"
    by (simp add: env_var_def other env_names_not_token)
  have control: "start_control_channel tk ?o agg nt r a = start_control_channel tk o_s agg nt r a"
    for agg :: "('b, 'c) aggregator mutex" and nt a and r :: "'a client_registry"
    by (simp add: start_control_channel_def socket_path_def other env_names_not_token Let_def
        split: option.split sum.split)
  let ?v = "\<lparr>sb_expected = as_bytes t, sb_client_id = ''mcp-client''\<rparr>"
  have new: "bearer_new t ''mcp-client'' = Some ?v" "bearer_new t' ''mcp-client'' = Some (?v\<lparr>sb_expected := as_bytes t'\<rparr>)"
    using t(2) t'(2) by (simp_all add: bearer_new_def)
  note bind = endpoint_bind_retoken [where v = ?v and e = "as_bytes t'", simplified]
  show ?thesis
    by (simp add: serve_def t(1) t'(1) new reg audit listen control bind Let_def
        split: sum.split prod.split)
qed



section \<open>The environment of a child\<close>

text \<open>A variable of the dynamic loader, whatever the case of its letters.\<close>

definition loader_variable :: "string \<Rightarrow> bool" where
  "loader_variable k \<longleftrightarrow>
     starts_with ''LD_'' (to_ascii_uppercase k) \<or> starts_with ''DYLD_'' (to_ascii_uppercase k)"

lemma good_server_no_loader:
  "good_server srv \<Longrightarrow> loader_variable k \<Longrightarrow> sm_get (srv_env srv) k = None"
  by (cases "sm_get (srv_env srv) k")
    (force simp: good_server_def good_key_def loader_variable_def starts_with_iff dest!: map_of_SomeD)+


text \<open>A child that answers its handshake, and only starts when it finds the token.\<close>

definition answering_lib :: json_lib where
  "answering_lib = \<lparr>parse_json = (\<lambda>s. Ok (jobj [(''id'', JNum (PosInt 1))])), print_json = (\<lambda>v. Ok [])\<rparr>"

definition answering :: spawned_process where
  "answering =
     \<lparr>sp_stdin = True, sp_stdout = True,
      sp_client = \<lparr>sc_written = [], sc_queue = [(0, Line ''x'')], sc_closed = None, sc_next_id = 0,
        sc_timeout = 0, sc_time = 0, sc_writes = [], sc_alive = Ok True\<rparr>\<rparr>"

definition curious_os :: "string \<Rightarrow> string list \<Rightarrow> string smap \<Rightarrow> string + spawned_process" where
  "curious_os command args env = (if sm_get env token_env = Some ''k'' then Ok answering else Err ''no token'')"

definition plain_server :: server_manifest where
  "plain_server = \<lparr>srv_id = ''mail'', srv_command = ''mail'', srv_args = [], srv_env = [(''A'', ''b'')], srv_tools = []\<rparr>"

lemma plain_server_good: "good_server plain_server"
  by (simp add: plain_server_def good_server_def good_key_def bad_key_byte_def blank_def
      manifest_bounds to_ascii_uppercase_def ascii_upper_def sm_keys_def trim_def trim_end_def ws1_def ws2_def ws3_def)

lemma curious_spawn:
  "\<exists>c. spawn_child answering_lib (\<lambda>l. 0) ''0'' curious_os [(token_env, ''k'')] plain_server = Ok c"
proof -
  have "curious_os ''mail'' [] (command_env [(token_env, ''k'')] [(''A'', ''b'')]) = Ok answering"
    by (simp add: curious_os_def command_env_def token_env_def)
  then show ?thesis
    by (simp add: spawn_child_def spawn_def spawn_with_timeout_def plain_server_def answering_def
        answering_lib_def initialize_def request_def McpClient.write_line_def request_loop.simps recv_timeout_def
        answer_of_def jget_jobj notify_child_def Let_def default_request_timeout_def blank_def
        trim_def trim_end_def ws1_def ws2_def ws3_def)
qed


end
