(* ===== verification/MailTools.thy ===== *)
theory MailTools
  imports MailStore Json
begin

text \<open>
  \<open>crates/mail/src/tools.rs\<close>: the three read-only tools, their argument checks and the dispatch.
  The store is any record of the interface \<open>MailStore\<close>; the pretty printer of JSON is an
  argument (\<open>None\<close> where it fails).
\<close>

definition default_list_limit :: nat where "default_list_limit = 25"
definition max_list_limit :: nat where "max_list_limit = 200"

datatype tool_error = ToolError string

definition string_prop :: "string \<Rightarrow> string \<Rightarrow> string \<times> json" where
  "string_prop name description =
     (name, jobj [(''type'', JStr ''string''), (''description'', JStr description)])"

definition limit_prop :: "string \<Rightarrow> string \<times> json" where
  "limit_prop description =
     (''limit'', jobj [(''type'', JStr ''integer''), (''minimum'', JNum (PosInt 1)),
        (''maximum'', JNum (PosInt (of_nat max_list_limit))), (''description'', JStr description)])"

definition tool_json :: "string \<Rightarrow> string \<Rightarrow> (string \<times> json) list \<Rightarrow> string list \<Rightarrow> json" where
  "tool_json name description props required =
     jobj [(''name'', JStr name), (''description'', JStr description),
       (''inputSchema'', jobj [(''type'', JStr ''object''), (''properties'', jobj props),
          (''required'', JArr (map JStr required))])]"

definition tool_definitions :: "json list" where
  "tool_definitions =
     [tool_json ''search''
        ''Search a mailbox and return matching message summaries (newest first). Read-only.''
        [string_prop ''query''
           ''Search text. Matches subject, sender, and body as supported by the mail server.'',
         string_prop ''mailbox''
           ''Mailbox to search. Defaults to the configured default mailbox (usually INBOX).'',
         limit_prop ''Maximum number of matches to return. Defaults to 200.'']
        [''query''],
      tool_json ''list_messages''
        ''List the most recent messages in a mailbox (newest first). Read-only.''
        [string_prop ''mailbox''
           ''Mailbox to list. Defaults to the configured default mailbox (usually INBOX).'',
         limit_prop ''Maximum number of messages to return. Defaults to 25.'']
        [],
      tool_json ''fetch_message''
        ''Fetch one full message by UID, including a plain-text body. Read-only.''
        [(''uid'', jobj [(''type'', JStr ''integer''), (''minimum'', JNum (PosInt 1)),
            (''description'',
               JStr ''IMAP UID of the message, as returned by search or list_messages.'')]),
         string_prop ''mailbox''
           ''Mailbox the message is in. Defaults to the configured default mailbox (usually INBOX).'']
        [''uid'']]"

section \<open>Arguments\<close>

definition backtick :: "string \<Rightarrow> string" where
  "backtick key = ''`'' @ key @ ''`''"

definition require_object :: "json option \<Rightarrow> tool_error + json smap" where
  "require_object arguments =
     ok_or (Option.bind arguments as_object) (ToolError ''`arguments` must be an object'')"

definition require_string :: "json smap \<Rightarrow> string \<Rightarrow> tool_error + string" where
  "require_string args key =
     (case sm_get args key of
        Some (JStr s) \<Rightarrow>
          if s \<noteq> [] then Ok s else Err (ToolError (backtick key @ '' must not be empty''))
      | Some v \<Rightarrow> Err (ToolError (backtick key @ '' must be a string''))
      | None \<Rightarrow> Err (ToolError (''missing required argument '' @ backtick key)))"

definition require_uid :: "json smap \<Rightarrow> string \<Rightarrow> tool_error + u32" where
  "require_uid args key =
     (case sm_get args key of
        Some (JNum n) \<Rightarrow>
          (case num_u64 n of
             Some v \<Rightarrow>
               if 1 \<le> v \<and> v \<le> 4294967295 then Ok (ucast v)
               else Err (ToolError (backtick key @ '' must be a positive integer UID''))
           | None \<Rightarrow> Err (ToolError (backtick key @ '' must be a positive integer UID'')))
      | Some v \<Rightarrow> Err (ToolError (backtick key @ '' must be an integer''))
      | None \<Rightarrow> Err (ToolError (''missing required argument '' @ backtick key)))"

definition optional_mailbox :: "json smap \<Rightarrow> string \<Rightarrow> tool_error + string" where
  "optional_mailbox args default_mailbox =
     (case sm_get args ''mailbox'' of
        None \<Rightarrow> Ok default_mailbox
      | Some JNull \<Rightarrow> Ok default_mailbox
      | Some (JStr s) \<Rightarrow>
          if s \<noteq> [] then Ok s else Err (ToolError ''`mailbox` must not be empty'')
      | Some v \<Rightarrow> Err (ToolError ''`mailbox` must be a string''))"

definition optional_limit :: "json smap \<Rightarrow> nat \<Rightarrow> tool_error + nat" where
  "optional_limit args default_limit =
     (case sm_get args ''limit'' of
        None \<Rightarrow> Ok default_limit
      | Some JNull \<Rightarrow> Ok default_limit
      | Some (JNum n) \<Rightarrow>
          (case num_u64 n of
             None \<Rightarrow> Err (ToolError ''`limit` must be a positive integer'')
           | Some v \<Rightarrow>
               if v = 0 then Err (ToolError ''`limit` must be at least 1'')
               else Ok (min (unat v) max_list_limit))
      | Some v \<Rightarrow> Err (ToolError ''`limit` must be an integer''))"

section \<open>Results\<close>

definition text_result :: "string \<Rightarrow> bool \<Rightarrow> json" where
  "text_result text is_error =
     jobj [(''content'', JArr [jobj [(''type'', JStr ''text''), (''text'', JStr text)]]),
       (''isError'', JBool is_error)]"

definition ok_text :: "string \<Rightarrow> json" where "ok_text text = text_result text False"
definition error_text :: "string \<Rightarrow> json" where "error_text text = text_result text True"

definition mail_error_to_result :: "mail_error \<Rightarrow> json" where
  "mail_error_to_result e = error_text (mail_error_text e)"

definition summary_json :: "message_summary \<Rightarrow> json" where
  "summary_json s =
     jobj [(''uid'', JNum (PosInt (ucast (ms_uid s)))), (''subject'', JStr (ms_subject s)),
       (''from'', JStr (ms_from s)), (''date'', JStr (ms_date s)), (''seen'', JBool (ms_seen s))]"

definition pretty_or :: "(json \<Rightarrow> string option) \<Rightarrow> json \<Rightarrow> string" where
  "pretty_or pretty v = (case pretty v of Some s \<Rightarrow> s | None \<Rightarrow> ''{}'')"

definition summaries_to_result ::
  "(json \<Rightarrow> string option) \<Rightarrow> mail_error + message_summary list \<Rightarrow> json" where
  "summaries_to_result pretty r =
     (case r of
        Inr summaries \<Rightarrow>
          (let items = map summary_json summaries in
           ok_text (pretty_or pretty
             (jobj [(''count'', JNum (PosInt (of_nat (length items)))), (''messages'', JArr items)])))
      | Inl e \<Rightarrow> mail_error_to_result e)"

definition message_to_result :: "(json \<Rightarrow> string option) \<Rightarrow> message \<Rightarrow> json" where
  "message_to_result pretty m =
     ok_text (pretty_or pretty
       (jobj [(''uid'', JNum (PosInt (ucast (mg_uid m)))), (''subject'', JStr (mg_subject m)),
          (''from'', JStr (mg_from m)), (''to'', JStr (mg_to m)), (''date'', JStr (mg_date m)),
          (''body_text'', JStr (mg_body_text m))]))"

section \<open>Dispatch\<close>

definition call_search ::
  "(json \<Rightarrow> string option) \<Rightarrow> 'w mail_api \<Rightarrow> json option \<Rightarrow> string \<Rightarrow> 'w \<Rightarrow> (tool_error + json) \<times> 'w" where
  "call_search pretty store arguments default_mailbox w =
     (case require_object arguments of
        Inl e \<Rightarrow> (Err e, w)
      | Inr args \<Rightarrow>
          (case require_string args ''query'' of
             Inl e \<Rightarrow> (Err e, w)
           | Inr query \<Rightarrow>
               (case optional_mailbox args default_mailbox of
                  Inl e \<Rightarrow> (Err e, w)
                | Inr mailbox \<Rightarrow>
                    (case optional_limit args max_list_limit of
                       Inl e \<Rightarrow> (Err e, w)
                     | Inr limit \<Rightarrow>
                         (case ma_search store mailbox query limit w of
                            (r, w') \<Rightarrow> (Ok (summaries_to_result pretty r), w'))))))"

definition call_list ::
  "(json \<Rightarrow> string option) \<Rightarrow> 'w mail_api \<Rightarrow> json option \<Rightarrow> string \<Rightarrow> 'w \<Rightarrow> (tool_error + json) \<times> 'w" where
  "call_list pretty store arguments default_mailbox w =
     (case ok_or (as_object (case arguments of Some v \<Rightarrow> v | None \<Rightarrow> jobj []))
             (ToolError ''`arguments` must be an object'') of
        Inl e \<Rightarrow> (Err e, w)
      | Inr args \<Rightarrow>
          (case optional_mailbox args default_mailbox of
             Inl e \<Rightarrow> (Err e, w)
           | Inr mailbox \<Rightarrow>
               (case optional_limit args default_list_limit of
                  Inl e \<Rightarrow> (Err e, w)
                | Inr limit \<Rightarrow>
                    (case ma_list store mailbox limit w of
                       (r, w') \<Rightarrow> (Ok (summaries_to_result pretty r), w')))))"

definition call_fetch ::
  "(json \<Rightarrow> string option) \<Rightarrow> 'w mail_api \<Rightarrow> json option \<Rightarrow> string \<Rightarrow> 'w \<Rightarrow> (tool_error + json) \<times> 'w" where
  "call_fetch pretty store arguments default_mailbox w =
     (case require_object arguments of
        Inl e \<Rightarrow> (Err e, w)
      | Inr args \<Rightarrow>
          (case require_uid args ''uid'' of
             Inl e \<Rightarrow> (Err e, w)
           | Inr uid \<Rightarrow>
               (case optional_mailbox args default_mailbox of
                  Inl e \<Rightarrow> (Err e, w)
                | Inr mailbox \<Rightarrow>
                    (case ma_fetch store mailbox uid w of
                       (Inr m, w') \<Rightarrow> (Ok (message_to_result pretty m), w')
                     | (Inl e, w') \<Rightarrow> (Ok (mail_error_to_result e), w')))))"

definition mail_call ::
  "(json \<Rightarrow> string option) \<Rightarrow> 'w mail_api \<Rightarrow> string \<Rightarrow> json option \<Rightarrow> string \<Rightarrow> 'w \<Rightarrow>
     (tool_error + json) \<times> 'w" where
  "mail_call pretty store name arguments default_mailbox w =
     (if name = ''search'' then call_search pretty store arguments default_mailbox w
      else if name = ''list_messages'' then call_list pretty store arguments default_mailbox w
      else if name = ''fetch_message'' then call_fetch pretty store arguments default_mailbox w
      else (Ok (error_text (''unknown tool '' @ [CHR 0x27] @ name @ [CHR 0x27]
              @ ''; available tools: search, list_messages, fetch_message'')), w))"

section \<open>Bounds\<close>

lemma optional_limit_bounds:
  "optional_limit args d = Ok n \<Longrightarrow> 1 \<le> d \<Longrightarrow> d \<le> max_list_limit \<Longrightarrow> 1 \<le> n \<and> n \<le> max_list_limit"
  by (auto simp: optional_limit_def max_list_limit_def unat_gt_0 Suc_le_eq
      split: option.splits json.splits if_splits)

lemma uid_narrowed:
  fixes v :: u64
  assumes "1 \<le> v" "v \<le> 4294967295"
  shows "unat (ucast v :: u32) = unat v \<and> 0 < unat v"
proof -
  have "unat v \<le> 4294967295" using assms(2) by (simp add: word_le_nat_alt)
  then have "unat v mod 2 ^ 32 = unat v" by simp
  then have "unat (ucast v :: u32) = unat v" by (simp add: unsigned_ucast_eq take_bit_eq_mod)
  moreover have "0 < unat v" using assms(1) by (simp add: word_le_nat_alt)
  ultimately show ?thesis by simp
qed

lemma require_uid_Ok:
  "require_uid args key = Ok uid \<longleftrightarrow>
    (\<exists>v. sm_get args key = Some (JNum (PosInt v)) \<and> 1 \<le> v \<and> v \<le> 4294967295 \<and> uid = ucast v)"
  by (auto simp: require_uid_def num_u64_Some split: option.splits json.splits if_splits)

lemma optional_mailbox_nonempty:
  "optional_mailbox args d = Ok mailbox \<Longrightarrow> d \<noteq> [] \<Longrightarrow> mailbox \<noteq> []"
  by (auto simp: optional_mailbox_def split: option.splits json.splits if_splits)

lemma default_limits [simp]:
  "1 \<le> default_list_limit" "default_list_limit \<le> max_list_limit" "1 \<le> max_list_limit"
  by (simp_all add: default_list_limit_def max_list_limit_def)

section \<open>What a call asks of the store\<close>

lemma call_search_cases:
  assumes "call_search pretty store arguments d w = (r, w')"
  shows "(w' = w \<and> (\<exists>e. r = Err e)) \<or>
    (\<exists>args mailbox query limit res.
       optional_mailbox args d = Ok mailbox \<and> optional_limit args max_list_limit = Ok limit
       \<and> query \<noteq> [] \<and> ma_search store mailbox query limit w = (res, w')
       \<and> r = Ok (summaries_to_result pretty res))"
proof -
  have nonempty: "require_string args k = Ok q \<Longrightarrow> q \<noteq> []" for args k q
    by (auto simp: require_string_def split: option.splits json.splits if_splits)
  show ?thesis
    using assms unfolding call_search_def
    by (fastforce dest: nonempty split: sum.splits prod.splits)
qed

lemma call_list_cases:
  assumes "call_list pretty store arguments d w = (r, w')"
  shows "(w' = w \<and> (\<exists>e. r = Err e)) \<or>
    (\<exists>args mailbox limit res.
       optional_mailbox args d = Ok mailbox \<and> optional_limit args default_list_limit = Ok limit
       \<and> ma_list store mailbox limit w = (res, w') \<and> r = Ok (summaries_to_result pretty res))"
  using assms unfolding call_list_def by (fastforce split: sum.splits prod.splits)

lemma call_fetch_cases:
  assumes "call_fetch pretty store arguments d w = (r, w')"
  shows "(w' = w \<and> (\<exists>e. r = Err e)) \<or>
    (\<exists>m v mailbox res.
       arguments = Some (JObj m) \<and> sm_get m ''uid'' = Some (JNum (PosInt v))
       \<and> 1 \<le> v \<and> v \<le> 4294967295 \<and> optional_mailbox m d = Ok mailbox
       \<and> ma_fetch store mailbox (ucast v) w = (res, w')
       \<and> r = Ok (case res of Inr m \<Rightarrow> message_to_result pretty m | Inl e \<Rightarrow> mail_error_to_result e))"
  using assms unfolding call_fetch_def require_object_def
  by (auto simp: require_uid_Ok bind_eq_Some_conv as_object_Some split: sum.splits prod.splits)

text \<open>
  C36: a tool call either leaves the store untouched (and is then an argument error or an unknown
  tool), or makes exactly one read of it: a listing or a search of a named mailbox for between 1
  and 200 messages, whatever limit the model asked for, or the fetch of the uid of the arguments,
  a number from 1 to 2^32 - 1 that the narrowing to 32 bits keeps.
\<close>

theorem tool_calls_bounded:
  assumes "mail_call pretty store name arguments d w = (r, w')" and "d \<noteq> []"
  shows "(w' = w \<and> ((\<exists>e. r = Err e) \<or> name \<notin> {''search'', ''list_messages'', ''fetch_message''}))
    \<or> (\<exists>mailbox limit res. name = ''list_messages'' \<and> mailbox \<noteq> [] \<and> 1 \<le> limit \<and> limit \<le> 200
         \<and> ma_list store mailbox limit w = (res, w') \<and> r = Ok (summaries_to_result pretty res))
    \<or> (\<exists>mailbox query limit res. name = ''search'' \<and> mailbox \<noteq> [] \<and> query \<noteq> [] \<and> 1 \<le> limit \<and> limit \<le> 200
         \<and> ma_search store mailbox query limit w = (res, w') \<and> r = Ok (summaries_to_result pretty res))
    \<or> (\<exists>m v mailbox uid res. name = ''fetch_message'' \<and> arguments = Some (JObj m)
         \<and> sm_get m ''uid'' = Some (JNum (PosInt v)) \<and> unat uid = unat v \<and> 0 < unat uid
         \<and> mailbox \<noteq> [] \<and> ma_fetch store mailbox uid w = (res, w'))"
proof -
  note mb = optional_mailbox_nonempty [OF _ assms(2)]
  have lim: "optional_limit args k = Ok n \<Longrightarrow> k \<in> {default_list_limit, max_list_limit} \<Longrightarrow>
      1 \<le> n \<and> n \<le> 200" for args k n
    using optional_limit_bounds [of args k n] by (auto simp: max_list_limit_def default_list_limit_def)
  consider "name = ''search''" | "name = ''list_messages''" | "name = ''fetch_message''"
    | "name \<notin> {''search'', ''list_messages'', ''fetch_message''}" by blast
  then show ?thesis
  proof cases
    case 1
    with assms(1) have "call_search pretty store arguments d w = (r, w')" by (simp add: mail_call_def)
    from call_search_cases [OF this] show ?thesis
    proof (elim disjE exE conjE)
      fix e assume "w' = w" "r = Err e"
      then show ?thesis by simp
    next
      fix args mailbox query limit res
      assume s: "optional_mailbox args d = Ok mailbox" "optional_limit args max_list_limit = Ok limit"
        "query \<noteq> []" "ma_search store mailbox query limit w = (res, w')"
        "r = Ok (summaries_to_result pretty res)"
      have "1 \<le> limit \<and> limit \<le> 200" using lim [OF s(2)] by simp
      with 1 s mb [OF s(1)] show ?thesis by (intro disjI2 disjI1 exI conjI) simp_all
    qed
  next
    case 2
    with assms(1) have "call_list pretty store arguments d w = (r, w')" by (simp add: mail_call_def)
    from call_list_cases [OF this] show ?thesis
    proof (elim disjE exE conjE)
      fix e assume "w' = w" "r = Err e"
      then show ?thesis by simp
    next
      fix args mailbox limit res
      assume s: "optional_mailbox args d = Ok mailbox" "optional_limit args default_list_limit = Ok limit"
        "ma_list store mailbox limit w = (res, w')" "r = Ok (summaries_to_result pretty res)"
      have "1 \<le> limit \<and> limit \<le> 200" using lim [OF s(2)] by simp
      with 2 s mb [OF s(1)] show ?thesis by (intro disjI2 disjI1 exI conjI) simp_all
    qed
  next
    case 3
    with assms(1) have "call_fetch pretty store arguments d w = (r, w')" by (simp add: mail_call_def)
    from call_fetch_cases [OF this] show ?thesis
    proof (elim disjE exE conjE)
      fix e assume "w' = w" "r = Err e"
      then show ?thesis by simp
    next
      fix m v mailbox res
      assume f: "arguments = Some (JObj m)" "sm_get m ''uid'' = Some (JNum (PosInt v))" "1 \<le> v"
        "v \<le> 4294967295" "optional_mailbox m d = Ok mailbox"
        "ma_fetch store mailbox (ucast v) w = (res, w')"
      have "unat (ucast v :: u32) = unat v" "0 < unat (ucast v :: u32)"
        using uid_narrowed [OF f(3,4)] by simp_all
      with 3 f mb [OF f(5)] show ?thesis by (intro disjI2 exI conjI) simp_all
    qed
  next
    case 4
    with assms(1) show ?thesis by (auto simp: mail_call_def)
  qed
qed

definition tiny_store :: "nat mail_api" where
  "tiny_store =
     \<lparr>ma_list = (\<lambda>mb n w. (Ok [], w + n)), ma_search = (\<lambda>mb q n w. (Ok [], w)),
      ma_fetch = (\<lambda>mb uid w. (Err (MessageNotFound uid), w))\<rparr>"

theorem tool_calls_bounded_witness:
  "\<exists>mailbox limit res. mailbox \<noteq> [] \<and> 1 \<le> limit \<and> limit \<le> 200
     \<and> ma_list tiny_store mailbox limit 0 = (res :: mail_error + message_summary list, 200)"
proof -
  have call: "mail_call (\<lambda>v. None) tiny_store ''list_messages'' (Some (jobj [(''limit'', JNum (PosInt 5000))]))
      ''INBOX'' 0 = (Ok (summaries_to_result (\<lambda>v. None) (Ok [])), 200)"
    by (simp add: mail_call_def call_list_def jobj_def sm_get_collect optional_mailbox_def
        optional_limit_def max_list_limit_def tiny_store_def)
  show ?thesis using tool_calls_bounded [OF call] by auto
qed

text \<open>
  The server advertises exactly \<open>search\<close>, \<open>list_messages\<close> and \<open>fetch_message\<close>, and a call of
  any name that it does not advertise reaches no store operation: the answer is a tool error and
  the store's world is unchanged.
\<close>

lemma advertised_exactly:
  "map (\<lambda>t. jget t ''name'') tool_definitions
     = [Some (JStr ''search''), Some (JStr ''list_messages''), Some (JStr ''fetch_message'')]
   \<and> (Some (JStr name) \<notin> set (map (\<lambda>t. jget t ''name'') tool_definitions) \<longrightarrow>
        (\<exists>text. mail_call pretty store name arguments d w = (Ok (error_text text), w)))"
  by (simp add: tool_definitions_def tool_json_def jget_jobj mail_call_def) blast

theorem advertised_exactly_witness:
  "\<exists>text. mail_call (\<lambda>v. None) (fake_api (\<lambda>s. s)) ''delete_message'' None ''INBOX'' demo_store
     = (Ok (error_text text), demo_store)"
proof -
  have "Some (JStr ''delete_message'') \<notin> set (map (\<lambda>t. jget t ''name'') tool_definitions)"
    by (simp add: tool_definitions_def tool_json_def jget_jobj)
  then show ?thesis
    using advertised_exactly [of "''delete_message''" "\<lambda>v. None" "fake_api (\<lambda>s. s)" None "''INBOX''" demo_store]
    by blast
qed

end
