(* ===== verification/MailServer.thy ===== *)
theory MailServer
  imports MailTools
begin

text \<open>
  \<open>crates/mail/src/jsonrpc.rs\<close> and \<open>server.rs\<close>: the messages of JSON-RPC and the loop of the stdio
  server. The reader is a byte stream, the writer a record of two operations over a world \<open>'o\<close>.
  \<open>serde_json\<close> is a record of functions: \<open>mj_parse\<close> reads a line into a request, \<open>mj_write\<close>
  serialises a response and \<open>mj_pretty\<close> prints a value.
\<close>

section \<open>Messages\<close>

definition PARSE_ERROR :: int where "PARSE_ERROR = - 32700"
definition INVALID_REQUEST :: int where "INVALID_REQUEST = - 32600"
definition METHOD_NOT_FOUND :: int where "METHOD_NOT_FOUND = - 32601"
definition INVALID_PARAMS :: int where "INVALID_PARAMS = - 32602"

record rpc_request =
  rq_jsonrpc :: string
  rq_id :: "json option"
  rq_method :: string
  rq_params :: "json option"

definition is_notification :: "rpc_request \<Rightarrow> bool" where
  "is_notification req \<longleftrightarrow> rq_id req = None"

record rpc_err =
  re_code :: int
  re_message :: string

record rpc_response =
  rp_jsonrpc :: string
  rp_id :: json
  rp_result :: "json option"
  rp_error :: "rpc_err option"

definition response_success :: "json \<Rightarrow> json \<Rightarrow> rpc_response" where
  "response_success i result =
     \<lparr>rp_jsonrpc = ''2.0'', rp_id = i, rp_result = Some result, rp_error = None\<rparr>"

definition response_error :: "json \<Rightarrow> int \<Rightarrow> string \<Rightarrow> rpc_response" where
  "response_error i code message =
     \<lparr>rp_jsonrpc = ''2.0'', rp_id = i, rp_result = None,
      rp_error = Some \<lparr>re_code = code, re_message = message\<rparr>\<rparr>"

text \<open>A response as a JSON value: \<open>serde\<close> skips the member that is absent.\<close>

definition error_value :: "rpc_err \<Rightarrow> json" where
  "error_value e = jobj [(''code'', JNum (NegInt (re_code e))), (''message'', JStr (re_message e))]"

definition response_value :: "rpc_response \<Rightarrow> json" where
  "response_value r =
     jobj ([(''jsonrpc'', JStr (rp_jsonrpc r)), (''id'', rp_id r)]
       @ (case rp_result r of None \<Rightarrow> [] | Some v \<Rightarrow> [(''result'', v)])
       @ (case rp_error r of None \<Rightarrow> [] | Some e \<Rightarrow> [(''error'', error_value e)]))"

record mail_json =
  mj_parse :: "string \<Rightarrow> rpc_request option"
  mj_write :: "rpc_response \<Rightarrow> string option"
  mj_pretty :: "json \<Rightarrow> string option"

section \<open>The server\<close>

definition mail_protocol_version :: string where "mail_protocol_version = ''2024-11-05''"

record 'w mail_server =
  sv_store :: "'w mail_api"
  sv_name :: string
  sv_version :: string
  sv_mailbox :: string

definition server_new :: "'w mail_api \<Rightarrow> string \<Rightarrow> string \<Rightarrow> string \<Rightarrow> 'w mail_server" where
  "server_new store name version mailbox =
     \<lparr>sv_store = store, sv_name = name, sv_version = version, sv_mailbox = mailbox\<rparr>"

definition mail_initialize_result :: "'w mail_server \<Rightarrow> json" where
  "mail_initialize_result srv =
     jobj [(''protocolVersion'', JStr mail_protocol_version),
       (''capabilities'', jobj [(''tools'', jobj [(''listChanged'', JBool False)])]),
       (''serverInfo'', jobj [(''name'', JStr (sv_name srv)), (''version'', JStr (sv_version srv))])]"

definition mail_tools_call ::
  "mail_json \<Rightarrow> 'w mail_server \<Rightarrow> json \<Rightarrow> json option \<Rightarrow> 'w \<Rightarrow> rpc_response \<times> 'w" where
  "mail_tools_call mj srv i params w =
     (case Option.bind params as_object of
        None \<Rightarrow> (response_error i INVALID_PARAMS ''tools/call requires a params object'', w)
      | Some ps \<Rightarrow>
          (case Option.bind (sm_get ps ''name'') as_str of
             None \<Rightarrow> (response_error i INVALID_PARAMS ''tools/call requires a string `name`'', w)
           | Some name \<Rightarrow>
               (case mail_call (mj_pretty mj) (sv_store srv) name (sm_get ps ''arguments'')
                       (sv_mailbox srv) w of
                  (Inr result, w') \<Rightarrow> (response_success i result, w')
                | (Inl (ToolError message), w') \<Rightarrow> (response_error i INVALID_PARAMS message, w'))))"

definition mail_handle_request ::
  "mail_json \<Rightarrow> 'w mail_server \<Rightarrow> rpc_request \<Rightarrow> 'w \<Rightarrow> rpc_response option \<times> 'w" where
  "mail_handle_request mj srv req w =
     (if rq_jsonrpc req \<noteq> ''2.0'' then
        (if is_notification req then (None, w)
         else (Some (response_error (case rq_id req of Some i \<Rightarrow> i | None \<Rightarrow> JNull) INVALID_REQUEST
                 (''jsonrpc must be '' @ [CHR 0x22] @ ''2.0'' @ [CHR 0x22])), w))
      else if is_notification req then (None, w)
      else
        (let i = (case rq_id req of Some i \<Rightarrow> i | None \<Rightarrow> JNull) in
         if rq_method req = ''initialize'' then
           (Some (response_success i (mail_initialize_result srv)), w)
         else if rq_method req = ''ping'' then (Some (response_success i (jobj [])), w)
         else if rq_method req = ''tools/list'' then
           (Some (response_success i (jobj [(''tools'', JArr tool_definitions)])), w)
         else if rq_method req = ''tools/call'' then
           (case mail_tools_call mj srv i (rq_params req) w of (resp, w') \<Rightarrow> (Some resp, w'))
         else (Some (response_error i METHOD_NOT_FOUND (''method not found: '' @ rq_method req)), w)))"

definition internal_error_line :: string where
  "internal_error_line =
     (let q = [CHR 0x22] in
      ''{'' @ q @ ''jsonrpc'' @ q @ '':'' @ q @ ''2.0'' @ q @ '','' @ q @ ''id'' @ q @ '':null,''
      @ q @ ''error'' @ q @ '':{'' @ q @ ''code'' @ q @ '':-32603,'' @ q @ ''message'' @ q @ '':''
      @ q @ ''internal error'' @ q @ ''}}'')"

definition write_or_internal :: "mail_json \<Rightarrow> rpc_response \<Rightarrow> string" where
  "write_or_internal mj resp = (case mj_write mj resp of Some s \<Rightarrow> s | None \<Rightarrow> internal_error_line)"

definition mail_process_line ::
  "mail_json \<Rightarrow> 'w mail_server \<Rightarrow> string \<Rightarrow> 'w \<Rightarrow> string option \<times> 'w" where
  "mail_process_line mj srv line w =
     (case mj_parse mj line of
        Some req \<Rightarrow>
          (case mail_handle_request mj srv req w of
             (None, w') \<Rightarrow> (None, w')
           | (Some resp, w') \<Rightarrow> (Some (write_or_internal mj resp), w'))
      | None \<Rightarrow>
          (Some (write_or_internal mj (response_error JNull PARSE_ERROR ''invalid JSON'')), w))"

section \<open>The loop\<close>

text \<open>
  \<open>BufRead::lines\<close>: one line without its \<open>\n\<close> or \<open>\r\n\<close> and the bytes after it, the end of the
  input, or an error (the read failed, or the line is not UTF-8).
\<close>

datatype line_read = LinesEnd | LinesErr string | LinesItem string string

definition strip_cr :: "string \<Rightarrow> string" where
  "strip_cr l = (if l \<noteq> [] \<and> last l = CHR 0x0D then butlast l else l)"

definition lines_next :: "string \<Rightarrow> stream_end \<Rightarrow> line_read" where
  "lines_next bytes fin =
     (case split_once CHR 0x0A bytes of
        Some (l, rest) \<Rightarrow>
          if utf8_valid l then LinesItem (strip_cr l) rest
          else LinesErr invalid_utf8_text
      | None \<Rightarrow>
          (case fin of
             Broken e \<Rightarrow> LinesErr e
           | Eof \<Rightarrow>
               if bytes = [] then LinesEnd
               else if utf8_valid bytes then LinesItem bytes []
               else LinesErr invalid_utf8_text))"

lemma lines_next_shorter: "lines_next bytes fin = LinesItem l rest \<Longrightarrow> length rest < length bytes"
  by (auto simp: lines_next_def split_once_Some split_once_None split: option.splits if_splits stream_end.splits)

record 'o writer =
  wr_write_all :: "string \<Rightarrow> 'o \<Rightarrow> (string + unit) \<times> 'o"
  wr_flush :: "'o \<Rightarrow> (string + unit) \<times> 'o"

definition write_line :: "'o writer \<Rightarrow> string \<Rightarrow> 'o \<Rightarrow> (string + unit) \<times> 'o" where
  "write_line wr s o1 =
     (case wr_write_all wr s o1 of
        (Inl e, o2) \<Rightarrow> (Err e, o2)
      | (Inr u, o2) \<Rightarrow>
          (case wr_write_all wr [CHR 0x0A] o2 of
             (Inl e, o3) \<Rightarrow> (Err e, o3)
           | (Inr u, o3) \<Rightarrow> wr_flush wr o3))"

function mail_run ::
  "mail_json \<Rightarrow> 'w mail_server \<Rightarrow> 'o writer \<Rightarrow> string \<Rightarrow> stream_end \<Rightarrow> 'w \<times> 'o \<Rightarrow>
     (string + unit) \<times> 'w \<times> 'o" where
  "mail_run mj srv wr bytes fin (w, o1) =
     (case lines_next bytes fin of
        LinesEnd \<Rightarrow> (Ok (), w, o1)
      | LinesErr e \<Rightarrow> (Err e, w, o1)
      | LinesItem l rest \<Rightarrow>
          if blank l then mail_run mj srv wr rest fin (w, o1)
          else
            (case mail_process_line mj srv l w of
               (None, w') \<Rightarrow> mail_run mj srv wr rest fin (w', o1)
             | (Some r, w') \<Rightarrow>
                 (case write_line wr r o1 of
                    (Inl e, o2) \<Rightarrow> (Err e, w', o2)
                  | (Inr u, o2) \<Rightarrow> mail_run mj srv wr rest fin (w', o2))))"
  by pat_completeness auto
termination
  by (relation "measure (\<lambda>(mj, srv, wr, bytes, fin, s). length bytes)")
    (auto dest: lines_next_shorter)

declare mail_run.simps [simp del]

section \<open>What is answered\<close>

lemma mail_tools_call_shape:
  "mail_tools_call mj srv i params w = (r, w') \<Longrightarrow>
     rp_id r = i \<and> rp_jsonrpc r = ''2.0'' \<and> (rp_result r = None) = (rp_error r \<noteq> None)
     \<and> (\<forall>e. rp_error r = Some e \<longrightarrow> re_code e = INVALID_PARAMS)"
  by (auto simp: mail_tools_call_def response_error_def response_success_def
      split: option.splits prod.splits sum.splits tool_error.splits)

lemma responses_exact_none:
  "mail_handle_request mj srv req w = (resp, w') \<Longrightarrow> (resp = None) = is_notification req"
  by (auto simp: mail_handle_request_def Let_def split: if_splits prod.splits)

lemmas response_simps = response_success_def response_error_def is_notification_def

lemma answered_request:
  assumes "mail_handle_request mj srv req w = (resp, w')" and r: "resp = Some r"
  shows "Some (rp_id r) = rq_id req \<and> rp_jsonrpc r = ''2.0''
       \<and> (rp_result r = None) = (rp_error r \<noteq> None)
       \<and> (\<forall>e. rp_error r = Some e \<longrightarrow>
            re_code e = (if rq_jsonrpc req \<noteq> ''2.0'' then INVALID_REQUEST
                         else if rq_method req = ''tools/call'' then INVALID_PARAMS else METHOD_NOT_FOUND))
       \<and> (rq_jsonrpc req = ''2.0'' \<and> rq_method req \<in> {''initialize'', ''ping'', ''tools/list''}
            \<longrightarrow> rp_error r = None)"
proof -
  from r obtain i where i: "rq_id req = Some i"
    using assms(1) by (auto simp: mail_handle_request_def is_notification_def Let_def split: if_splits)
  show ?thesis
  proof (cases "rq_jsonrpc req = ''2.0'' \<and> rq_method req = ''tools/call''")
    case True
    with assms(1) r i have "mail_tools_call mj srv i (rq_params req) w = (r, w')"
      by (auto simp: mail_handle_request_def is_notification_def Let_def split: prod.splits)
    with True i mail_tools_call_shape [OF this] show ?thesis by simp
  next
    case False
    then show ?thesis using assms(1) r i
      by (auto simp: mail_handle_request_def response_simps Let_def split: if_splits)
  qed
qed

text \<open>
  C37: a notification, valid or not, is never answered and never reaches the store; every request
  is answered by one response that carries its id and either a result or an error, and the error
  code says which: the version of the protocol, an unknown method, or the parameters of a tool
  call. Only a tool call reaches the store.
\<close>

theorem responses_exact:
  assumes "mail_handle_request mj srv req w = (resp, w')"
  shows "(resp = None) = is_notification req
    \<and> (w' = w \<or> (rq_id req \<noteq> None \<and> rq_jsonrpc req = ''2.0'' \<and> rq_method req = ''tools/call''))
    \<and> (\<forall>r. resp = Some r \<longrightarrow>
         Some (rp_id r) = rq_id req \<and> rp_jsonrpc r = ''2.0''
         \<and> (rp_result r = None) = (rp_error r \<noteq> None)
         \<and> (\<forall>e. rp_error r = Some e \<longrightarrow>
              re_code e = (if rq_jsonrpc req \<noteq> ''2.0'' then INVALID_REQUEST
                           else if rq_method req = ''tools/call'' then INVALID_PARAMS else METHOD_NOT_FOUND))
         \<and> (rq_jsonrpc req = ''2.0'' \<and> rq_method req \<in> {''initialize'', ''ping'', ''tools/list''}
              \<longrightarrow> rp_error r = None))"
proof (intro conjI)
  show "(resp = None) = is_notification req" by (rule responses_exact_none [OF assms])
  show "w' = w \<or> (rq_id req \<noteq> None \<and> rq_jsonrpc req = ''2.0'' \<and> rq_method req = ''tools/call'')"
    using assms by (auto simp: mail_handle_request_def is_notification_def Let_def split: if_splits prod.splits)
  show "\<forall>r. resp = Some r \<longrightarrow>
         Some (rp_id r) = rq_id req \<and> rp_jsonrpc r = ''2.0''
         \<and> (rp_result r = None) = (rp_error r \<noteq> None)
         \<and> (\<forall>e. rp_error r = Some e \<longrightarrow>
              re_code e = (if rq_jsonrpc req \<noteq> ''2.0'' then INVALID_REQUEST
                           else if rq_method req = ''tools/call'' then INVALID_PARAMS else METHOD_NOT_FOUND))
         \<and> (rq_jsonrpc req = ''2.0'' \<and> rq_method req \<in> {''initialize'', ''ping'', ''tools/list''}
              \<longrightarrow> rp_error r = None)"
    using answered_request [OF assms] by blast
qed

definition demo_mail_server :: "fake_store mail_server" where
  "demo_mail_server = \<lparr>sv_store = fake_api (\<lambda>s. s), sv_name = ''mcp-lock-mail'', sv_version = ''0.1.0'',
     sv_mailbox = ''INBOX''\<rparr>"

definition demo_request :: rpc_request where
  "demo_request = \<lparr>rq_jsonrpc = ''2.0'', rq_id = Some (JNum (PosInt 7)), rq_method = ''ping'', rq_params = None\<rparr>"

definition demo_mail_json :: mail_json where
  "demo_mail_json =
     \<lparr>mj_parse = (\<lambda>l. if l = ''p'' then Some demo_request
                      else if l = ''n'' then Some (demo_request\<lparr>rq_id := None\<rparr>) else None),
      mj_write = (\<lambda>r. Some (case rp_error r of None \<Rightarrow> ''ok'' | Some e \<Rightarrow> ''no'')),
      mj_pretty = (\<lambda>v. None)\<rparr>"

theorem responses_exact_witness:
  "\<exists>r. mail_handle_request demo_mail_json demo_mail_server demo_request demo_store = (Some r, demo_store)
     \<and> rp_id r = JNum (PosInt 7) \<and> rp_error r = None"
proof -
  have h: "mail_handle_request demo_mail_json demo_mail_server demo_request demo_store =
      (Some (response_success (JNum (PosInt 7)) (jobj [])), demo_store)"
    by (simp add: mail_handle_request_def demo_request_def is_notification_def)
  show ?thesis using responses_exact [OF h] h by (auto simp: demo_request_def)
qed

section \<open>The transcript\<close>

text \<open>The answers to a list of lines, as a recursion over the list.\<close>

fun mail_answers ::
  "mail_json \<Rightarrow> 'w mail_server \<Rightarrow> string list \<Rightarrow> 'w \<Rightarrow> string list \<times> 'w" where
  "mail_answers mj srv [] w = ([], w)"
| "mail_answers mj srv (l # ls) w =
     (if blank l then mail_answers mj srv ls w
      else
        (case mail_process_line mj srv l w of
           (None, w') \<Rightarrow> mail_answers mj srv ls w'
         | (Some r, w') \<Rightarrow> (case mail_answers mj srv ls w' of (rs, w'') \<Rightarrow> (r # rs, w''))))"

definition unlines :: "string list \<Rightarrow> string" where
  "unlines ls = concat (map (\<lambda>l. l @ [CHR 0x0A]) ls)"

definition plain_line :: "string \<Rightarrow> bool" where
  "plain_line l \<longleftrightarrow> CHR 0x0A \<notin> set l \<and> utf8_valid l \<and> (l = [] \<or> last l \<noteq> CHR 0x0D)"

definition wants_answer :: "mail_json \<Rightarrow> string \<Rightarrow> bool" where
  "wants_answer mj l \<longleftrightarrow> \<not> blank l \<and> (case mj_parse mj l of None \<Rightarrow> True | Some req \<Rightarrow> \<not> is_notification req)"

definition mem_writer :: "string writer" where
  "mem_writer = \<lparr>wr_write_all = (\<lambda>s o1. (Ok (), o1 @ s)), wr_flush = (\<lambda>o1. (Ok (), o1))\<rparr>"

lemma write_line_mem [simp]: "write_line mem_writer s o1 = (Ok (), o1 @ s @ [CHR 0x0A])"
  by (simp add: write_line_def mem_writer_def)

lemma unlines_simps [simp]: "unlines [] = []" "unlines (l # ls) = l @ CHR 0x0A # unlines ls"
  by (simp_all add: unlines_def)

lemma lines_next_plain:
  "plain_line l \<Longrightarrow> lines_next (l @ CHR 0x0A # rest) fin = LinesItem l rest"
  by (auto simp: lines_next_def plain_line_def strip_cr_def)

lemma process_line_answers:
  "\<not> blank l \<Longrightarrow> (fst (mail_process_line mj srv l w) \<noteq> None) = wants_answer mj l"
  by (auto simp: mail_process_line_def wants_answer_def dest: responses_exact_none
      split: option.splits prod.splits)

lemma length_answers: "length (fst (mail_answers mj srv ls w)) = length (filter (wants_answer mj) ls)"
proof (induction ls arbitrary: w)
  case Nil
  then show ?case by simp
next
  case (Cons l ls)
  show ?case
  proof (cases "blank l")
    case True
    then show ?thesis using Cons.IH by (simp add: wants_answer_def)
  next
    case False
    with process_line_answers [OF False, of mj srv w] Cons.IH show ?thesis
      by (auto split: prod.splits option.splits) (metis fst_conv length_Cons)+
  qed
qed

lemma run_answers:
  assumes "\<forall>l \<in> set ls. plain_line l"
  shows "mail_run mj srv mem_writer (unlines ls) Eof (w, o1) =
    (case mail_answers mj srv ls w of (rs, w') \<Rightarrow> (Ok (), w', o1 @ unlines rs))"
  using assms
proof (induction ls arbitrary: w o1)
  case Nil
  then show ?case by (simp add: mail_run.simps lines_next_def)
next
  case (Cons l ls)
  then show ?case
    by (subst unlines_simps, subst mail_run.simps) (auto simp: lines_next_plain split: prod.splits option.splits)
qed

text \<open>
  C38: over any input of newline-terminated UTF-8 lines the server runs to the end of its input
  and its output is, in the order of the input, one line for every non-blank line that is a
  request or is not a message at all, and nothing for notifications: the optimised loop over the
  byte stream is the recursion over the lines.
\<close>

theorem run_transcript:
  assumes "\<forall>l \<in> set ls. plain_line l"
  shows "\<exists>rs w'. mail_run mj srv mem_writer (unlines ls) Eof (w, []) = (Ok (), w', unlines rs)
    \<and> (rs, w') = mail_answers mj srv ls w
    \<and> length rs = length (filter (wants_answer mj) ls)"
  using run_answers [OF assms, of mj srv w "[]"] length_answers [of mj srv ls w]
  by (cases "mail_answers mj srv ls w") auto

theorem run_transcript_witness:
  "\<exists>rs w'. mail_run demo_mail_json demo_mail_server mem_writer (unlines [''p'', ''n'', [], ''x'', ''p'']) Eof
       (demo_store, []) = (Ok (), w', unlines rs) \<and> length rs = 3"
proof -
  have plain: "\<forall>l \<in> set [''p'', ''n'', [], ''x'', ''p'']. plain_line l"
    by (simp add: plain_line_def utf8_valid_def utf8_follow_def)
  have "length (filter (wants_answer demo_mail_json) [''p'', ''n'', [], ''x'', ''p'']) = 3"
    by (simp add: wants_answer_def blank_def trim_def trim_end_def ws1_def demo_mail_json_def
        is_notification_def demo_request_def)
  with run_transcript [OF plain, of demo_mail_json demo_mail_server demo_store] show ?thesis by metis
qed

section \<open>The fixture is only read\<close>

lemma fake_calls_read_only:
  "snd (mail_call pretty (fake_api lower) name arguments d store) = store"
  by (auto simp: mail_call_def call_search_def call_list_def call_fetch_def fake_api_def
      fake_list_def fake_search_def fake_fetch_def Let_def split: sum.splits prod.splits)

lemma fake_process_read_only:
  "sv_store srv = fake_api lower \<Longrightarrow> snd (mail_process_line mj srv line store) = store"
  using fake_calls_read_only [of "mj_pretty mj" lower]
  by (auto simp: mail_process_line_def mail_handle_request_def mail_tools_call_def Let_def
      split: option.splits prod.splits sum.splits tool_error.splits) (metis snd_conv)+

end
