(* ===== verification/MailConfig.thy ===== *)
theory MailConfig
  imports Render
begin

text \<open>
  \<open>crates/mail/src/config.rs\<close>: the configuration of the IMAP backend from the environment, a map of
  byte strings. The password is in no output of it.
\<close>

section \<open>The variables and the settings\<close>

definition HOST :: string where "HOST = ''MAIL_IMAP_HOST''"
definition PORT :: string where "PORT = ''MAIL_IMAP_PORT''"
definition USERNAME :: string where "USERNAME = ''MAIL_IMAP_USERNAME''"
definition PASSWORD :: string where "PASSWORD = ''MAIL_IMAP_PASSWORD''"
definition DEFAULT_MAILBOX_VAR :: string where "DEFAULT_MAILBOX_VAR = ''MAIL_DEFAULT_MAILBOX''"

lemmas env_names = HOST_def PORT_def USERNAME_def PASSWORD_def DEFAULT_MAILBOX_VAR_def

definition DEFAULT_PORT :: "16 word" where "DEFAULT_PORT = 993"
definition DEFAULT_MAILBOX :: string where "DEFAULT_MAILBOX = ''INBOX''"

record imap_config =
  ic_host :: string
  ic_port :: "16 word"
  ic_username :: string
  ic_password :: string
  ic_default_mailbox :: string

text \<open>The fields of the debug output; \<open>show\<close> is how a string prints in it.\<close>

definition config_debug :: "(string \<Rightarrow> string) \<Rightarrow> imap_config \<Rightarrow> (string \<times> string) list" where
  "config_debug show_str c =
     [(''host'', show_str (ic_host c)), (''port'', dec (unat (ic_port c))),
      (''username'', show_str (ic_username c)), (''password'', show_str ''<redacted>''),
      (''default_mailbox'', show_str (ic_default_mailbox c))]"

definition debug_imap_config :: "(string \<Rightarrow> string) \<Rightarrow> imap_config \<Rightarrow> string" where
  "debug_imap_config wide c = debug_struct ''ImapConfig'' (config_debug (str_debug wide) c)"

datatype config_error = MissingVars "string list" | InvalidValue string string

fun config_error_text :: "config_error \<Rightarrow> string" where
  "config_error_text (MissingVars names) =
     ''missing required environment variables: '' @ join '', '' names"
| "config_error_text (InvalidValue name reason) = ''invalid value for '' @ name @ '': '' @ reason"

definition unset :: "string option \<Rightarrow> bool" where
  "unset v \<longleftrightarrow> (case v of None \<Rightarrow> True | Some s \<Rightarrow> s = [])"

definition config_from_lookup :: "(string \<Rightarrow> string option) \<Rightarrow> config_error + imap_config" where
  "config_from_lookup lookup =
     (let host = lookup HOST; username = lookup USERNAME; password = lookup PASSWORD;
          missing = (if unset host then [HOST] else []) @ (if unset username then [USERNAME] else [])
            @ (if unset password then [PASSWORD] else [])
      in if missing \<noteq> [] then Err (MissingVars missing)
      else
        (case (case lookup PORT of
                 None \<Rightarrow> Ok DEFAULT_PORT
               | Some s \<Rightarrow>
                   if s = [] then Ok DEFAULT_PORT
                   else (case parse_uint 10 65536 s of
                           Some p \<Rightarrow> Ok (of_nat p)
                         | None \<Rightarrow> Err (InvalidValue PORT ''must be a port number in 1..=65535''))) of
           Inl e \<Rightarrow> Err e
         | Inr port \<Rightarrow>
             (let default_mailbox =
                (case lookup DEFAULT_MAILBOX_VAR of
                   Some s \<Rightarrow> if s \<noteq> [] then s else DEFAULT_MAILBOX
                 | None \<Rightarrow> DEFAULT_MAILBOX)
              in Ok \<lparr>ic_host = the host, ic_port = port, ic_username = the username,
                     ic_password = the password, ic_default_mailbox = default_mailbox\<rparr>)))"

definition config_from_env :: "string smap \<Rightarrow> config_error + imap_config" where
  "config_from_env vars =
     config_from_lookup
       (\<lambda>k. case sm_get vars k of Some v \<Rightarrow> if utf8_valid v then Some v else None | None \<Rightarrow> None)"

section \<open>Facts\<close>

lemma config_Ok:
  "config_from_lookup lookup = Ok c \<Longrightarrow>
     lookup HOST = Some (ic_host c) \<and> ic_host c \<noteq> [] \<and> lookup USERNAME = Some (ic_username c)
     \<and> ic_username c \<noteq> [] \<and> lookup PASSWORD = Some (ic_password c) \<and> ic_password c \<noteq> []
     \<and> ic_default_mailbox c \<noteq> []"
  by (auto simp: config_from_lookup_def Let_def unset_def DEFAULT_MAILBOX_def
      split: if_splits option.splits sum.splits)

end
