(* ===== verification/ImapBackend.thy ===== *)
theory ImapBackend
  imports MailStore MailConfig
begin

text \<open>
  \<open>crates/mail/src/imap_backend.rs\<close>: the IMAP-backed store. The network (connection and login,
  the replies to EXAMINE, UID SEARCH, UID FETCH and LOGOUT) and the message parser are records
  of functions over a world \<open>'n\<close>; the order in which a reply lists its items is the reply's.
\<close>

section \<open>The library\<close>

record fetch =
  ft_uid :: "u32 option"
  ft_flag_seen :: bool
  ft_header :: "string option"
  ft_body :: "string option"

record addr =
  ad_name :: "string option"
  ad_address :: "string option"

datatype address = AddrList "addr list" | AddrGroup "addr list list"

record parsed_message =
  pm_subject :: "string option"
  pm_from :: "address option"
  pm_to :: "address option"
  pm_date :: "string option"
  pm_body_text :: "string option"

record 'n imap_net =
  net_connect :: "'n \<Rightarrow> (mail_error + unit) \<times> 'n"
  net_examine :: "string \<Rightarrow> 'n \<Rightarrow> bool \<times> 'n"
  net_uid_search :: "string \<Rightarrow> 'n \<Rightarrow> (string + u32 list) \<times> 'n"
  net_uid_fetch :: "string \<Rightarrow> string \<Rightarrow> 'n \<Rightarrow> (string + fetch list) \<times> 'n"
  net_logout :: "'n \<Rightarrow> 'n"

record mail_lib =
  lib_parse_message :: "string \<Rightarrow> parsed_message option"
  lib_lossy :: "string \<Rightarrow> string"

section \<open>Pure helpers\<close>

fun quote_text :: "string \<Rightarrow> string" where
  "quote_text [] = []"
| "quote_text (ch # q) =
     (if ch = CHR 0x0D \<or> ch = CHR 0x0A then quote_text q
      else if ch = CHR 0x22 then CHR 0x5C # CHR 0x22 # quote_text q
      else if ch = CHR 0x5C then CHR 0x5C # CHR 0x5C # quote_text q
      else ch # quote_text q)"

definition build_text_search :: "string \<Rightarrow> string" where
  "build_text_search query = ''TEXT '' @ [CHR 0x22] @ quote_text query @ [CHR 0x22]"

fun push_addr :: "string list \<Rightarrow> addr \<Rightarrow> string list" where
  "push_addr out a =
     (case (ad_name a, ad_address a) of
        (Some name, Some email) \<Rightarrow> out @ [name @ '' <'' @ email @ ''>'']
      | (None, Some email) \<Rightarrow> out @ [email]
      | (Some name, None) \<Rightarrow> out @ [name]
      | (None, None) \<Rightarrow> out)"

definition format_address :: "address option \<Rightarrow> string" where
  "format_address a =
     join '', ''
       (case a of
          Some (AddrList addrs) \<Rightarrow> foldl push_addr [] addrs
        | Some (AddrGroup groups) \<Rightarrow> foldl (foldl push_addr) [] groups
        | None \<Rightarrow> [])"

definition or_empty :: "string option \<Rightarrow> string" where
  "or_empty x = (case x of Some s \<Rightarrow> s | None \<Rightarrow> [])"

definition summary_from_fetch :: "mail_lib \<Rightarrow> fetch \<Rightarrow> message_summary option" where
  "summary_from_fetch ml f =
     (case ft_uid f of
        None \<Rightarrow> None
      | Some uid \<Rightarrow>
          (let (subject, frm, date) =
             (case lib_parse_message ml (or_empty (ft_header f)) of
                Some m \<Rightarrow> (or_empty (pm_subject m), format_address (pm_from m), or_empty (pm_date m))
              | None \<Rightarrow> ([], [], []))
           in Some \<lparr>ms_uid = uid, ms_subject = subject, ms_from = frm, ms_date = date,
                     ms_seen = ft_flag_seen f\<rparr>))"

definition message_from_fetch :: "mail_lib \<Rightarrow> u32 \<Rightarrow> fetch \<Rightarrow> message" where
  "message_from_fetch ml uid f =
     (let body_bytes = or_empty (ft_body f) in
      case lib_parse_message ml body_bytes of
        Some m \<Rightarrow>
          \<lparr>mg_uid = uid, mg_subject = or_empty (pm_subject m), mg_from = format_address (pm_from m),
           mg_to = format_address (pm_to m), mg_date = or_empty (pm_date m),
           mg_body_text = or_empty (pm_body_text m)\<rparr>
      | None \<Rightarrow>
          \<lparr>mg_uid = uid, mg_subject = [], mg_from = [], mg_to = [], mg_date = [],
           mg_body_text = lib_lossy ml body_bytes\<rparr>)"

section \<open>Sessions\<close>

definition backend_err :: "string \<Rightarrow> mail_error" where
  "backend_err e = Backend e"

text \<open>
  The client library: building the TLS connector, connecting to a host and port (with the name the
  certificate is checked against), logging in, the four commands of a session, and dropping a
  client that is not logged in.
\<close>

record 'n imap_client =
  il_tls :: "'n \<Rightarrow> (string + unit) \<times> 'n"
  il_connect :: "string \<times> 16 word \<Rightarrow> string \<Rightarrow> 'n \<Rightarrow> (string + unit) \<times> 'n"
  il_login :: "string \<Rightarrow> string \<Rightarrow> 'n \<Rightarrow> (string + unit) \<times> 'n"
  il_examine :: "string \<Rightarrow> 'n \<Rightarrow> bool \<times> 'n"
  il_uid_search :: "string \<Rightarrow> 'n \<Rightarrow> (string + u32 list) \<times> 'n"
  il_uid_fetch :: "string \<Rightarrow> string \<Rightarrow> 'n \<Rightarrow> (string + fetch list) \<times> 'n"
  il_logout :: "'n \<Rightarrow> 'n"
  il_drop :: "'n \<Rightarrow> 'n"

definition imap_connect :: "'n imap_client \<Rightarrow> imap_config \<Rightarrow> 'n \<Rightarrow> (mail_error + unit) \<times> 'n" where
  "imap_connect il config w =
     (case il_tls il w of
        (Inl e, w1) \<Rightarrow> (Err (backend_err e), w1)
      | (Inr tls, w1) \<Rightarrow>
          (case il_connect il (ic_host config, ic_port config) (ic_host config) w1 of
             (Inl e, w2) \<Rightarrow> (Err (backend_err e), w2)
           | (Inr client, w2) \<Rightarrow>
               (case il_login il (ic_username config) (ic_password config) w2 of
                  (Inl e, w3) \<Rightarrow> (Err (backend_err e), il_drop il w3)
                | (Inr session, w3) \<Rightarrow> (Ok (), w3))))"

text \<open>\<open>ImapBackend::new\<close>: the network that the operations below use, with the connection of this configuration.\<close>

definition backend_net :: "'n imap_client \<Rightarrow> imap_config \<Rightarrow> 'n imap_net" where
  "backend_net il config =
     \<lparr>net_connect = imap_connect il config, net_examine = il_examine il,
      net_uid_search = il_uid_search il, net_uid_fetch = il_uid_fetch il, net_logout = il_logout il\<rparr>"

definition unsafe_mailbox :: "string \<Rightarrow> bool" where
  "unsafe_mailbox mailbox = (\<exists>c \<in> set mailbox. c = CHR 0x0D \<or> c = CHR 0x0A \<or> c = CHR 0x00)"

definition with_mailbox ::
  "'n imap_net \<Rightarrow> string \<Rightarrow> ('n \<Rightarrow> (mail_error + 'a) \<times> 'n) \<Rightarrow> 'n \<Rightarrow> (mail_error + 'a) \<times> 'n" where
  "with_mailbox net mailbox op w =
     (if unsafe_mailbox mailbox then (Err (MailboxUnavailable mailbox), w)
      else
        (case net_connect net w of
           (Inl e, w1) \<Rightarrow> (Err e, w1)
         | (Inr u, w1) \<Rightarrow>
             (case net_examine net mailbox w1 of
                (False, w2) \<Rightarrow> (Err (MailboxUnavailable mailbox), net_logout net w2)
              | (True, w2) \<Rightarrow> (let (result, w3) = op w2 in (result, net_logout net w3)))))"

definition uid_set :: "u32 list \<Rightarrow> string" where
  "uid_set uids = join '','' (map (\<lambda>u. dec (unat u)) uids)"

text \<open>Unstable sorting by decreasing uid: of the orders it allows for equal uids, the stable one.\<close>

definition newest_first :: "message_summary list \<Rightarrow> message_summary list" where
  "newest_first ss = sort_key (\<lambda>s. - uint (ms_uid s)) ss"

definition fetch_summaries ::
  "mail_lib \<Rightarrow> 'n imap_net \<Rightarrow> u32 list \<Rightarrow> 'n \<Rightarrow> (mail_error + message_summary list) \<times> 'n" where
  "fetch_summaries ml net uids w =
     (if uids = [] then (Ok [], w)
      else
        (case net_uid_fetch net (uid_set uids) ''(UID FLAGS BODY.PEEK[HEADER])'' w of
           (Inl e, w') \<Rightarrow> (Err (backend_err e), w')
         | (Inr fetches, w') \<Rightarrow>
             (Ok (newest_first (List.map_filter (summary_from_fetch ml) fetches)), w')))"

definition newest_uids :: "nat \<Rightarrow> u32 list \<Rightarrow> u32 list" where
  "newest_uids limit uids = take limit (rev (sort uids))"

definition search_and_fetch ::
  "mail_lib \<Rightarrow> 'n imap_net \<Rightarrow> string \<Rightarrow> nat \<Rightarrow> 'n \<Rightarrow> (mail_error + message_summary list) \<times> 'n" where
  "search_and_fetch ml net criterion limit w =
     (case net_uid_search net criterion w of
        (Inl e, w') \<Rightarrow> (Err (backend_err e), w')
      | (Inr uids, w') \<Rightarrow> fetch_summaries ml net (newest_uids limit uids) w')"

definition imap_list ::
  "mail_lib \<Rightarrow> 'n imap_net \<Rightarrow> string \<Rightarrow> nat \<Rightarrow> 'n \<Rightarrow> (mail_error + message_summary list) \<times> 'n" where
  "imap_list ml net mailbox limit w = with_mailbox net mailbox (search_and_fetch ml net ''ALL'' limit) w"

definition imap_search ::
  "mail_lib \<Rightarrow> 'n imap_net \<Rightarrow> string \<Rightarrow> string \<Rightarrow> nat \<Rightarrow> 'n \<Rightarrow> (mail_error + message_summary list) \<times> 'n" where
  "imap_search ml net mailbox query limit w =
     with_mailbox net mailbox (search_and_fetch ml net (build_text_search query) limit) w"

definition imap_fetch ::
  "mail_lib \<Rightarrow> 'n imap_net \<Rightarrow> string \<Rightarrow> u32 \<Rightarrow> 'n \<Rightarrow> (mail_error + message) \<times> 'n" where
  "imap_fetch ml net mailbox uid w =
     with_mailbox net mailbox
       (\<lambda>w. case net_uid_fetch net (dec (unat uid)) ''(UID FLAGS BODY.PEEK[])'' w of
              (Inl e, w') \<Rightarrow> (Err (backend_err e), w')
            | (Inr [], w') \<Rightarrow> (Err (MessageNotFound uid), w')
            | (Inr (f # fs), w') \<Rightarrow> (Ok (message_from_fetch ml uid f), w')) w"

definition imap_api :: "mail_lib \<Rightarrow> 'n imap_net \<Rightarrow> 'n mail_api" where
  "imap_api ml net =
     \<lparr>ma_list = imap_list ml net, ma_search = imap_search ml net, ma_fetch = imap_fetch ml net\<rparr>"

lemma message_from_fetch_uid [simp]: "mg_uid (message_from_fetch ml uid f) = uid"
  by (simp add: message_from_fetch_def Let_def split: option.split)

lemma with_mailbox_Ok:
  "with_mailbox net mailbox op w = (Ok x, w') \<Longrightarrow>
     \<not> unsafe_mailbox mailbox \<and> (\<exists>w1 w2 w3. net_connect net w = (Ok (), w1)
       \<and> net_examine net mailbox w1 = (True, w2) \<and> op w2 = (Ok x, w3) \<and> w' = net_logout net w3)"
  by (auto simp: with_mailbox_def Let_def split: if_splits prod.splits sum.splits bool.splits)

interpretation imap: mail_store "imap_fetch ml net" for ml net
  by unfold_locales
    (auto simp: imap_fetch_def dest!: with_mailbox_Ok split: prod.splits sum.splits list.splits)

section \<open>Quoting\<close>

text \<open>
  The reader of an IMAP quoted string, after its opening quote: a backslash quotes a backslash
  or a double quote, and a line break is not part of one. The result is the text and what
  follows the closing quote.
\<close>

fun read_quoted :: "string \<Rightarrow> (string \<times> string) option" where
  "read_quoted [] = None"
| "read_quoted (c # s) =
     (if c = CHR 0x22 then Some ([], s)
      else if c = CHR 0x0D \<or> c = CHR 0x0A then None
      else if c = CHR 0x5C then
        (case s of
           [] \<Rightarrow> None
         | d # s' \<Rightarrow>
             if d = CHR 0x22 \<or> d = CHR 0x5C then map_option (\<lambda>(t, rest). (d # t, rest)) (read_quoted s')
             else None)
      else map_option (\<lambda>(t, rest). (c # t, rest)) (read_quoted s))"

lemma read_quote_text:
  "read_quoted (quote_text q @ CHR 0x22 # rest) = Some (filter (\<lambda>c. c \<noteq> CHR 0x0D \<and> c \<noteq> CHR 0x0A) q, rest)"
  by (induction q) auto

text \<open>C39: A search query cannot leave its quotes: whatever the query, an IMAP reader takes the criterion
  as the keyword TEXT and one quoted string, which is the query without its line breaks, and
  continues with exactly what follows the criterion.\<close>

theorem search_criterion_quoted:
  "\<exists>s. build_text_search query @ rest = ''TEXT '' @ CHR 0x22 # s
     \<and> read_quoted s = Some (filter (\<lambda>c. c \<noteq> CHR 0x0D \<and> c \<noteq> CHR 0x0A) query, rest)"
  using read_quote_text [of query rest] by (simp add: build_text_search_def)

section \<open>What is fetched\<close>

lemma sorted_newest_first: "sorted_wrt (\<lambda>s t. ms_uid t \<le> ms_uid s) (newest_first ss)"
proof -
  have "sorted (map (\<lambda>s. - uint (ms_uid s)) (newest_first ss))"
    by (simp add: newest_first_def)
  then show ?thesis by (simp add: sorted_map word_le_def)
qed

lemma set_newest_first [simp]: "set (newest_first ss) = set ss"
  by (simp add: newest_first_def)

text \<open>The uids asked for are the largest the search found.\<close>

lemma newest_uids_max:
  assumes "distinct uids" and "u \<in> set (newest_uids limit uids)" and "v \<in> set uids" and "u < v"
  shows "v \<in> set (newest_uids limit uids)"
proof -
  let ?xs = "rev (sort uids)"
  have sorted: "sorted_wrt (\<lambda>x y. y \<le> x) ?xs" by (simp add: sorted_wrt_rev)
  from assms(2) obtain i where i: "i < limit" "i < length ?xs" "?xs ! i = u"
    by (auto simp: newest_uids_def in_set_conv_nth)
  from assms(3) obtain j where j: "j < length ?xs" "?xs ! j = v"
    by (metis in_set_conv_nth set_rev set_sort)
  have "j < i"
  proof (rule ccontr)
    assume "\<not> j < i"
    then have "i = j \<or> i < j" by auto
    then have "v \<le> u" using sorted_wrt_nth_less [OF sorted, of i j] i j by auto
    with assms(4) show False by simp
  qed
  then show ?thesis using i j by (auto simp: newest_uids_def in_set_conv_nth intro!: exI [of _ j])
qed

text \<open>A listing or a search asks the server for at most \<open>limit\<close> messages, those with the largest uids of
  the reply to its search, and returns them newest first; when the server's reply to the fetch
  lists each message asked for at most once and no other, at most \<open>limit\<close> summaries result.\<close>

lemma search_fetches_newest:
  assumes "search_and_fetch ml net criterion limit w = (Ok ss, w2)"
    and "net_uid_search net criterion w = (Ok uids, w1)" and "distinct uids"
  shows "length (newest_uids limit uids) \<le> limit
    \<and> (\<forall>u \<in> set (newest_uids limit uids). \<forall>v \<in> set uids. u < v \<longrightarrow> v \<in> set (newest_uids limit uids))
    \<and> sorted_wrt (\<lambda>s t. ms_uid t \<le> ms_uid s) ss
    \<and> (newest_uids limit uids \<noteq> [] \<longrightarrow>
         (\<exists>fetches. net_uid_fetch net (uid_set (newest_uids limit uids)) ''(UID FLAGS BODY.PEEK[HEADER])'' w1
              = (Ok fetches, w2)
            \<and> set ss = {s. \<exists>f \<in> set fetches. summary_from_fetch ml f = Some s}
            \<and> (length fetches \<le> length (newest_uids limit uids) \<longrightarrow> length ss \<le> limit)))"
proof -
  let ?us = "newest_uids limit uids"
  have len: "length ?us \<le> limit" by (simp add: newest_uids_def)
  have f: "fetch_summaries ml net ?us w1 = (Ok ss, w2)"
    using assms(1,2) by (simp add: search_and_fetch_def)
  have srt: "sorted_wrt (\<lambda>s t. ms_uid t \<le> ms_uid s) ss"
    using f sorted_newest_first by (auto simp: fetch_summaries_def split: if_splits prod.splits sum.splits)
  have ex: "\<exists>fetches. net_uid_fetch net (uid_set ?us) ''(UID FLAGS BODY.PEEK[HEADER])'' w1 = (Ok fetches, w2)
      \<and> set ss = {s. \<exists>f \<in> set fetches. summary_from_fetch ml f = Some s}
      \<and> (length fetches \<le> length ?us \<longrightarrow> length ss \<le> limit)" if "?us \<noteq> []"
  proof -
    from f that obtain fetches where
      n: "net_uid_fetch net (uid_set ?us) ''(UID FLAGS BODY.PEEK[HEADER])'' w1 = (Ok fetches, w2)"
      "ss = newest_first (List.map_filter (summary_from_fetch ml) fetches)"
      by (auto simp: fetch_summaries_def split: prod.splits sum.splits)
    have "length ss \<le> length fetches" unfolding n(2) by (simp add: newest_first_def List.map_filter_def)
    moreover have "set ss = {s. \<exists>f \<in> set fetches. summary_from_fetch ml f = Some s}"
      unfolding n(2) by (auto simp: set_map_filter)
    ultimately show ?thesis using n(1) len by auto
  qed
  show ?thesis using len srt ex newest_uids_max [OF assms(3)] by blast
qed

definition demo_net :: "unit imap_net" where
  "demo_net = \<lparr>net_connect = (\<lambda>w. (Ok (), w)), net_examine = (\<lambda>m w. (True, w)),
     net_uid_search = (\<lambda>c w. (Ok [4, 9, 2], w)),
     net_uid_fetch = (\<lambda>s q w. (Ok [\<lparr>ft_uid = Some 4, ft_flag_seen = True, ft_header = None, ft_body = None\<rparr>], w)),
     net_logout = (\<lambda>w. w)\<rparr>"

definition demo_mail_lib :: mail_lib where
  "demo_mail_lib = \<lparr>lib_parse_message = (\<lambda>s. None), lib_lossy = (\<lambda>s. s)\<rparr>"

theorem search_fetches_newest_witness:
  "\<exists>ss w2. search_and_fetch demo_mail_lib demo_net ''ALL'' 2 () = (Ok ss, w2)
     \<and> length (newest_uids 2 [4, 9, 2 :: u32]) \<le> 2 \<and> sorted_wrt (\<lambda>s t. ms_uid t \<le> ms_uid s) ss"
proof -
  have s: "search_and_fetch demo_mail_lib demo_net ''ALL'' 2 () =
      (Ok [\<lparr>ms_uid = 4, ms_subject = [], ms_from = [], ms_date = [], ms_seen = True\<rparr>], ())"
    by (simp add: search_and_fetch_def demo_net_def demo_mail_lib_def fetch_summaries_def newest_uids_def
        List.map_filter_def summary_from_fetch_def newest_first_def Let_def)
  have u: "net_uid_search demo_net ''ALL'' () = (Ok [4, 9, 2], ())" by (simp add: demo_net_def)
  from search_fetches_newest [OF s u] s show ?thesis by (simp only: ) force
qed

end
