(* ===== verification/MailMain.thy ===== *)
theory MailMain
  imports MailServer ImapBackend
begin

text \<open>
  \<open>crates/mail/src/main.rs\<close>: the command line of the mail server. What goes to standard error is the
  list of its lines; the network is the one that a configuration opens.
\<close>

section \<open>The command line\<close>

definition SERVER_NAME :: string where "SERVER_NAME = ''mcp-lock-mail''"

definition mail_help :: "string \<Rightarrow> string list" where
  "mail_help version =
     [SERVER_NAME @ '' '' @ version @ '' '' @ em_dash @ '' read-only IMAP mail MCP server (stdio)'',
      [], ''USAGE:'', ''    '' @ SERVER_NAME @ '' [--fake]'', [], ''FLAGS:'',
      ''    --fake           Serve a built-in in-memory demo fixture (no network)'',
      ''    -h, --help       Print this help'',
      ''    -V, --version    Print version'',
      [], ''TOOLS (all read-only): search, list_messages, fetch_message'', [],
      ''CONFIG (real mode, from environment):'',
      ''    MAIL_IMAP_HOST       IMAP server hostname (required)'',
      ''    MAIL_IMAP_PORT       IMAP server port (default 993)'',
      ''    MAIL_IMAP_USERNAME   IMAP username (required)'',
      ''    MAIL_IMAP_PASSWORD   IMAP password / app password (required)'',
      ''    MAIL_DEFAULT_MAILBOX Default mailbox (default INBOX)'']"

definition mail_serve ::
  "mail_json \<Rightarrow> 'w mail_server \<Rightarrow> 'o writer \<Rightarrow> string \<Rightarrow> stream_end \<Rightarrow> 'w \<times> 'o \<Rightarrow>
     nat \<times> string list \<times> 'w \<times> 'o" where
  "mail_serve mj srv wr bytes fin s =
     (case mail_run mj srv wr bytes fin s of
        (Inr u, s') \<Rightarrow> (0, [], s')
      | (Inl e, s') \<Rightarrow> (1, [SERVER_NAME @ '': I/O error: '' @ e], s'))"

definition run_fake ::
  "mail_json \<Rightarrow> (string \<Rightarrow> string) \<Rightarrow> string \<Rightarrow> 'o writer \<Rightarrow> string \<Rightarrow> stream_end \<Rightarrow> 'o \<Rightarrow>
     nat \<times> string list \<times> fake_store \<times> 'o" where
  "run_fake mj lower version wr bytes fin out =
     (case mail_serve mj
             (server_new (fake_api lower) SERVER_NAME version ''INBOX'')
             wr bytes fin (demo_store, out) of
        (code, ls, s) \<Rightarrow>
          (code, (SERVER_NAME @ '' '' @ version @ '': starting with in-memory demo fixture (no network)'') # ls, s))"

definition startup_line :: "string \<Rightarrow> imap_config \<Rightarrow> string" where
  "startup_line version c =
     SERVER_NAME @ '' '' @ version @ '': starting (host='' @ ic_host c @ '', port='' @ dec (unat (ic_port c))
       @ '', default_mailbox='' @ ic_default_mailbox c @ '')''"

definition run_real ::
  "mail_json \<Rightarrow> mail_lib \<Rightarrow> 'n imap_client \<Rightarrow> string \<Rightarrow> string smap \<Rightarrow> 'o writer \<Rightarrow> string \<Rightarrow>
     stream_end \<Rightarrow> 'n \<times> 'o \<Rightarrow> nat \<times> string list \<times> 'n \<times> 'o" where
  "run_real mj ml il version vars wr bytes fin s =
     (case config_from_env vars of
        Inl e \<Rightarrow>
          (1, [SERVER_NAME @ '': configuration error: '' @ config_error_text e,
               ''set the MAIL_IMAP_* environment variables (see README), or use --fake''], s)
      | Inr config \<Rightarrow>
          (case mail_serve mj
                  (server_new (imap_api ml (backend_net il config)) SERVER_NAME version
                     (ic_default_mailbox config)) wr bytes fin s of
             (code, ls, s') \<Rightarrow> (code, startup_line version config # ls, s')))"

text \<open>The whole program: exit code, lines on standard error, lines printed, and the worlds.\<close>

definition mail_main ::
  "mail_json \<Rightarrow> (string \<Rightarrow> string) \<Rightarrow> mail_lib \<Rightarrow> 'n imap_client \<Rightarrow> string \<Rightarrow> string list \<Rightarrow>
     string smap \<Rightarrow> 'o writer \<Rightarrow> string \<Rightarrow> stream_end \<Rightarrow> 'n \<times> 'o \<Rightarrow>
     nat \<times> string list \<times> string list \<times> 'n \<times> 'o" where
  "mail_main mj lower ml il version args vars wr bytes fin s =
     (case args of
        [] \<Rightarrow> (case run_real mj ml il version vars wr bytes fin s of (code, ls, s') \<Rightarrow> (code, ls, [], s'))
      | a # rest \<Rightarrow>
          if a = ''--version'' \<or> a = ''-V'' then (0, [], [SERVER_NAME @ '' '' @ version], s)
          else if a = ''--help'' \<or> a = ''-h'' then (0, [], mail_help version, s)
          else if a = ''--fake'' then
            (case run_fake mj lower version wr bytes fin (snd s) of
               (code, ls, store, out) \<Rightarrow> (code, ls, [], fst s, out))
          else
            (2, [SERVER_NAME @ '': unknown argument '' @ quoted a,
                 ''run `'' @ SERVER_NAME @ '' --help` for usage''], [], s))"

section \<open>Secrecy of the password\<close>

text \<open>
  The password is used for nothing but the login: of two environments that differ only in
  the (non-empty) password, either both are refused with the same error, or both are accepted with
  configurations that differ only in the password, and these print the same, in the debug output
  and in the line logged at the start.
\<close>

lemma password_never_shown:
  assumes "\<And>k. k \<noteq> PASSWORD \<Longrightarrow> lookup k = lookup' k"
    and "lookup PASSWORD = Some p" "lookup' PASSWORD = Some p'" "p \<noteq> []" "p' \<noteq> []"
  shows "case config_from_lookup lookup of
      Inl e \<Rightarrow> config_from_lookup lookup' = Err e
    | Inr c \<Rightarrow> config_from_lookup lookup' = Ok (c\<lparr>ic_password := p'\<rparr>) \<and> ic_password c = p
        \<and> config_debug show_str (c\<lparr>ic_password := p'\<rparr>) = config_debug show_str c
        \<and> startup_line version (c\<lparr>ic_password := p'\<rparr>) = startup_line version c"
proof -
  have same: "lookup HOST = lookup' HOST" "lookup USERNAME = lookup' USERNAME"
    "lookup PORT = lookup' PORT" "lookup DEFAULT_MAILBOX_VAR = lookup' DEFAULT_MAILBOX_VAR"
    by (rule assms(1); simp add: env_names)+
  show ?thesis
    unfolding config_from_lookup_def Let_def same assms(2,3)
    by (simp add: unset_def assms(4,5) config_debug_def startup_line_def split: sum.split option.split)
qed

theorem password_never_shown_witness:
  "\<exists>c. config_from_lookup ([HOST \<mapsto> ''h'', USERNAME \<mapsto> ''u'', PASSWORD \<mapsto> ''two'', PORT \<mapsto> ''143'']) = Ok c
     \<and> ic_port c = 143 \<and> ic_password c = ''two''"
proof -
  let ?l = "\<lambda>p. [HOST \<mapsto> ''h'', USERNAME \<mapsto> ''u'', PASSWORD \<mapsto> p, PORT \<mapsto> ''143'']"
  have port: "parse_uint 10 65536 ''143'' = Some 143"
    by (simp add: parse_uint_def to_digit_def)
  have one: "config_from_lookup (?l ''one'') =
      Ok \<lparr>ic_host = ''h'', ic_port = 143, ic_username = ''u'', ic_password = ''one'',
          ic_default_mailbox = ''INBOX''\<rparr>"
    by (simp add: config_from_lookup_def env_names unset_def port DEFAULT_MAILBOX_def)
  have "?l ''one'' k = ?l ''two'' k" if "k \<noteq> PASSWORD" for k using that by (simp add: env_names)
  from password_never_shown [where lookup = "?l ''one''" and lookup' = "?l ''two''" and p = "''one''"
      and p' = "''two''", OF this] one
  show ?thesis by (simp add: env_names)
qed

section \<open>The fixture\<close>

lemma fake_run_read_only:
  "sv_store srv = fake_api lower \<Longrightarrow> mail_run mj srv wr bytes fin (w, out) = (r, w', out') \<Longrightarrow> w' = w"
proof (induction "length bytes" arbitrary: bytes w out rule: less_induct)
  case less
  show ?case
  proof (cases "lines_next bytes fin")
    case (LinesItem l rest)
    have shorter: "length rest < length bytes" by (rule lines_next_shorter [OF LinesItem])
    obtain a w1 where p: "mail_process_line mj srv l w = (a, w1)" by force
    have w1: "w1 = w" using fake_process_read_only [OF less.prems(1), of mj l w] p by simp
    from less.prems(2) LinesItem p w1 shorter show ?thesis
      by (subst (asm) mail_run.simps)
        (auto intro: less.hyps [OF shorter less.prems(1)] split: if_splits option.splits prod.splits sum.splits)
  qed (use less.prems in \<open>auto simp: mail_run.simps\<close>)
qed

text \<open>
  Whatever bytes a client sends and whatever the output does, the demonstration server ends
  with the fixture it started from: none of its tools changes a message, whether the text of a
  message asks for it or not.
\<close>

lemma fixture_unchanged:
  "fst (snd (snd (run_fake mj lower version wr bytes fin out))) = demo_store"
proof -
  let ?srv = "server_new (fake_api lower) SERVER_NAME version ''INBOX''"
  obtain r w' out' where r: "mail_run mj ?srv wr bytes fin (demo_store, out) = (r, w', out')"
    by (metis prod_cases3)
  have "w' = demo_store" by (rule fake_run_read_only [OF _ r]) (simp add: server_new_def)
  with r show ?thesis by (cases r) (simp_all add: run_fake_def mail_serve_def)
qed

end
