(* ===== verification/ImapSession.thy ===== *)
theory ImapSession
  imports ImapBackend
begin

text \<open>
  The conversation of the IMAP backend with the server, as the sequence of the calls it makes of
  the client library: what a session consists of, whatever the library answers.
\<close>

datatype imap_call =
    CallTls
  | CallConnect "string \<times> 16 word" string
  | CallLogin string string
  | CallExamine string
  | CallSearch string
  | CallFetch string string
  | CallLogout
  | CallDrop

text \<open>A library that does what another does and notes every call.\<close>

definition noting :: "imap_call \<Rightarrow> ('n \<Rightarrow> 'a \<times> 'n) \<Rightarrow> 'n \<times> imap_call list \<Rightarrow> 'a \<times> 'n \<times> imap_call list" where
  "noting call op s = (case op (fst s) of (a, w) \<Rightarrow> (a, w, snd s @ [call]))"

definition noting_unit :: "imap_call \<Rightarrow> ('n \<Rightarrow> 'n) \<Rightarrow> 'n \<times> imap_call list \<Rightarrow> 'n \<times> imap_call list" where
  "noting_unit call op s = (op (fst s), snd s @ [call])"

definition traced :: "'n imap_client \<Rightarrow> ('n \<times> imap_call list) imap_client" where
  "traced il =
     \<lparr>il_tls = noting CallTls (il_tls il),
      il_connect = (\<lambda>addr domain. noting (CallConnect addr domain) (il_connect il addr domain)),
      il_login = (\<lambda>u p. noting (CallLogin u p) (il_login il u p)),
      il_examine = (\<lambda>m. noting (CallExamine m) (il_examine il m)),
      il_uid_search = (\<lambda>q. noting (CallSearch q) (il_uid_search il q)),
      il_uid_fetch = (\<lambda>uids items. noting (CallFetch uids items) (il_uid_fetch il uids items)),
      il_logout = noting_unit CallLogout (il_logout il),
      il_drop = noting_unit CallDrop (il_drop il)\<rparr>"

text \<open>
  The queries of a session: a search and fetches, and every fetch asks for its parts with
  \<open>BODY.PEEK\<close>, which does not mark a message as read.
\<close>

fun peeking :: "imap_call \<Rightarrow> bool" where
  "peeking (CallSearch criterion) = True"
| "peeking (CallFetch uids items) =
     (items = ''(UID FLAGS BODY.PEEK[HEADER])'' \<or> items = ''(UID FLAGS BODY.PEEK[])'')"
| "peeking _ = False"

definition log_in :: "imap_config \<Rightarrow> imap_call list" where
  "log_in config =
     [CallTls, CallConnect (ic_host config, ic_port config) (ic_host config),
      CallLogin (ic_username config) (ic_password config)]"

text \<open>
  A whole operation: nothing for a mailbox name that is refused, an opening that failed on the way
  (after a failed login the client is dropped), or the opening, an EXAMINE of the mailbox, at most
  two queries that change nothing, and one logout.
\<close>

definition legal_session :: "imap_config \<Rightarrow> string \<Rightarrow> imap_call list \<Rightarrow> bool" where
  "legal_session config mailbox calls \<longleftrightarrow>
     (if unsafe_mailbox mailbox then calls = []
      else calls = take 1 (log_in config) \<or> calls = take 2 (log_in config)
        \<or> calls = log_in config @ [CallDrop]
        \<or> (\<exists>queries. calls = log_in config @ CallExamine mailbox # queries @ [CallLogout]
             \<and> list_all peeking queries \<and> length queries \<le> 2))"

abbreviation traced_net :: "'n imap_client \<Rightarrow> imap_config \<Rightarrow> ('n \<times> imap_call list) imap_net" where
  "traced_net il config \<equiv> backend_net (traced il) config"

text \<open>An operation inside a session only adds queries.\<close>

definition only_queries :: "('n \<times> imap_call list \<Rightarrow> 'a \<times> 'n \<times> imap_call list) \<Rightarrow> bool" where
  "only_queries op \<longleftrightarrow>
     (\<forall>w calls. \<exists>queries. snd (snd (op (w, calls))) = calls @ queries \<and> list_all peeking queries
        \<and> length queries \<le> 2)"

lemma only_queriesE:
  assumes "only_queries op"
  obtains queries where "snd (snd (op (w, calls))) = calls @ queries" "list_all peeking queries" "length queries \<le> 2"
  using assms unfolding only_queries_def by blast

lemma traced_connect:
  "snd (snd (imap_connect (traced il) config (w, calls))) \<in>
     (if isl (fst (imap_connect (traced il) config (w, calls)))
      then {calls @ take 1 (log_in config), calls @ take 2 (log_in config), calls @ log_in config @ [CallDrop]}
      else {calls @ log_in config})"
  by (simp add: imap_connect_def traced_def noting_def noting_unit_def log_in_def case_prod_beta
      split: sum.split)

lemma with_mailbox_legal:
  assumes "only_queries op"
  shows "legal_session config mailbox (snd (snd (with_mailbox (traced_net il config) mailbox op (w, []))))"
proof (cases "unsafe_mailbox mailbox")
  case True
  then show ?thesis by (simp add: legal_session_def with_mailbox_def)
next
  case False
  obtain r w1 calls where c: "imap_connect (traced il) config (w, []) = (r, w1, calls)"
    by (metis prod_cases3)
  note t = traced_connect [of il config w "[]", unfolded c]
  show ?thesis
  proof (cases r)
    case (Inl e)
    with t False c show ?thesis
      by (auto simp: legal_session_def with_mailbox_def backend_net_def)
  next
    case (Inr u)
    with t have calls: "calls = log_in config" by simp
    obtain ok w2 where x: "il_examine il mailbox w1 = (ok, w2)" by force
    have ex: "net_examine (traced_net il config) mailbox (w1, calls) = (ok, w2, log_in config @ [CallExamine mailbox])"
      by (simp add: backend_net_def traced_def noting_def x calls)
    have out: "net_logout (traced_net il config) (w, c) = (il_logout il w, c @ [CallLogout])" for w c
      by (simp add: backend_net_def traced_def noting_unit_def)
    have con: "net_connect (traced_net il config) (w, []) = (Ok u, w1, calls)"
      using c Inr by (simp add: backend_net_def)
    from assms obtain queries where q: "snd (snd (op (w2, log_in config @ [CallExamine mailbox]))) =
        (log_in config @ [CallExamine mailbox]) @ queries" "list_all peeking queries" "length queries \<le> 2"
      by (rule only_queriesE)
    show ?thesis
    proof (cases ok)
      case True
      have "snd (snd (with_mailbox (traced_net il config) mailbox op (w, []))) =
          log_in config @ CallExamine mailbox # queries @ [CallLogout]"
        using q(1) by (simp add: with_mailbox_def False con ex True out case_prod_beta prod_eq_iff)
          (metis append_assoc out prod.collapse snd_conv append_Cons append_Nil)
      with q False show ?thesis by (auto simp: legal_session_def)
    next
      case nok: False
      have "snd (snd (with_mailbox (traced_net il config) mailbox op (w, []))) =
          log_in config @ CallExamine mailbox # [] @ [CallLogout]"
        by (simp add: with_mailbox_def False con ex nok out)
      with False show ?thesis by (auto simp: legal_session_def intro: exI [of _ "[]"])
    qed
  qed
qed

lemma net_uid_search_traced:
  "snd (snd (net_uid_search (traced_net il config) q (w, calls))) = calls @ [CallSearch q]"
  by (simp add: backend_net_def traced_def noting_def case_prod_beta)

lemma net_uid_fetch_traced:
  "snd (snd (net_uid_fetch (traced_net il config) uids items (w, calls))) = calls @ [CallFetch uids items]"
  by (simp add: backend_net_def traced_def noting_def case_prod_beta)

lemma fetch_summaries_traced:
  "\<exists>queries. snd (snd (fetch_summaries ml (traced_net il config) uids (w, calls))) = calls @ queries
     \<and> list_all peeking queries \<and> length queries \<le> 1"
proof (cases "uids = []")
  case True
  then show ?thesis by (simp add: fetch_summaries_def)
next
  case False
  have "snd (snd (fetch_summaries ml (traced_net il config) uids (w, calls))) =
      calls @ [CallFetch (uid_set uids) ''(UID FLAGS BODY.PEEK[HEADER])'']"
    using net_uid_fetch_traced [of il config "uid_set uids" "''(UID FLAGS BODY.PEEK[HEADER])''" w calls]
    by (auto simp: fetch_summaries_def False split: prod.splits sum.splits)
  then show ?thesis by (intro exI [of _ "[CallFetch _ _]"] conjI) (assumption, simp_all)
qed

lemma search_and_fetch_queries:
  "only_queries (search_and_fetch ml (traced_net il config) criterion limit)"
  unfolding only_queries_def
proof (intro allI)
  fix w calls
  obtain r w1 c1 where s: "net_uid_search (traced_net il config) criterion (w, calls) = (r, w1, c1)"
    by (metis prod_cases3)
  have c1: "c1 = calls @ [CallSearch criterion]"
    using net_uid_search_traced [of il config criterion w calls] s by simp
  show "\<exists>queries. snd (snd (search_and_fetch ml (traced_net il config) criterion limit (w, calls))) = calls @ queries
      \<and> list_all peeking queries \<and> length queries \<le> 2"
  proof (cases r)
    case (Inl e)
    then show ?thesis
      by (intro exI [of _ "[CallSearch criterion]"]) (simp add: search_and_fetch_def s c1)
  next
    case (Inr uids)
    obtain queries where q: "snd (snd (fetch_summaries ml (traced_net il config) (newest_uids limit uids) (w1, c1))) =
        c1 @ queries" "list_all peeking queries" "length queries \<le> 1"
      using fetch_summaries_traced [of ml il config "newest_uids limit uids" w1 c1] by blast
    then show ?thesis
      by (intro exI [of _ "CallSearch criterion # queries"]) (simp add: search_and_fetch_def s Inr c1)
  qed
qed

lemma imap_fetch_queries:
  "only_queries (\<lambda>w. case net_uid_fetch (traced_net il config) uids ''(UID FLAGS BODY.PEEK[])'' w of
     (Inl e, w') \<Rightarrow> (Err (backend_err e), w')
   | (Inr [], w') \<Rightarrow> (Err (MessageNotFound uid), w')
   | (Inr (f # fs), w') \<Rightarrow> (Ok (message_from_fetch ml uid f), w'))"
  unfolding only_queries_def
proof (intro allI)
  fix w calls
  show "\<exists>queries. snd (snd (case net_uid_fetch (traced_net il config) uids ''(UID FLAGS BODY.PEEK[])'' (w, calls) of
       (Inl e, w') \<Rightarrow> (Err (backend_err e), w')
     | (Inr [], w') \<Rightarrow> (Err (MessageNotFound uid), w')
     | (Inr (f # fs), w') \<Rightarrow> (Ok (message_from_fetch ml uid f), w'))) = calls @ queries
      \<and> list_all peeking queries \<and> length queries \<le> 2"
    using net_uid_fetch_traced [of il config uids "''(UID FLAGS BODY.PEEK[])''" w calls]
    by (intro exI [of _ "[CallFetch uids ''(UID FLAGS BODY.PEEK[])'']"])
      (auto split: prod.splits sum.splits list.splits)
qed

text \<open>
  C40: whatever the server answers, an operation of the IMAP store is one whole session on the
  configured host: the credentials go out once, after TLS is up, every session that was logged in
  is logged out exactly once, and in it the mailbox is only opened by EXAMINE and read by peeking;
  a mailbox name with a CR, an LF or a NUL makes no call at all.
\<close>

theorem imap_session_protocol:
  "legal_session config mailbox (snd (snd (imap_list ml (traced_net il config) mailbox limit (w, []))))
   \<and> legal_session config mailbox (snd (snd (imap_search ml (traced_net il config) mailbox query limit (w, []))))
   \<and> legal_session config mailbox (snd (snd (imap_fetch ml (traced_net il config) mailbox uid (w, []))))"
  unfolding imap_list_def imap_search_def imap_fetch_def
  by (intro conjI with_mailbox_legal search_and_fetch_queries imap_fetch_queries)

text \<open>The tracing changes nothing else: a call gives the result and the world of the library traced.\<close>

lemma noting_same:
  "noting call op (w, calls) = (fst (op w), snd (op w), calls @ [call])"
  "noting_unit call op' (w, calls) = (op' w, calls @ [call])"
  by (simp_all add: noting_def noting_unit_def case_prod_beta)

end
