(* ===== verification/Jobs.thy ===== *)
theory Jobs
  imports McpHandler
begin

text \<open>
  The two handlers as the threads run them. \<open>HttpEndpoint::run\<close> and \<open>ControlServer::run\<close> spawn one
  thread per request, and a handler method holds a mutex only while it uses what the mutex
  guards: it reads the clock first, then takes one lock after another, never two at once. A job
  is a request together with the point its thread has reached; a step of a job runs up to and
  including its next critical section. What was read before a lock (the instant \<open>t\<close>, a verified
  submission) is part of the job.
\<close>

section \<open>What is left to do after the deciding section\<close>

datatype effect =
    ENotify
  | ETape audit_event
  | EFile string
  | ERing string
  | ELog string

text \<open>\<open>AuditLog::record\<close> takes two locks in turn: the file's, then the ring's.\<close>

definition audit_file :: "nat option \<times> nat option \<Rightarrow> string \<Rightarrow> audit_log \<Rightarrow> audit_log" where
  "audit_file io line log =
     (case al_file log of
        None \<Rightarrow> log
      | Some m \<Rightarrow>
          (case lock m of
             None \<Rightarrow> log
           | Some contents \<Rightarrow>
               log\<lparr>al_file := Some (put m (append_bytes (snd io) [CHR 0x0A]
                                     (append_bytes (fst io) line contents)))\<rparr>))"

definition audit_ring :: "string \<Rightarrow> audit_log \<Rightarrow> audit_log" where
  "audit_ring line log =
     (case lock (al_recent log) of
        None \<Rightarrow> log
      | Some lines \<Rightarrow> log\<lparr>al_recent := put (al_recent log) (push_capped recent_cap lines line)\<rparr>)"

fun exec_effect ::
  "('k, 'c, 's) libs \<Rightarrow> tick \<Rightarrow> effect \<Rightarrow> ('k, 'c, 's) broker \<Rightarrow> effect list \<times> ('k, 'c, 's) broker" where
  "exec_effect lb tk ENotify b =
     ([], b\<lparr>bk_notifier := notify_tools_list_changed (lib_text lb) (bk_notifier b)\<rparr>)"
| "exec_effect lb tk (ETape ev) b =
     (let line = serialize_line (lib_entry lb) (tk_wall tk) ev in ([EFile line, ERing line], b))"
| "exec_effect lb tk (EFile line) b = ([], b\<lparr>bk_audit := audit_file (tk_io tk) line (bk_audit b)\<rparr>)"
| "exec_effect lb tk (ERing line) b = ([], b\<lparr>bk_audit := audit_ring line (bk_audit b)\<rparr>)"
| "exec_effect lb tk (ELog message) b = ([], log_record tk message b)"

section \<open>Jobs\<close>

datatype reply = ControlReply control_response | McpReply json

datatype job =
    JControl control_request
  | JStatusAt timestamp
  | JListAt timestamp
  | JLifecycleAt timestamp lifecycle_cmd string
  | JIssueAt timestamp string purpose
  | JSubmitAt timestamp string string string
  | JVerified timestamp string verified
  | JRevokeAt timestamp string
  | JMcp json
  | JToolsListAt timestamp json
  | JToolsCallAt timestamp json string json
  | JAfter "effect list" reply

abbreviation answered :: "control_response \<Rightarrow> job" where
  "answered resp \<equiv> JAfter [] (ControlReply resp)"

abbreviation mcp_answered :: "json \<Rightarrow> job" where
  "mcp_answered resp \<equiv> JAfter [] (McpReply resp)"

fun finished :: "job \<Rightarrow> bool" where
  "finished (JAfter [] r) = True"
| "finished _ = False"

text \<open>A tick whose monotonic reading was taken earlier by the same thread.\<close>

definition at :: "timestamp \<Rightarrow> tick \<Rightarrow> tick" where
  "at t tk = tk\<lparr>tk_now := t\<rparr>"

section \<open>From the request to its first lock\<close>

definition elevation_request :: "string \<Rightarrow> u64 option \<Rightarrow> string + requested_mode" where
  "elevation_request m ttl_secs =
     (if m = ''duration'' then
        (case ttl_secs of
           Some ttl \<Rightarrow> Ok (ReqDuration ttl)
         | None \<Rightarrow> Err ''duration mode requires ttl_secs'')
      else if m = ''until_revoked'' then Ok ReqUntilRevoked
      else Err ''mode must be \"duration\" or \"until_revoked\"'')"

fun control_begin :: "tick \<Rightarrow> control_request \<Rightarrow> ('k, 'c, 's) broker \<Rightarrow> job" where
  "control_begin tk CStatus b = JStatusAt (tk_now tk)"
| "control_begin tk CList b = JListAt (tk_now tk)"
| "control_begin tk (CLogs limit) b = answered (logs limit b)"
| "control_begin tk (CStart sid) b = JLifecycleAt (tk_now tk) LcStart sid"
| "control_begin tk (CStop sid) b = JLifecycleAt (tk_now tk) LcStop sid"
| "control_begin tk (CPause sid) b = JLifecycleAt (tk_now tk) LcPause sid"
| "control_begin tk (CResume sid) b = JLifecycleAt (tk_now tk) LcResume sid"
| "control_begin tk (CRequestElevation client sid m ttl) b =
     (case elevation_request m ttl of
        Inl message \<Rightarrow> answered (err message)
      | Inr rm \<Rightarrow> JIssueAt (tk_now tk) client (Elevate sid rm))"
| "control_begin tk (CSubmitElevation client n sig) b = JSubmitAt (tk_now tk) client n sig"
| "control_begin tk (CRequestConfirm client sid tool) b = JIssueAt (tk_now tk) client (ConfirmTool sid tool)"
| "control_begin tk (CSubmitConfirm client n sig) b = JSubmitAt (tk_now tk) client n sig"
| "control_begin tk (CRevoke sid) b = JRevokeAt (tk_now tk) sid"

definition mcp_begin :: "string \<Rightarrow> tick \<Rightarrow> json \<Rightarrow> job" where
  "mcp_begin version tk req =
     (let rid = (case jget req ''id'' of Some i \<Rightarrow> i | None \<Rightarrow> JNull);
          meth = (case Option.bind (jget req ''method'') as_str of Some m \<Rightarrow> m | None \<Rightarrow> [])
      in
        if meth = ''initialize'' then mcp_answered (success rid (initialize_result version))
        else if meth = ''ping'' then mcp_answered (success rid (jobj []))
        else if meth = ''tools/list'' then JToolsListAt (tk_now tk) rid
        else if meth = ''tools/call'' then
          (case call_params (jget req ''params'') of
             Inl message \<Rightarrow> mcp_answered (mcp_error rid (- 32602) message)
           | Inr (name, arguments) \<Rightarrow> JToolsCallAt (tk_now tk) rid name arguments)
        else mcp_answered (mcp_error rid (- 32601) (''method not found: '' @ meth)))"

section \<open>The critical sections\<close>

definition lifecycle_section ::
  "('k, 'c, 's) libs \<Rightarrow> timestamp \<Rightarrow> lifecycle_cmd \<Rightarrow> string \<Rightarrow> ('k, 'c, 's) broker \<Rightarrow>
     job \<times> ('k, 'c, 's) broker" where
  "lifecycle_section lb t op sid b =
     (case lock (bk_agg b) of
        None \<Rightarrow> (answered internal_error, b)
      | Some agg \<Rightarrow>
          (let before = ag_exposure_snapshot agg t;
               (result, agg') = run_lifecycle (lib_host lb) op sid agg;
               changed = (is_ok result \<and> ag_exposure_snapshot agg' t \<noteq> before)
           in
             ((case result of
                 Inr u \<Rightarrow>
                   JAfter ((if changed then [ENotify] else []) @ [ELog (verb op @ '' '' @ sid)])
                     (ControlReply (RDone (verb op @ '' '' @ sid @ '': ok'')))
               | Inl e \<Rightarrow>
                   JAfter [ELog (verb op @ '' '' @ sid @ '' failed: '' @ aggregator_error_text e)]
                     (ControlReply (RError (aggregator_error_text e)))),
              b\<lparr>bk_agg := put (bk_agg b) agg'\<rparr>)))"

definition submit_section ::
  "('k, 'c, 's) libs \<Rightarrow> timestamp \<Rightarrow> string \<Rightarrow> string \<Rightarrow> string \<Rightarrow> ('k, 'c, 's) broker \<Rightarrow>
     job \<times> ('k, 'c, 's) broker" where
  "submit_section lb t client nonce_hex signature_hex b =
     (case nonce_from_hex nonce_hex of
        None \<Rightarrow> (answered (err ''malformed nonce''), b)
      | Some n \<Rightarrow>
          (case decode_hex signature_hex of
             None \<Rightarrow> (answered (err ''malformed signature''), b)
           | Some signature \<Rightarrow>
               (case lock (bk_nonces b) of
                  None \<Rightarrow> (answered internal_error, b)
                | Some st \<Rightarrow>
                    (let (verified, st') =
                       verify_and_consume (lib_crypto lb) st client n signature (bk_registry b) t
                     in
                       ((case verified of
                           Inr v \<Rightarrow> JVerified t client v
                         | Inl e \<Rightarrow>
                             JAfter
                               [ETape (ElevationDenied ''(unknown)'' client (elevation_error_text e)),
                                ELog (''verification rejected for '' @ client @ '': '' @ elevation_error_text e)]
                               (ControlReply (reject e))),
                        b\<lparr>bk_nonces := put (bk_nonces b) st'\<rparr>)))))"

text \<open>Grant and revoke change one slot under the aggregator's lock and compare the exposure.\<close>

definition slot_section ::
  "timestamp \<Rightarrow> string \<Rightarrow> (server_slot \<Rightarrow> server_slot) \<Rightarrow> effect list \<Rightarrow> control_response \<Rightarrow>
     ('k, 'c, 's) broker \<Rightarrow> job \<times> ('k, 'c, 's) broker" where
  "slot_section t sid f after resp b =
     (case lock (bk_agg b) of
        None \<Rightarrow> (answered internal_error, b)
      | Some agg \<Rightarrow>
          (let before = ag_exposure_snapshot agg t in
           if server (ag_state agg) sid = None then (answered (err (''unknown server: '' @ sid)), b)
           else
             (let agg' = change_slot sid f agg;
                  changed = (ag_exposure_snapshot agg' t \<noteq> before)
              in (JAfter ((if changed then [ENotify] else []) @ after) (ControlReply resp),
                  b\<lparr>bk_agg := put (bk_agg b) agg'\<rparr>))))"

definition elevation_section ::
  "timestamp \<Rightarrow> string \<Rightarrow> string \<Rightarrow> elevation \<Rightarrow> ('k, 'c, 's) broker \<Rightarrow> job \<times> ('k, 'c, 's) broker" where
  "elevation_section t client sid e =
     (let m = mode_text (mode e) in
      slot_section t sid (grant_elevation e)
        [ETape (ElevationGranted sid client m), ELog (''elevation granted on '' @ sid @ '' ('' @ m @ '')'')]
        (RDone (''elevated '' @ sid @ '' ('' @ m @ '')'')))"

definition revoke_section ::
  "timestamp \<Rightarrow> string \<Rightarrow> ('k, 'c, 's) broker \<Rightarrow> job \<times> ('k, 'c, 's) broker" where
  "revoke_section t sid =
     slot_section t sid revoke_elevation
       [ETape (ElevationRevoked sid ''operator''), ELog (''elevation revoked on '' @ sid)]
       (RDone (''revoked '' @ sid))"

definition confirm_section ::
  "timestamp \<Rightarrow> string \<Rightarrow> string \<Rightarrow> ('k, 'c, 's) broker \<Rightarrow> job \<times> ('k, 'c, 's) broker" where
  "confirm_section t sid tool b =
     (case lock (bk_agg b) of
        None \<Rightarrow> (answered internal_error, b)
      | Some agg \<Rightarrow>
          (JAfter [ETape (ConfirmApproved sid tool), ELog (''confirm approved for '' @ sid @ ''.'' @ tool)]
             (ControlReply (RDone (''confirmed '' @ sid @ ''.'' @ tool @ '' (single use)''))),
           b\<lparr>bk_agg := put (bk_agg b) (approve_action sid tool t agg)\<rparr>))"

fun apply_section ::
  "timestamp \<Rightarrow> string \<Rightarrow> verified \<Rightarrow> ('k, 'c, 's) broker \<Rightarrow> job \<times> ('k, 'c, 's) broker" where
  "apply_section t client (VElevation sid e) b = elevation_section t client sid e b"
| "apply_section t client (VConfirm sid tool) b = confirm_section t sid tool b"

text \<open>A named audit event of the MCP handler, when the name splits.\<close>

definition tape_named_effects :: "(string \<Rightarrow> string \<Rightarrow> audit_event) \<Rightarrow> string \<Rightarrow> effect list" where
  "tape_named_effects ev name =
     (case split_once CHR ''.'' name of None \<Rightarrow> [] | Some (sid, tool) \<Rightarrow> [ETape (ev sid tool)])"

definition call_section ::
  "('k, 'c, 's) libs \<Rightarrow> timestamp \<Rightarrow> json \<Rightarrow> string \<Rightarrow> json \<Rightarrow> ('k, 'c, 's) broker \<Rightarrow>
     job \<times> ('k, 'c, 's) broker" where
  "call_section lb t rid name arguments b =
     (case lock (bk_agg b) of
        None \<Rightarrow> (mcp_answered (mcp_internal_error rid), b)
      | Some agg \<Rightarrow>
          (let cls = named_class name agg;
               (result, agg') = call (host_api (lib_host lb)) name arguments t agg
           in
             ((case result of
                 Inr v \<Rightarrow>
                   JAfter (if is_some_and cls requires_elevation
                           then tape_named_effects WriteToolInvoked name else [])
                     (McpReply (success rid v))
               | Inl e \<Rightarrow>
                   JAfter (if is_not_confirmed e then tape_named_effects ConfirmRejected name else [])
                     (McpReply (success rid (tool_error_result (aggregator_error_text e))))),
              b\<lparr>bk_agg := put (bk_agg b) agg'\<rparr>)))"

section \<open>A step of a job\<close>

fun job_step ::
  "('k, 'c, 's) libs \<Rightarrow> string \<Rightarrow> tick \<Rightarrow> job \<Rightarrow> ('k, 'c, 's) broker \<Rightarrow> job \<times> ('k, 'c, 's) broker" where
  "job_step lb version tk (JControl req) b = (control_begin tk req b, b)"
| "job_step lb version tk (JStatusAt t) b = (answered (status (at t tk) b), b)"
| "job_step lb version tk (JListAt t) b = (answered (list_tool_names (at t tk) b), b)"
| "job_step lb version tk (JLifecycleAt t op sid) b = lifecycle_section lb t op sid b"
| "job_step lb version tk (JIssueAt t client p) b =
     (let (resp, b') = issue_nonce (at t tk) client p b in (answered resp, b'))"
| "job_step lb version tk (JSubmitAt t client n sig) b = submit_section lb t client n sig b"
| "job_step lb version tk (JVerified t client v) b = apply_section t client v b"
| "job_step lb version tk (JRevokeAt t sid) b = revoke_section t sid b"
| "job_step lb version tk (JMcp req) b = (mcp_begin version tk req, b)"
| "job_step lb version tk (JToolsListAt t rid) b = (mcp_answered (handle_tools_list (at t tk) rid b), b)"
| "job_step lb version tk (JToolsCallAt t rid name arguments) b = call_section lb t rid name arguments b"
| "job_step lb version tk (JAfter [] r) b = (JAfter [] r, b)"
| "job_step lb version tk (JAfter (e # es) r) b =
     (let (es', b') = exec_effect lb tk e b in (JAfter (es' @ es) r, b'))"

section \<open>Every job ends\<close>

text \<open>An upper bound on the steps a job still takes; each of its steps lowers it.\<close>

fun effect_cost :: "effect \<Rightarrow> nat" where
  "effect_cost (ETape ev) = 3"
| "effect_cost _ = 1"

definition effects_cost :: "effect list \<Rightarrow> nat" where
  "effects_cost es = sum_list (map effect_cost es)"

fun steps_left :: "job \<Rightarrow> nat" where
  "steps_left (JControl req) = 8"
| "steps_left (JStatusAt t) = 1"
| "steps_left (JListAt t) = 1"
| "steps_left (JLifecycleAt t op sid) = 3"
| "steps_left (JIssueAt t client p) = 1"
| "steps_left (JSubmitAt t client n sig) = 7"
| "steps_left (JVerified t client v) = 6"
| "steps_left (JRevokeAt t sid) = 6"
| "steps_left (JMcp req) = 5"
| "steps_left (JToolsListAt t rid) = 1"
| "steps_left (JToolsCallAt t rid name arguments) = 4"
| "steps_left (JAfter es r) = effects_cost es"

lemma effects_cost_simps [simp]:
  "effects_cost [] = 0" "effects_cost (e # es) = effect_cost e + effects_cost es"
  "effects_cost (es @ es') = effects_cost es + effects_cost es'"
  by (simp_all add: effects_cost_def)

lemma tape_named_effects_cost: "effects_cost (tape_named_effects ev name) < 4"
  by (simp add: tape_named_effects_def split: option.split)

lemma control_begin_cost: "steps_left (control_begin tk req b) < 8"
  by (cases req) (simp_all split: sum.split)

lemma mcp_begin_cost: "steps_left (mcp_begin version tk req) < 5"
  by (simp add: mcp_begin_def Let_def split: sum.split)

lemma slot_section_cost:
  "1 + effects_cost after < n \<Longrightarrow> steps_left (fst (slot_section t sid f after resp b)) < n"
  by (simp add: slot_section_def Let_def split: option.split)

lemma apply_section_cost: "steps_left (fst (apply_section t client v b)) < 6"
proof (cases v)
  case (VElevation sid e)
  then show ?thesis by (simp add: elevation_section_def Let_def slot_section_cost)
next
  case (VConfirm sid tool)
  then show ?thesis by (simp add: confirm_section_def split: option.split)
qed

lemma lifecycle_section_cost: "steps_left (fst (lifecycle_section lb t op sid b)) < 3"
  by (simp add: lifecycle_section_def Let_def split: option.split sum.split prod.split)

lemma submit_section_cost: "steps_left (fst (submit_section lb t client nh sh b)) < 7"
  by (simp add: submit_section_def Let_def split: option.split sum.split prod.split)

lemma revoke_section_cost: "steps_left (fst (revoke_section t sid b)) < 6"
  by (simp add: revoke_section_def slot_section_cost)

lemma call_section_cost: "steps_left (fst (call_section lb t rid name args b)) < 4"
  by (simp add: call_section_def Let_def tape_named_effects_cost split: option.split sum.split prod.split)

lemma exec_effect_cost: "effects_cost (fst (exec_effect lb tk e b)) < effect_cost e"
  by (cases e) (simp_all add: Let_def)

lemma job_step_decreases:
  "\<not> finished j \<Longrightarrow> steps_left (fst (job_step lb version tk j b)) < steps_left j"
proof (induction lb version tk j b rule: job_step.induct)
  case (13 lb version tk e es r b)
  then show ?case using exec_effect_cost [of lb tk e b] by (cases "exec_effect lb tk e b") simp
qed (simp_all add: control_begin_cost mcp_begin_cost lifecycle_section_cost submit_section_cost
    apply_section_cost revoke_section_cost call_section_cost split: prod.split)

lemma finished_iff: "finished j \<longleftrightarrow> (\<exists>r. j = JAfter [] r)"
  by (cases j rule: finished.cases) auto

lemma steps_left_pos: "\<not> finished j \<Longrightarrow> 0 < steps_left j"
  using job_step_decreases by (metis gr_zeroI not_less_zero)

section \<open>A job on its own\<close>

function run_job ::
  "('k, 'c, 's) libs \<Rightarrow> string \<Rightarrow> tick \<Rightarrow> job \<Rightarrow> ('k, 'c, 's) broker \<Rightarrow> job \<times> ('k, 'c, 's) broker" where
  "run_job lb version tk j b =
     (if finished j then (j, b)
      else (let (j', b') = job_step lb version tk j b in run_job lb version tk j' b'))"
  by pat_completeness auto
termination
  by (relation "measure (\<lambda>(lb, version, tk, j, b). steps_left j)")
    (simp, metis (no_types, lifting) case_prod_conv fst_conv in_measure job_step_decreases)

declare run_job.simps [simp del]

fun run_effects :: "('k, 'c, 's) libs \<Rightarrow> tick \<Rightarrow> effect list \<Rightarrow> ('k, 'c, 's) broker \<Rightarrow> ('k, 'c, 's) broker" where
  "run_effects lb tk [] b = b"
| "run_effects lb tk (ENotify # es) b = run_effects lb tk es (notify_if lb True b)"
| "run_effects lb tk (ETape ev # es) b = run_effects lb tk es (tape_record lb tk ev b)"
| "run_effects lb tk (EFile line # es) b =
     run_effects lb tk es (b\<lparr>bk_audit := audit_file (tk_io tk) line (bk_audit b)\<rparr>)"
| "run_effects lb tk (ERing line # es) b = run_effects lb tk es (b\<lparr>bk_audit := audit_ring line (bk_audit b)\<rparr>)"
| "run_effects lb tk (ELog message # es) b = run_effects lb tk es (log_record tk message b)"

lemma audit_record_split:
  "audit_record pe wall io ev log =
     audit_ring (serialize_line pe wall ev) (audit_file io (serialize_line pe wall ev) log)"
  by (cases log)
    (simp add: audit_record_def audit_ring_def audit_file_def Let_def split: option.split)

lemma run_job_finished [simp]: "run_job lb version tk (JAfter [] r) b = (JAfter [] r, b)"
  by (simp add: run_job.simps)

lemma run_job_step:
  "\<not> finished j \<Longrightarrow> job_step lb version tk j b = (j', b') \<Longrightarrow>
     run_job lb version tk j b = run_job lb version tk j' b'"
  by (subst run_job.simps) simp

lemma run_job_after: "run_job lb version tk (JAfter es r) b = (JAfter [] r, run_effects lb tk es b)"
proof (induction lb tk es b rule: run_effects.induct)
  case (3 lb tk ev es b)
  have "run_job lb version tk (JAfter (ETape ev # es) r) b = run_job lb version tk (JAfter es r) (tape_record lb tk ev b)"
    by (simp add: run_job_step Let_def tape_record_def audit_record_split)
  with 3 show ?case by simp
qed (simp_all add: run_job_step notify_if_def)

section \<open>One job without interference is one call of the handler\<close>

lemma at_self [simp]: "at (tk_now tk) tk = tk"
  by (simp add: at_def)

lemma at_sel [simp]:
  "tk_now (at t tk) = t" "tk_log_now (at t tk) = tk_log_now tk" "tk_wall (at t tk) = tk_wall tk"
  "tk_random (at t tk) = tk_random tk" "tk_io (at t tk) = tk_io tk"
  by (simp_all add: at_def)

text \<open>The rest of a job after a section, as the pair a handler returns.\<close>

fun settle :: "('k, 'c, 's) libs \<Rightarrow> tick \<Rightarrow> job \<times> ('k, 'c, 's) broker \<Rightarrow> (reply \<times> ('k, 'c, 's) broker) option" where
  "settle lb tk (JAfter es r, b) = Some (r, run_effects lb tk es b)"
| "settle lb tk _ = None"

lemma settle_run:
  "settle lb tk (j, b) = Some (r, b') \<Longrightarrow> run_job lb version tk j b = (JAfter [] r, b')"
  by (cases "(lb, tk, (j, b))" rule: settle.cases) (auto simp: run_job_after)

lemma lifecycle_settles:
  "lifecycle lb tk op sid b = (resp, b') \<Longrightarrow>
     settle lb tk (lifecycle_section lb (tk_now tk) op sid b) = Some (ControlReply resp, b')"
  by (auto simp: lifecycle_def lifecycle_section_def notify_if_def Let_def
      split: option.splits sum.splits prod.splits if_splits)

lemma apply_elevation_settles:
  "apply_elevation lb tk client sid e b = (resp, b') \<Longrightarrow>
     settle lb tk (elevation_section (tk_now tk) client sid e b) = Some (ControlReply resp, b')"
  by (auto simp: apply_elevation_def elevation_section_def slot_section_def notify_if_def Let_def
      split: option.splits if_splits)

lemma revoke_settles:
  "revoke lb tk sid b = (resp, b') \<Longrightarrow>
     settle lb tk (revoke_section (tk_now tk) sid b) = Some (ControlReply resp, b')"
  by (auto simp: revoke_def revoke_section_def slot_section_def notify_if_def Let_def
      split: option.splits if_splits)

lemma apply_confirm_settles:
  "apply_confirm lb tk sid tool b = (resp, b') \<Longrightarrow>
     settle lb tk (confirm_section (tk_now tk) sid tool b) = Some (ControlReply resp, b')"
  by (auto simp: apply_confirm_def confirm_section_def split: option.splits)

lemma tape_named_settles:
  "run_effects lb tk (tape_named_effects ev name) b = tape_named lb tk ev name b"
  by (simp add: tape_named_effects_def tape_named_def split: option.split)

lemma tools_call_settles:
  "call_params params = Ok (name, args) \<Longrightarrow> handle_tools_call lb tk rid params b = (resp, b') \<Longrightarrow>
     settle lb tk (call_section lb (tk_now tk) rid name args b) = Some (McpReply resp, b')"
  by (auto simp: handle_tools_call_def call_section_def tape_named_settles Let_def
      split: option.splits sum.splits prod.splits if_splits)

lemma submit_runs:
  assumes "submit lb tk client nh sh b = (resp, b')"
  shows "run_job lb version tk (JSubmitAt (tk_now tk) client nh sh) b = (answered resp, b')"
proof -
  obtain j1 b1 where s: "submit_section lb (tk_now tk) client nh sh b = (j1, b1)" by force
  have first: "run_job lb version tk (JSubmitAt (tk_now tk) client nh sh) b = run_job lb version tk j1 b1"
    using s by (intro run_job_step) simp_all
  show ?thesis
  proof (cases "\<exists>v. j1 = JVerified (tk_now tk) client v")
    case False
    then have "settle lb tk (j1, b1) = Some (ControlReply resp, b')"
      using assms s
      by (auto simp: submit_def submit_section_def Let_def
          split: option.splits sum.splits prod.splits verified.splits)
    with first show ?thesis by (simp add: settle_run)
  next
    case True
    then obtain v where v: "j1 = JVerified (tk_now tk) client v" by blast
    obtain j2 b2 where a: "apply_section (tk_now tk) client v b1 = (j2, b2)" by force
    have "settle lb tk (apply_section (tk_now tk) client v b1) = Some (ControlReply resp, b')"
      using assms s v
      by (auto simp: submit_def submit_section_def Let_def apply_elevation_settles apply_confirm_settles
          split: option.splits sum.splits prod.splits verified.splits)
    with a have "run_job lb version tk j2 b2 = (answered resp, b')" by (simp add: settle_run)
    moreover have "run_job lb version tk j1 b1 = run_job lb version tk j2 b2"
      using a v by (intro run_job_step) simp_all
    ultimately show ?thesis using first by simp
  qed
qed

lemma request_elevation_mode:
  "request_elevation tk client sid m ttl b =
     (case elevation_request m ttl of
        Inl message \<Rightarrow> (err message, b)
      | Inr rm \<Rightarrow> issue_nonce tk client (Elevate sid rm) b)"
  by (simp add: request_elevation_def elevation_request_def split: option.split)

lemma run_job_answers:
  "\<not> finished j \<Longrightarrow> job_step lb version tk j b = (JAfter [] r, b') \<Longrightarrow>
     run_job lb version tk j b = (JAfter [] r, b')"
  by (simp add: run_job_step)

lemma run_job_settles:
  "\<not> finished j \<Longrightarrow> settle lb tk (job_step lb version tk j b) = Some (r, b') \<Longrightarrow>
     run_job lb version tk j b = (JAfter [] r, b')"
  by (cases "job_step lb version tk j b") (simp add: run_job_step settle_run)

lemma control_job_runs:
  assumes "handle_control lb tk req b = (resp, b')"
  shows "run_job lb version tk (JControl req) b = (answered resp, b')"
proof -
  have first: "run_job lb version tk (JControl req) b = run_job lb version tk (control_begin tk req b) b"
    by (rule run_job_step) simp_all
  have issue: "run_job lb version tk (JIssueAt (tk_now tk) client p) b = (answered resp, b')"
    if "issue_nonce tk client p b = (resp, b')" for client p
    using that by (intro run_job_answers) simp_all
  have life: "run_job lb version tk (JLifecycleAt (tk_now tk) op sid) b = (answered resp, b')"
    if "lifecycle lb tk op sid b = (resp, b')" for op sid
    using lifecycle_settles [OF that] by (intro run_job_settles) simp_all
  have rev: "run_job lb version tk (JRevokeAt (tk_now tk) sid) b = (answered resp, b')"
    if "revoke lb tk sid b = (resp, b')" for sid
    using revoke_settles [OF that] by (intro run_job_settles) simp_all
  have look: "run_job lb version tk (JStatusAt (tk_now tk)) b = (answered (status tk b), b)"
    "run_job lb version tk (JListAt (tk_now tk)) b = (answered (list_tool_names tk b), b)"
    by (rule run_job_answers; simp)+
  show ?thesis
    using assms first look
    by (cases req)
      (auto simp: request_elevation_mode request_confirm_def issue life rev submit_runs split: sum.splits)
qed

lemma mcp_job_runs:
  assumes "handle_mcp lb version tk req client b = (resp, b')"
  shows "run_job lb version tk (JMcp req) b = (mcp_answered resp, b')"
proof -
  have first: "run_job lb version tk (JMcp req) b = run_job lb version tk (mcp_begin version tk req) b"
    by (rule run_job_step) simp_all
  have list: "run_job lb version tk (JToolsListAt (tk_now tk) rid) b = (mcp_answered (handle_tools_list tk rid b), b)" for rid
    by (rule run_job_answers) simp_all
  have tool: "run_job lb version tk (JToolsCallAt (tk_now tk) rid name args) b = (mcp_answered resp, b')"
    if "call_params params = Ok (name, args)" "handle_tools_call lb tk rid params b = (resp, b')"
    for params rid name args
    using tools_call_settles [OF that] by (intro run_job_settles) simp_all
  have bad: "handle_tools_call lb tk rid params b = (mcp_error rid (- 32602) m, b)"
    if "call_params params = Err m" for rid params m
    using that by (simp add: handle_tools_call_def)
  show ?thesis
    unfolding first using assms
    by (auto simp: handle_mcp_def mcp_begin_def Let_def list tool bad split: if_splits sum.split)
qed

end
