(* ===== verification/ConcBroker.thy ===== *)
theory ConcBroker
  imports Jobs BrokerRuns
begin

text \<open>
  The broker as a concurrent system: the accept loops of the two channels add jobs, and any job
  that is not finished takes its next step at any time. The clock only moves forward, but a job
  works with the instant it read, which may have passed when it gets its lock. An execution is
  the list of what happened; the invariants hold in every configuration that can be reached.
\<close>

section \<open>Accepting\<close>

text \<open>
  What the endpoint's threads need besides the handler: the JSON codec, the comparison of header
  names and the validator; and the codec of the control channel.
\<close>

record front_end =
  fe_json :: http_json
  fe_header_is :: "string \<Rightarrow> string \<Rightarrow> bool"
  fe_validate :: "string option \<Rightarrow> auth_error + validated_client"
  fe_codec :: control_codec

text \<open>The part of \<open>handle_request\<close> before it touches shared state: a response, a subscription or a call.\<close>

datatype http_start =
    HttpAnswered http_response
  | HttpSubscribe
  | HttpCall json validated_client

definition http_start :: "front_end \<Rightarrow> http_request \<Rightarrow> http_start" where
  "http_start fe req =
     (case fe_validate fe (bearer_token (fe_header_is fe) req) of
        Inl e \<Rightarrow> HttpAnswered unauthorized
      | Inr client \<Rightarrow>
          (case hq_method req of
             Post \<Rightarrow>
               (case read_to_string max_body_bytes (hq_body req) (hq_body_end req) of
                  None \<Rightarrow> HttpAnswered (json_response (parse_error_body (hj_text (fe_json fe))) 400)
                | Some body \<Rightarrow>
                    (case hj_parse (fe_json fe) body of
                       None \<Rightarrow> HttpAnswered (json_response (parse_error_body (hj_text (fe_json fe))) 400)
                     | Some parsed \<Rightarrow>
                         if is_array parsed then
                           HttpAnswered (json_response (invalid_request_body (hj_text (fe_json fe))) 400)
                         else if jget parsed ''id'' = None then HttpAnswered (Response 202 [] [])
                         else HttpCall parsed client))
           | Get \<Rightarrow> HttpSubscribe
           | OtherMethod m \<Rightarrow> HttpAnswered (Response 405 [] [])))"

text \<open>The part of \<open>serve_connection\<close> before the handler: the connection is dropped, refused or a call.\<close>

datatype control_start =
    CtlDropped
  | CtlBad string
  | CtlCall control_request

definition control_start :: "front_end \<Rightarrow> connection \<Rightarrow> control_start" where
  "control_start fe cn =
     (if \<not> cn_clone cn then CtlDropped
      else
        (case read_line (cn_bytes cn) (cn_end cn) of
           Inl e \<Rightarrow> CtlDropped
         | Inr line \<Rightarrow>
             (case parse_request (fe_codec fe) line of Inr req \<Rightarrow> CtlCall req | Inl e \<Rightarrow> CtlBad e)))"

text \<open>They are the beginning of the whole functions.\<close>

lemma handle_request_start:
  "handle_request (fe_json fe) (fe_header_is fe) (fe_validate fe) handle req h nt =
     (case http_start fe req of
        HttpAnswered resp \<Rightarrow> (resp, h, nt)
      | HttpSubscribe \<Rightarrow> (fst (handle_sse nt), h, subscribe nt)
      | HttpCall parsed client \<Rightarrow>
          (let (response, h') = handle parsed client h
           in (json_response
                 (case hj_print (fe_json fe) response of
                    Some out \<Rightarrow> out
                  | None \<Rightarrow> internal_error_body (hj_text (fe_json fe))) 200, h', nt)))"
  by (simp add: handle_request_def handle_post_def handle_sse_def http_start_def Let_def
      split: sum.split http_method.split option.split prod.split)

lemma serve_connection_start:
  "serve_connection (fe_codec fe) handle cn h =
     (case control_start fe cn of
        CtlDropped \<Rightarrow> (None, h)
      | _ \<Rightarrow>
          (let (response, h') =
             (case control_start fe cn of
                CtlCall req \<Rightarrow> handle req h
              | CtlBad e \<Rightarrow> (RError (''bad request: '' @ e), h)
              | CtlDropped \<Rightarrow> (internal_error, h))
           in (case print_response (fe_codec fe) response of
                 Inr out \<Rightarrow> (Some (out @ [CHR 0x0A]), h')
               | Inl e \<Rightarrow> (None, h'))))"
  by (simp add: serve_connection_def control_start_def Let_def split: sum.split option.split)

section \<open>The system\<close>

record ('k, 'c, 's) system =
  sy_clock :: timestamp
  sy_jobs :: "job list"
  sy_broker :: "('k, 'c, 's) broker"

definition system_new :: "('k, 'c, 's) broker \<Rightarrow> ('k, 'c, 's) system" where
  "system_new b = \<lparr>sy_clock = 0, sy_jobs = [], sy_broker = b\<rparr>"

text \<open>One turn of an accept loop: a request that arrives gets a thread of its own.\<close>

definition spawn_http ::
  "front_end \<Rightarrow> http_request \<Rightarrow> ('k, 'c, 's) system \<Rightarrow> ('k, 'c, 's) system" where
  "spawn_http fe req sys =
     (case http_start fe req of
        HttpAnswered resp \<Rightarrow> sys
      | HttpSubscribe \<Rightarrow>
          sys\<lparr>sy_broker := (sy_broker sys)\<lparr>bk_notifier := subscribe (bk_notifier (sy_broker sys))\<rparr>\<rparr>
      | HttpCall parsed client \<Rightarrow> sys\<lparr>sy_jobs := sy_jobs sys @ [JMcp parsed]\<rparr>)"

text \<open>A connection that fails to be accepted (\<open>None\<close>) is skipped.\<close>

definition spawn_connection ::
  "front_end \<Rightarrow> connection option \<Rightarrow> ('k, 'c, 's) system \<Rightarrow> ('k, 'c, 's) system" where
  "spawn_connection fe stream sys =
     (case stream of
        None \<Rightarrow> sys
      | Some cn \<Rightarrow>
          (case control_start fe cn of
             CtlCall req \<Rightarrow> sys\<lparr>sy_jobs := sy_jobs sys @ [JControl req]\<rparr>
           | _ \<Rightarrow> sys))"

definition step_thread ::
  "('k, 'c, 's) libs \<Rightarrow> string \<Rightarrow> nat \<Rightarrow> tick \<Rightarrow> ('k, 'c, 's) system \<Rightarrow> ('k, 'c, 's) system" where
  "step_thread lb version i tk sys =
     (let (j', b') = job_step lb version tk (sy_jobs sys ! i) (sy_broker sys)
      in \<lparr>sy_clock = tk_now tk, sy_jobs = (sy_jobs sys)[i := j'], sy_broker = b'\<rparr>)"

datatype act =
    ActHttp http_request
  | ActConnection "connection option"
  | ActStep nat tick job job
  | ActDisconnect nat

inductive conc_step ::
  "('k, 'c, 's) libs \<Rightarrow> string \<Rightarrow> front_end \<Rightarrow> ('k, 'c, 's) system \<Rightarrow> act \<Rightarrow> ('k, 'c, 's) system \<Rightarrow> bool"
  for lb :: "('k, 'c, 's) libs" and version :: string and fe :: front_end where
  http: "conc_step lb version fe sys (ActHttp req) (spawn_http fe req sys)"
| connection: "conc_step lb version fe sys (ActConnection stream) (spawn_connection fe stream sys)"
| thread: "i < length (sy_jobs sys) \<Longrightarrow> \<not> finished (sy_jobs sys ! i) \<Longrightarrow> sy_clock sys \<le> tk_now tk \<Longrightarrow>
    sys' = step_thread lb version i tk sys \<Longrightarrow>
    conc_step lb version fe sys (ActStep i tk (sy_jobs sys ! i) (sy_jobs sys' ! i)) sys'"
| disconnect: "i < length (guarded (bk_notifier (sy_broker sys))) \<Longrightarrow>
    conc_step lb version fe sys (ActDisconnect i)
      (sys\<lparr>sy_broker := (sy_broker sys)\<lparr>bk_notifier := put (bk_notifier (sy_broker sys))
         ((guarded (bk_notifier (sy_broker sys)))
            [i := (guarded (bk_notifier (sy_broker sys)) ! i)\<lparr>tx_live := False\<rparr>])\<rparr>\<rparr>)"

inductive conc_run ::
  "('k, 'c, 's) libs \<Rightarrow> string \<Rightarrow> front_end \<Rightarrow> ('k, 'c, 's) system \<Rightarrow> act list \<Rightarrow> ('k, 'c, 's) system \<Rightarrow> bool"
  for lb :: "('k, 'c, 's) libs" and version :: string and fe :: front_end and sys0 :: "('k, 'c, 's) system" where
  conc_start: "conc_run lb version fe sys0 [] sys0"
| conc_more: "conc_run lb version fe sys0 acts sys \<Longrightarrow> conc_step lb version fe sys a sys' \<Longrightarrow>
    conc_run lb version fe sys0 (acts @ [a]) sys'"

section \<open>What one step does\<close>

text \<open>The instant a job works with, and the transition of the abstract machine its section can make.\<close>

fun job_instant :: "job \<Rightarrow> timestamp" where
  "job_instant (JStatusAt t) = t"
| "job_instant (JListAt t) = t"
| "job_instant (JLifecycleAt t op sid) = t"
| "job_instant (JIssueAt t client p) = t"
| "job_instant (JSubmitAt t client n sig) = t"
| "job_instant (JVerified t client v) = t"
| "job_instant (JRevokeAt t sid) = t"
| "job_instant (JToolsListAt t rid) = t"
| "job_instant (JToolsCallAt t rid name arguments) = t"
| "job_instant _ = 0"

fun verified_label :: "verified \<Rightarrow> agg_label" where
  "verified_label (VElevation sid e) = LGrant sid e"
| "verified_label (VConfirm sid tool) = LApprove sid tool"

fun job_label :: "job \<Rightarrow> agg_label" where
  "job_label (JLifecycleAt t op sid) = LLife op sid"
| "job_label (JVerified t client v) = verified_label v"
| "job_label (JRevokeAt t sid) = LRevoke sid"
| "job_label (JToolsCallAt t rid name arguments) = LCall name arguments"
| "job_label _ = LIdle"

lemma exec_effect_frame:
  "exec_effect lb tk e b = (es, b') \<Longrightarrow>
     bk_agg b' = bk_agg b \<and> bk_nonces b' = bk_nonces b \<and> bk_registry b' = bk_registry b"
  by (cases e) (auto simp: Let_def)

lemma slot_section_cases:
  obtains (failed) m where "slot_section t sid f after resp b = (answered (RError m), b)"
  | (changed) agg es where "lock (bk_agg b) = Some agg" "server (ag_state agg) sid \<noteq> None"
      "es = (if ag_exposure_snapshot (change_slot sid f agg) t \<noteq> ag_exposure_snapshot agg t
             then [ENotify] else [])"
      "slot_section t sid f after resp b =
         (JAfter (es @ after) (ControlReply resp), b\<lparr>bk_agg := put (bk_agg b) (change_slot sid f agg)\<rparr>)"
proof (cases "lock (bk_agg b)")
  case None
  then show thesis by (intro failed) (simp add: slot_section_def internal_error_def)
next
  case (Some agg)
  then show thesis
    by (cases "server (ag_state agg) sid")
      (auto simp: slot_section_def err_def Let_def intro: failed changed)
qed

lemma slot_section_frame:
  "slot_section t sid f after resp b = (j', b') \<Longrightarrow>
     bk_nonces b' = bk_nonces b \<and> bk_registry b' = bk_registry b \<and> bk_audit b' = bk_audit b
     \<and> bk_log b' = bk_log b \<and> bk_notifier b' = bk_notifier b"
  by (cases rule: slot_section_cases [of t sid f after resp b]) auto

lemma apply_section_frame:
  "apply_section t client v b = (j', b') \<Longrightarrow>
     bk_nonces b' = bk_nonces b \<and> bk_registry b' = bk_registry b \<and> bk_audit b' = bk_audit b
     \<and> bk_log b' = bk_log b \<and> bk_notifier b' = bk_notifier b"
  by (cases v)
    (auto simp: elevation_section_def confirm_section_def Let_def split: option.splits
      dest: slot_section_frame)

lemma issue_nonce_frame:
  "issue_nonce tk client p b = (resp, b') \<Longrightarrow>
     bk_agg b' = bk_agg b \<and> bk_registry b' = bk_registry b \<and> bk_audit b' = bk_audit b
     \<and> bk_log b' = bk_log b \<and> bk_notifier b' = bk_notifier b"
  by (cases rule: issue_nonce_cases [of tk client p b]) auto

lemma submit_section_frame:
  "submit_section lb t client nh sh b = (j', b') \<Longrightarrow>
     bk_agg b' = bk_agg b \<and> bk_registry b' = bk_registry b \<and> bk_audit b' = bk_audit b
     \<and> bk_log b' = bk_log b \<and> bk_notifier b' = bk_notifier b"
  by (auto simp: submit_section_def Let_def split: option.splits prod.splits)

lemma lifecycle_section_frame:
  "lifecycle_section lb t op sid b = (j', b') \<Longrightarrow>
     bk_nonces b' = bk_nonces b \<and> bk_registry b' = bk_registry b \<and> bk_audit b' = bk_audit b
     \<and> bk_log b' = bk_log b \<and> bk_notifier b' = bk_notifier b"
  by (auto simp: lifecycle_section_def Let_def split: option.splits prod.splits)

lemma call_section_frame:
  "call_section lb t rid name args b = (j', b') \<Longrightarrow>
     bk_nonces b' = bk_nonces b \<and> bk_registry b' = bk_registry b \<and> bk_audit b' = bk_audit b
     \<and> bk_log b' = bk_log b \<and> bk_notifier b' = bk_notifier b"
  by (auto simp: call_section_def Let_def split: option.splits prod.splits)

text \<open>A step changes the aggregator by the transition of its program point, or not at all.\<close>

lemma slot_section_agg:
  "slot_section t sid f after resp b = (j', b') \<Longrightarrow>
     agg_of b' = agg_of b \<or> server (slots_of b) sid \<noteq> None \<and> agg_of b' = change_slot sid f (agg_of b)"
  by (cases rule: slot_section_cases [of t sid f after resp b]) (auto simp: lock_guarded)

lemma apply_section_agg:
  assumes "apply_section t client v b = (j', b')"
  shows "agg_of b' = agg_of b \<or> agg_step h t (agg_of b) (verified_label v) (agg_of b')"
proof (cases v)
  case (VElevation sid e)
  with assms show ?thesis
    by (auto simp: elevation_section_def Let_def agg_step_simps dest!: slot_section_agg)
next
  case (VConfirm sid tool)
  with assms show ?thesis
    by (auto simp: confirm_section_def agg_step_simps lock_guarded split: option.splits)
qed

lemma lifecycle_section_agg:
  "lifecycle_section lb t op sid b = (j', b') \<Longrightarrow>
     agg_of b' = agg_of b \<or> agg_step (lib_host lb) t (agg_of b) (LLife op sid) (agg_of b')"
  by (auto simp: lifecycle_section_def Let_def lock_guarded agg_step.life split: option.splits prod.splits)

lemma call_section_agg:
  "call_section lb t rid name args b = (j', b') \<Longrightarrow>
     agg_of b' = agg_of b \<or> agg_step (lib_host lb) t (agg_of b) (LCall name args) (agg_of b')"
  by (auto simp: call_section_def Let_def lock_guarded agg_step.call split: option.splits prod.splits)

lemma job_step_agg:
  assumes "job_step lb version tk j b = (j', b')"
  shows "agg_of b' = agg_of b
    \<or> agg_step (lib_host lb) (job_instant j) (agg_of b) (job_label j) (agg_of b')"
  using assms
proof (induction lb version tk j b rule: job_step.induct)
  case (13 lb version tk e es r b)
  then show ?case using exec_effect_frame [of lb tk e b] by (auto split: prod.splits)
next
  case (7 lb version tk t client v b)
  then show ?case using apply_section_agg [of t client v b j' b' "lib_host lb"] by simp
next
  case (8 lb version tk t sid b)
  then show ?case by (auto simp: revoke_section_def agg_step_simps dest!: slot_section_agg)
qed (auto simp: agg_step_simps lifecycle_section_agg call_section_agg split: prod.splits
    dest: issue_nonce_frame submit_section_frame dest!: lifecycle_section_agg call_section_agg)

lemma job_step_registry:
  "job_step lb version tk j b = (j', b') \<Longrightarrow> bk_registry b' = bk_registry b"
proof (induction lb version tk j b rule: job_step.induct)
  case (13 lb version tk e es r b)
  then show ?case using exec_effect_frame [of lb tk e b] by (auto split: prod.splits)
qed (auto simp: revoke_section_def split: prod.splits dest: issue_nonce_frame submit_section_frame
    lifecycle_section_frame call_section_frame slot_section_frame apply_section_frame)

text \<open>Only the issue and the verification of a nonce touch the store.\<close>

lemma submit_section_cases:
  obtains (early) m where "submit_section lb t client nh sh b = (answered (RError m), b)"
  | (denied) n sig st e st' where "nonce_from_hex nh = Some n" "decode_hex sh = Some sig"
      "lock (bk_nonces b) = Some st"
      "verify_and_consume (lib_crypto lb) st client n sig (bk_registry b) t = (Err e, st')"
      "submit_section lb t client nh sh b =
         (JAfter [ETape (ElevationDenied ''(unknown)'' client (elevation_error_text e)),
                  ELog (''verification rejected for '' @ client @ '': '' @ elevation_error_text e)]
            (ControlReply (reject e)), b\<lparr>bk_nonces := put (bk_nonces b) st'\<rparr>)"
  | (verified) n sig st v st' where "nonce_from_hex nh = Some n" "decode_hex sh = Some sig"
      "lock (bk_nonces b) = Some st"
      "verify_and_consume (lib_crypto lb) st client n sig (bk_registry b) t = (Ok v, st')"
      "submit_section lb t client nh sh b = (JVerified t client v, b\<lparr>bk_nonces := put (bk_nonces b) st'\<rparr>)"
proof (cases "nonce_from_hex nh")
  case None
  then show thesis by (intro early) (simp add: submit_section_def err_def)
next
  case (Some n)
  note n = this
  show thesis
  proof (cases "decode_hex sh")
    case None
    with n show thesis by (intro early) (simp add: submit_section_def err_def)
  next
    case (Some sig)
    note sig = this
    show thesis
    proof (cases "lock (bk_nonces b)")
      case None
      with n sig show thesis by (intro early) (simp add: submit_section_def internal_error_def)
    next
      case (Some st)
      obtain r st' where v: "verify_and_consume (lib_crypto lb) st client n sig (bk_registry b) t = (r, st')"
        by force
      with n sig Some show thesis
        by (cases r) (auto simp: submit_section_def intro: denied verified)
    qed
  qed
qed

lemma job_step_nonces:
  assumes "job_step lb version tk j b = (j', b')"
  shows "nonces_of b' = nonces_of b
    \<or> (\<exists>t client p. j = JIssueAt t client p
         \<and> (nonces_of b' = nonces_prune t (nonces_of b) \<or>
            (\<exists>n. issue (nonces_of b) client p t (tk_random tk) = (Ok n, nonces_of b')
               \<and> j' = answered (RNonce (nonce_to_hex n)))))
    \<or> (\<exists>t client nh sh n sig r. j = JSubmitAt t client nh sh
         \<and> nonce_from_hex nh = Some n \<and> decode_hex sh = Some sig
         \<and> verify_and_consume (lib_crypto lb) (nonces_of b) client n sig (bk_registry b) t = (r, nonces_of b')
         \<and> (\<forall>v. j' = JVerified t client v \<longleftrightarrow> r = Ok v))"
  using assms
proof (induction lb version tk j b rule: job_step.induct)
  case (5 lb version tk t client p b)
  obtain resp where r: "issue_nonce (at t tk) client p b = (resp, b')" "j' = answered resp"
    using 5 by (auto split: prod.splits)
  then show ?case
    by (cases rule: issue_nonce_cases [of "at t tk" client p b]) (auto simp: lock_guarded)
next
  case (6 lb version tk t client nh sh b)
  then have s: "submit_section lb t client nh sh b = (j', b')" by simp
  show ?case
  proof (cases rule: submit_section_cases [of lb t client nh sh b])
    case (early m)
    with s show ?thesis by simp
  next
    case (denied n sig st e st')
    with s show ?thesis
      by (intro disjI2 exI [of _ t] exI [of _ client] exI [of _ nh] exI [of _ sh] exI [of _ n]
          exI [of _ sig] exI [of _ "Err e"]) (auto simp: lock_guarded)
  next
    case (verified n sig st v st')
    with s show ?thesis
      by (intro disjI2 exI [of _ t] exI [of _ client] exI [of _ nh] exI [of _ sh] exI [of _ n]
          exI [of _ sig] exI [of _ "Ok v"]) (auto simp: lock_guarded)
  qed
next
  case (13 lb version tk e es r b)
  then show ?case using exec_effect_frame [of lb tk e b] by (auto split: prod.splits)
qed (auto simp: revoke_section_def split: prod.splits dest: lifecycle_section_frame call_section_frame
    slot_section_frame apply_section_frame)

end
