(* ===== verification/ConcRuns.thy ===== *)
theory ConcRuns
  imports ConcBroker
begin

text \<open>
  The invariants of every configuration the concurrent broker can reach: what its trace contains
  for an elevation to be in force, a confirmation to be held or a verified submission to be
  waiting for the aggregator's lock; bounded resources; and how often a nonce can be accepted.
\<close>

section \<open>What a trace must contain\<close>

text \<open>A thread issued this nonce to this client for this purpose.\<close>

definition c_issued :: "act list \<Rightarrow> string \<Rightarrow> purpose \<Rightarrow> nonce \<Rightarrow> bool" where
  "c_issued acts client p n \<longleftrightarrow>
     (\<exists>i tk t. ActStep i tk (JIssueAt t client p) (answered (RNonce (nonce_to_hex n))) \<in> set acts)"

text \<open>
  A thread that had read the clock at \<open>t\<close> verified, after the issue, a submission of this nonce
  whose signature is the registered key's over the challenge of this nonce, client and purpose.
\<close>

definition c_authorised ::
  "('k, 'c, 's) libs \<Rightarrow> 'k client_registry \<Rightarrow> act list \<Rightarrow> string \<Rightarrow> nonce \<Rightarrow> purpose \<Rightarrow> timestamp \<Rightarrow> bool" where
  "c_authorised lb reg acts client n p t \<longleftrightarrow>
     (\<exists>pre i tk nh sh v post sig key.
        acts = pre @ ActStep i tk (JSubmitAt t client nh sh) (JVerified t client v) # post
        \<and> c_issued pre client p n \<and> nonce_from_hex nh = Some n \<and> decode_hex sh = Some sig
        \<and> registry_key reg client = Some key \<and> length sig = signature_length
        \<and> verify_strict (lib_crypto lb) key (challenge_message (print_doc (lib_crypto lb)) n client p) sig)"

lemma c_issued_more: "c_issued acts client p n \<Longrightarrow> c_issued (acts @ later) client p n"
  by (auto simp: c_issued_def)

lemma c_authorised_more: "c_authorised lb reg acts client n p t \<Longrightarrow> c_authorised lb reg (acts @ later) client n p t"
  unfolding c_authorised_def by (metis append.assoc append_Cons)

definition c_pending_issued :: "act list \<Rightarrow> nonce_store \<Rightarrow> bool" where
  "c_pending_issued acts st \<longleftrightarrow> (\<forall>pd \<in> set st. c_issued acts (pd_client pd) (pd_purpose pd) (pd_nonce pd))"

text \<open>Verified submissions that have not been applied yet are authorised as well.\<close>

fun job_covered :: "(string \<Rightarrow> nonce \<Rightarrow> purpose \<Rightarrow> timestamp \<Rightarrow> bool) \<Rightarrow> job \<Rightarrow> bool" where
  "job_covered A (JVerified t client v) \<longleftrightarrow> (\<exists>n p. A client n p t \<and> verified_label v = label_of p t)"
| "job_covered A _ \<longleftrightarrow> True"

lemma job_covered_mono:
  "job_covered A j \<Longrightarrow> (\<And>client n p t. A client n p t \<Longrightarrow> A' client n p t) \<Longrightarrow> job_covered A' j"
  by (cases "(A, j)" rule: job_covered.cases) (auto, blast)

lemma job_covered_gains:
  "job_covered A j \<Longrightarrow> gains (job_label j) \<Longrightarrow>
     \<exists>client n p. A client n p (job_instant j) \<and> job_label j = label_of p (job_instant j)"
  by (cases j rule: job_label.cases) auto

section \<open>One step\<close>

text \<open>Only a submission's section produces a job that waits to be applied.\<close>

lemma sections_covered [simp]:
  "job_covered A (control_begin tk req b)" "job_covered A (mcp_begin version tk msg)"
  "job_covered A (fst (lifecycle_section lb t op sid b))" "job_covered A (fst (slot_section t sid f after resp b))"
  "job_covered A (fst (call_section lb t rid name args b))" "job_covered A (fst (apply_section t client v b))"
  subgoal by (cases req) (auto split: sum.split)
  subgoal by (simp add: mcp_begin_def Let_def split: sum.split)
  subgoal by (simp add: lifecycle_section_def Let_def split: option.split sum.split prod.split)
  subgoal by (simp add: slot_section_def Let_def split: option.split)
  subgoal by (simp add: call_section_def Let_def split: option.split sum.split prod.split)
  subgoal by (cases v) (auto simp: elevation_section_def slot_section_def confirm_section_def Let_def split: option.split)
  done

lemma job_step_verified:
  assumes "job_step lb version tk j b = (JVerified t client v, b')"
  obtains nh sh where "j = JSubmitAt t client nh sh"
proof -
  have "\<not> job_covered (\<lambda>_ _ _ _. False) (fst (job_step lb version tk j b))" using assms by simp
  then have "\<exists>t' client' nh sh. j = JSubmitAt t' client' nh sh"
    by (induction lb version tk j b rule: job_step.induct)
      (auto simp: revoke_section_def simp del: apply_section.simps split: prod.splits)
  then obtain t' client' nh sh where j: "j = JSubmitAt t' client' nh sh" by blast
  with assms have "submit_section lb t' client' nh sh b = (JVerified t client v, b')" by simp
  then have "t' = t \<and> client' = client"
    by (cases rule: submit_section_cases [of lb t' client' nh sh b]) auto
  with j that show thesis by blast
qed

text \<open>The state of a configuration, as the invariant reads it.\<close>

definition conc_ok ::
  "('k, 'c, 's) libs \<Rightarrow> loaded_manifest \<Rightarrow> 'k client_registry \<Rightarrow> act list \<Rightarrow> ('k, 'c, 's) system \<Rightarrow> bool" where
  "conc_ok lb loaded reg acts sys \<longleftrightarrow>
     agg_ok (agg_of (sy_broker sys)) \<and> ag_manifest (agg_of (sy_broker sys)) = loaded
     \<and> bk_registry (sy_broker sys) = reg
     \<and> c_pending_issued acts (nonces_of (sy_broker sys))
     \<and> grants_covered (c_authorised lb reg acts) (agg_of (sy_broker sys))
     \<and> approvals_covered (c_authorised lb reg acts) (agg_of (sy_broker sys))
     \<and> (\<forall>j \<in> set (sy_jobs sys). job_covered (c_authorised lb reg acts) j)"

lemma conc_ok_keep:
  assumes "conc_ok lb loaded reg acts sys" and "bk_agg (sy_broker sys') = bk_agg (sy_broker sys)"
    and "bk_registry (sy_broker sys') = bk_registry (sy_broker sys)"
    and "bk_nonces (sy_broker sys') = bk_nonces (sy_broker sys)"
    and "\<forall>j \<in> set (sy_jobs sys'). j \<in> set (sy_jobs sys) \<or> (\<forall>A. job_covered A j)"
  shows "conc_ok lb loaded reg (acts @ [a]) sys'"
  using assms unfolding conc_ok_def c_pending_issued_def
  by (auto intro: c_issued_more grants_covered_mono approvals_covered_mono job_covered_mono c_authorised_more)

text \<open>A verified submission was signed for a nonce that was pending, hence issued.\<close>

lemma submit_step_covered:
  assumes s: "submit_section lb t client nh sh b = (JVerified t client v, b')"
    and pend: "c_pending_issued acts (nonces_of b)"
  shows "\<exists>n p. c_authorised lb (bk_registry b) (acts @ [ActStep i tk (JSubmitAt t client nh sh) (JVerified t client v)])
      client n p t \<and> verified_label v = label_of p t"
proof (cases rule: submit_section_cases [of lb t client nh sh b])
  case (verified n sig st v' st')
  have st: "st = nonces_of b" using verified(3) by (simp add: lock_guarded)
  from verified_label [of lb b client n sig "at t tk"] verified(4) st obtain p where
    p: "signed_off lb (at t tk) b client n sig p" "verified_label v' = label_of p t"
    by (cases v') fastforce+
  from p(1) obtain pd key where pd: "pd \<in> set (nonces_of b)" "pd_nonce pd = n" "pd_client pd = client"
    "pd_purpose pd = p" "registry_key (bk_registry b) client = Some key" "length sig = signature_length"
    "verify_strict (lib_crypto lb) key (challenge_message (print_doc (lib_crypto lb)) n client p) sig"
    unfolding signed_off_def by blast
  then have "c_issued acts client p n" using pend by (auto simp: c_pending_issued_def)
  then have "c_authorised lb (bk_registry b) (acts @ [ActStep i tk (JSubmitAt t client nh sh) (JVerified t client v)])
      client n p t"
    unfolding c_authorised_def using verified(1,2) pd by blast
  with p(2) verified(5) s show ?thesis by auto
qed (use s in auto)

lemma job_step_pending:
  assumes step: "job_step lb version tk j b = (j', b')" and pend: "c_pending_issued acts (nonces_of b)"
  shows "c_pending_issued (acts @ [ActStep i tk j j']) (nonces_of b')"
proof -
  have keep: "c_pending_issued (acts @ [ActStep i tk j j']) st" if "set st \<subseteq> set (nonces_of b)" for st
    using pend that by (auto simp: c_pending_issued_def intro!: c_issued_more)
  from job_step_nonces [OF step] show ?thesis
  proof (elim disjE exE conjE)
    fix t client p n
    assume iss: "j = JIssueAt t client p" "j' = answered (RNonce (nonce_to_hex n))"
      "issue (nonces_of b) client p t (tk_random tk) = (Ok n, nonces_of b')"
    have "c_issued (acts @ [ActStep i tk j j']) client p n" using iss(1,2) by (auto simp: c_issued_def)
    moreover have "c_pending_issued (acts @ [ActStep i tk j j']) (nonces_prune t (nonces_of b))"
      using nonces.prune_subset by (rule keep)
    ultimately show ?thesis using issue_ok [OF iss(3)] by (auto simp: c_pending_issued_def)
  next
    fix t client nh sh n sig r
    assume "verify_and_consume (lib_crypto lb) (nonces_of b) client n sig (bk_registry b) t = (r, nonces_of b')"
    then show ?thesis
      using verify_shrinks [of "lib_crypto lb" "nonces_of b" client n sig "bk_registry b" t]
      by (intro keep) simp
  qed (use keep keep [OF nonces.prune_subset] in auto)
qed

lemma job_step_covered:
  assumes step: "job_step lb version tk j b = (j', b')" and pend: "c_pending_issued acts (nonces_of b)"
  shows "job_covered (c_authorised lb (bk_registry b) (acts @ [ActStep i tk j j'])) j'"
proof (cases "\<exists>t client v. j' = JVerified t client v")
  case True
  then obtain t client v where v: "j' = JVerified t client v" by blast
  with step job_step_verified [of lb version tk j b t client v b'] obtain nh sh where
    j: "j = JSubmitAt t client nh sh" by blast
  with step v submit_step_covered [of lb t client nh sh b v b' acts i tk] pend show ?thesis by simp
next
  case False
  then show ?thesis by (cases j') auto
qed

lemma thread_ok:
  assumes ok: "conc_ok lb loaded reg acts sys" and i: "i < length (sy_jobs sys)"
    and step: "job_step lb version tk (sy_jobs sys ! i) (sy_broker sys) = (j', b')"
    and a: "a = ActStep i tk (sy_jobs sys ! i) j'"
  shows "conc_ok lb loaded reg (acts @ [a]) \<lparr>sy_clock = now, sy_jobs = (sy_jobs sys)[i := j'], sy_broker = b'\<rparr>"
proof -
  let ?j = "sy_jobs sys ! i" and ?b = "sy_broker sys"
  let ?A = "c_authorised lb reg acts" and ?A' = "c_authorised lb reg (acts @ [a])"
  have reg: "bk_registry ?b = reg" and pend: "c_pending_issued acts (nonces_of ?b)"
    and cov: "grants_covered ?A (agg_of ?b)" "approvals_covered ?A (agg_of ?b)"
    and jobs: "\<forall>j \<in> set (sy_jobs sys). job_covered ?A j"
    and agg: "agg_ok (agg_of ?b)" "ag_manifest (agg_of ?b) = loaded"
    using ok by (auto simp: conc_ok_def)
  have cov': "grants_covered ?A' (agg_of ?b)" "approvals_covered ?A' (agg_of ?b)"
    using cov by (auto elim!: grants_covered_mono approvals_covered_mono intro: c_authorised_more)
  have jobs': "\<forall>j \<in> set (sy_jobs sys). job_covered ?A' j"
    using jobs by (auto elim!: job_covered_mono intro: c_authorised_more)
  have "agg_ok (agg_of b') \<and> ag_manifest (agg_of b') = loaded
      \<and> grants_covered ?A' (agg_of b') \<and> approvals_covered ?A' (agg_of b')"
    using job_step_agg [OF step]
  proof
    assume "agg_of b' = agg_of ?b"
    with agg cov' show ?thesis by simp
  next
    assume s: "agg_step (lib_host lb) (job_instant ?j) (agg_of ?b) (job_label ?j) (agg_of b')"
    have "job_covered ?A' ?j" using jobs' i by simp
    from agg_step_covered [OF s cov' job_covered_gains [OF this]] agg_step_ok [OF s] agg_step_manifest [OF s] agg
    show ?thesis by simp
  qed
  moreover have "c_pending_issued (acts @ [a]) (nonces_of b')"
    unfolding a by (rule job_step_pending [OF step pend])
  moreover have "job_covered ?A' j'"
    unfolding a reg [symmetric] by (rule job_step_covered [OF step pend])
  ultimately show ?thesis
    using jobs' job_step_registry [OF step] reg
    by (auto simp: conc_ok_def dest!: set_update_subset_insert [THEN subsetD])
qed

section \<open>Every reachable configuration\<close>

lemma step_thread_eq:
  "job_step lb version tk (sy_jobs sys ! i) (sy_broker sys) = (j', b') \<Longrightarrow>
     step_thread lb version i tk sys = \<lparr>sy_clock = tk_now tk, sy_jobs = (sy_jobs sys)[i := j'], sy_broker = b'\<rparr>"
  by (simp add: step_thread_def)

lemma conc_step_work:
  assumes "i < length (sy_jobs sys)" and "\<not> finished (sy_jobs sys ! i)" and "sy_clock sys \<le> tk_now tk"
    and "job_step lb version tk (sy_jobs sys ! i) (sy_broker sys) = (j', b')"
  shows "conc_step lb version fe sys (ActStep i tk (sy_jobs sys ! i) j')
    \<lparr>sy_clock = tk_now tk, sy_jobs = (sy_jobs sys)[i := j'], sy_broker = b'\<rparr>"
  using conc_step.thread [OF assms(1-3) refl, of lb version fe] assms(1) by (simp add: step_thread_eq [OF assms(4)])

text \<open>A step of the system is a step of one job, or leaves all but the subscribers and the list of jobs alone.\<close>

lemma conc_step_cases:
  assumes "conc_step lb version fe sys a sys'"
  obtains (work) i tk j' b' where "i < length (sy_jobs sys)" "\<not> finished (sy_jobs sys ! i)"
      "sy_clock sys \<le> tk_now tk" "job_step lb version tk (sy_jobs sys ! i) (sy_broker sys) = (j', b')"
      "a = ActStep i tk (sy_jobs sys ! i) j'"
      "sys' = \<lparr>sy_clock = tk_now tk, sy_jobs = (sy_jobs sys)[i := j'], sy_broker = b'\<rparr>"
  | (outside) js nt where "\<And>i tk j j'. a \<noteq> ActStep i tk j j'"
      "sys' = sys\<lparr>sy_jobs := sy_jobs sys @ js, sy_broker := (sy_broker sys)\<lparr>bk_notifier := nt\<rparr>\<rparr>"
      "length js \<le> 1" "\<forall>j \<in> set js. (\<exists>req. j = JControl req) \<or> (\<exists>msg. j = JMcp msg)"
proof -
  have same: "sys = sys\<lparr>sy_jobs := sy_jobs sys @ [], sy_broker := (sy_broker sys)\<lparr>bk_notifier := bk_notifier (sy_broker sys)\<rparr>\<rparr>"
    by simp
  have job: "sys\<lparr>sy_jobs := sy_jobs sys @ [j]\<rparr> =
      sys\<lparr>sy_jobs := sy_jobs sys @ [j], sy_broker := (sy_broker sys)\<lparr>bk_notifier := bk_notifier (sy_broker sys)\<rparr>\<rparr>" for j
    by simp
  have sub: "sys\<lparr>sy_broker := b\<rparr> = sys\<lparr>sy_jobs := sy_jobs sys @ [], sy_broker := b\<rparr>" for b
    by simp
  show thesis
    using assms
  proof (cases rule: conc_step.cases)
    case (http req)
    show thesis
    proof (cases "http_start fe req")
      case (HttpAnswered resp)
      then have "sys' = sys" using http by (simp add: spawn_http_def)
      with same http show thesis by (intro outside [where js = "[]" and nt = "bk_notifier (sy_broker sys)"]) simp_all
    next
      case HttpSubscribe
      with http show thesis
        by (intro outside [where js = "[]" and nt = "subscribe (bk_notifier (sy_broker sys))"]) (simp_all add: spawn_http_def)
    next
      case (HttpCall parsed client)
      with http show thesis
        by (intro outside [where js = "[JMcp parsed]" and nt = "bk_notifier (sy_broker sys)"]) (simp_all add: spawn_http_def)
    qed
  next
    case (connection stream)
    show thesis
    proof (cases "\<exists>cn req. stream = Some cn \<and> control_start fe cn = CtlCall req")
      case True
      then obtain cn req where "stream = Some cn" "control_start fe cn = CtlCall req" by blast
      with connection show thesis
        by (intro outside [where js = "[JControl req]" and nt = "bk_notifier (sy_broker sys)"]) (simp_all add: spawn_connection_def)
    next
      case False
      then have "sys' = sys"
        using connection by (auto simp: spawn_connection_def split: option.splits control_start.splits)
      with same connection show thesis by (intro outside [where js = "[]" and nt = "bk_notifier (sy_broker sys)"]) simp_all
    qed
  next
    case (thread i tk)
    obtain j' b' where s: "job_step lb version tk (sy_jobs sys ! i) (sy_broker sys) = (j', b')" by force
    from step_thread_eq [OF s] thread s show thesis by (intro work [of i tk j' b']) simp_all
  next
    case (disconnect i)
    then show thesis by (intro outside [where js = "[]"]) simp_all
  qed
qed

lemma conc_step_ok:
  assumes "conc_step lb version fe sys a sys'" and "conc_ok lb loaded reg acts sys"
  shows "conc_ok lb loaded reg (acts @ [a]) sys'"
  using assms(1)
proof (cases rule: conc_step_cases)
  case (work i tk j' b')
  with thread_ok [OF assms(2) work(1,4,5)] show ?thesis by simp
next
  case (outside js nt)
  then show ?thesis by (intro conc_ok_keep [OF assms(2)]) auto
qed

lemma conc_run_ok:
  assumes "conc_run lb version fe sys0 acts sys" and "fresh_broker lb loaded b0" and "sys0 = system_new b0"
  shows "conc_ok lb loaded (bk_registry b0) acts sys"
  using assms
proof (induction rule: conc_run.induct)
  case conc_start
  with fresh_start [of lb loaded b0] show ?case
    by (simp add: conc_ok_def system_new_def c_pending_issued_def covered_start)
next
  case (conc_more acts sys a sys')
  with conc_step_ok show ?case by blast
qed

section \<open>Nonces under interference\<close>

fun c_issues :: "string \<Rightarrow> nonce \<Rightarrow> act \<Rightarrow> bool" where
  "c_issues client n (ActStep i tk (JIssueAt t c p) j') \<longleftrightarrow>
     c = client \<and> j' = answered (RNonce (nonce_to_hex n))"
| "c_issues client n _ \<longleftrightarrow> False"

fun c_accepts :: "string \<Rightarrow> nonce \<Rightarrow> act \<Rightarrow> bool" where
  "c_accepts client n (ActStep i tk (JSubmitAt t c nh sh) (JVerified t' c' v)) \<longleftrightarrow>
     c = client \<and> nonce_from_hex nh = Some n"
| "c_accepts client n _ \<longleftrightarrow> False"

lemma job_step_outstanding:
  assumes "job_step lb version tk j b = (j', b')"
  shows "outstanding_nonces c k (nonces_of b') + (if c_accepts c k (ActStep i tk j j') then 1 else 0)
    \<le> outstanding_nonces c k (nonces_of b) + (if c_issues c k (ActStep i tk j j') then 1 else 0)"
proof -
  have prune: "outstanding_nonces c k (nonces_prune t st) \<le> outstanding_nonces c k st" for t st
    unfolding outstanding_nonces_def by (rule nonces.prune_count)
  consider (issue) t client p where "j = JIssueAt t client p"
    | (submit) t client nh sh where "j = JSubmitAt t client nh sh"
    | (other) "\<forall>t client p. j \<noteq> JIssueAt t client p" "\<forall>t client nh sh. j \<noteq> JSubmitAt t client nh sh"
    by blast
  then show ?thesis
  proof cases
    case (issue t client p)
    then obtain resp where r: "issue_nonce (at t tk) client p b = (resp, b')" "j' = answered resp"
      using assms by (auto split: prod.splits)
    show ?thesis
    proof (cases rule: issue_nonce_cases [of "at t tk" client p b])
      case (failed m)
      with r issue show ?thesis by simp
    next
      case (refused st m st')
      with r issue prune [of t "nonces_of b"] show ?thesis by (auto simp: lock_guarded)
    next
      case (issued st n st')
      with r have st: "st = nonces_of b" "nonces_of b' = st'" by (auto simp: lock_guarded)
      have "outstanding_nonces c k st' =
          outstanding_nonces c k (nonces_prune t st) + (if c = client \<and> k = n then 1 else 0)"
        using issue_ok [OF issued(2)] by (auto simp: outstanding_nonces_def pending_for_def)
      moreover have "c = client \<and> k = n \<longrightarrow> c_issues c k (ActStep i tk j j')"
        using r issued(3) issue by simp
      ultimately show ?thesis using prune [of t st] st issue by auto
    qed
  next
    case (submit t client nh sh)
    then have s: "submit_section lb t client nh sh b = (j', b')" using assms by simp
    show ?thesis
    proof (cases rule: submit_section_cases [of lb t client nh sh b])
      case (early m)
      with s submit show ?thesis by auto
    next
      case (denied n sig st e st')
      with s submit verify_outstanding [OF denied(4), of c k] show ?thesis by (auto simp: lock_guarded)
    next
      case (verified n sig st v st')
      with s submit verify_outstanding [OF verified(4), of c k] show ?thesis by (auto simp: lock_guarded)
    qed
  next
    case other
    then have "\<not> c_accepts c k (ActStep i tk j j')" "\<not> c_issues c k (ActStep i tk j j')"
      by (cases j; cases j'; simp)+
    with other job_step_nonces [OF assms] show ?thesis by auto
  qed
qed

lemma conc_run_outstanding:
  assumes "conc_run lb version fe sys0 acts sys" and "fresh_broker lb loaded b0" and "sys0 = system_new b0"
  shows "length (filter (c_accepts c k) acts) + outstanding_nonces c k (nonces_of (sy_broker sys))
    \<le> length (filter (c_issues c k) acts)"
  using assms
proof (induction rule: conc_run.induct)
  case conc_start
  with fresh_start [of lb loaded b0] show ?case by (simp add: system_new_def outstanding_nonces_def)
next
  case (conc_more acts sys a sys')
  from conc_more(2) show ?case
  proof (cases rule: conc_step_cases)
    case (work i tk j' b')
    with job_step_outstanding [OF work(4), of c k i] conc_more show ?thesis by auto
  next
    case (outside js nt)
    then have "\<not> c_accepts c k a" "\<not> c_issues c k a" by (cases a; simp)+
    with outside conc_more show ?thesis by simp
  qed
qed

section \<open>Bounded resources\<close>

lemma audit_file_grows: "\<exists>w. tape (audit_file io line log) = tape log @ w"
proof (cases "al_file log")
  case None
  then show ?thesis by (simp add: audit_file_def)
next
  case (Some m)
  obtain v where "append_bytes (fst io) line (guarded m) = guarded m @ v"
    using append_bytes_prefix by blast
  moreover obtain w where "append_bytes (snd io) [CHR 0x0A] (guarded m @ v) = guarded m @ v @ w"
    by (metis append_assoc append_bytes_prefix)
  ultimately show ?thesis
    using Some by (cases m) (auto simp: audit_file_def tape_def)
qed

lemma audit_file_ring [simp]: "ring (audit_file io line log) = ring log"
  by (simp add: audit_file_def ring_def split: option.split)

lemma audit_ring_tape [simp]: "tape (audit_ring line log) = tape log"
  by (simp add: audit_ring_def tape_def split: option.split)

lemma audit_ring_bounded:
  "length (ring log) \<le> recent_cap \<Longrightarrow> length (ring (audit_ring line log)) \<le> recent_cap"
  by (cases "al_recent log") (simp add: audit_ring_def ring_def length_push_capped)

text \<open>One step uses at most one of the bounded resources, and keeps it within its bound.\<close>

definition within_bounds :: "('k, 'c, 's) broker \<Rightarrow> bool" where
  "within_bounds b \<longleftrightarrow> length (nonces_of b) \<le> max_pending_nonces
     \<and> length (guarded (bk_log b)) \<le> max_log_entries \<and> length (ring (bk_audit b)) \<le> recent_cap"

lemma exec_effect_bounds:
  "exec_effect lb tk e b = (es, b') \<Longrightarrow> within_bounds b \<Longrightarrow>
     within_bounds b' \<and> (\<exists>w. tape (bk_audit b') = tape (bk_audit b) @ w)"
  by (cases e) (auto simp: Let_def within_bounds_def log_record_length audit_ring_bounded audit_file_grows)

lemma job_step_nonces_bounded:
  assumes "job_step lb version tk j b = (j', b')" and "length (nonces_of b) \<le> max_pending_nonces"
  shows "length (nonces_of b') \<le> max_pending_nonces"
  using job_step_nonces [OF assms(1)]
proof (elim disjE exE conjE)
  fix t client p
  assume "nonces_of b' = nonces_prune t (nonces_of b)"
  then show ?thesis using nonces.length_prune [of t "nonces_of b"] assms(2) by simp
next
  fix t client p n
  assume "issue (nonces_of b) client p t (tk_random tk) = (Ok n, nonces_of b')"
  from issue_bounded [OF assms(2), of client p t "tk_random tk"] this show ?thesis by simp
next
  fix t client nh sh n sig r
  assume "verify_and_consume (lib_crypto lb) (nonces_of b) client n sig (bk_registry b) t = (r, nonces_of b')"
  then show ?thesis
    using length_verify [of "lib_crypto lb" "nonces_of b" client n sig "bk_registry b" t] assms(2) by simp
qed (use assms(2) in simp)

lemma job_step_bounds:
  assumes step: "job_step lb version tk j b = (j', b')" and bounds: "within_bounds b"
  shows "within_bounds b' \<and> (\<exists>w. tape (bk_audit b') = tape (bk_audit b) @ w)"
proof (cases "\<exists>e es r. j = JAfter (e # es) r")
  case True
  with step bounds show ?thesis by (auto dest: exec_effect_bounds split: prod.splits)
next
  case False
  then have "bk_log b' = bk_log b \<and> bk_audit b' = bk_audit b"
    using step
    by (cases "(lb, version, tk, j, b)" rule: job_step.cases)
      (auto simp: revoke_section_def split: prod.splits dest: issue_nonce_frame submit_section_frame
        lifecycle_section_frame call_section_frame slot_section_frame apply_section_frame)
  with bounds job_step_nonces_bounded [OF step] show ?thesis by (simp add: within_bounds_def)
qed

lemma conc_run_bounds:
  assumes "conc_run lb version fe sys0 acts sys" and "within_bounds (sy_broker sys0)"
  shows "within_bounds (sy_broker sys) \<and> (\<exists>w. tape (bk_audit (sy_broker sys)) = tape (bk_audit (sy_broker sys0)) @ w)"
  using assms
proof (induction rule: conc_run.induct)
  case conc_start
  then show ?case by simp
next
  case (conc_more acts sys a sys')
  from conc_more(2) show ?case
  proof (cases rule: conc_step_cases)
    case (work i tk j' b')
    with job_step_bounds [OF work(4)] conc_more show ?thesis by fastforce
  next
    case (outside js nt)
    with conc_more show ?thesis by (simp add: within_bounds_def)
  qed
qed

end
