(* ===== verification/ConcSched.thy ===== *)
theory ConcSched
  imports ConcRuns
begin

text \<open>
  Schedules: how many steps a thread takes, that none can be kept from finishing by the others,
  and that every run of the atomic broker is the schedule in which each request is served
  before the next one is accepted.
\<close>

section \<open>Steps of one thread\<close>

fun step_of :: "nat \<Rightarrow> act \<Rightarrow> bool" where
  "step_of i (ActStep k tk j j') \<longleftrightarrow> k = i"
| "step_of i _ \<longleftrightarrow> False"

fun step_with :: "nat \<Rightarrow> tick \<Rightarrow> act \<Rightarrow> bool" where
  "step_with i tk (ActStep k tk' j j') \<longleftrightarrow> k = i \<and> tk' = tk"
| "step_with i tk _ \<longleftrightarrow> False"

lemma step_with_of: "step_with i tk a \<Longrightarrow> step_of i a"
  by (cases a) simp_all

definition max_steps :: nat where "max_steps = 8"

lemma conc_run_steps:
  assumes "conc_run lb version fe sys0 acts sys" and "sy_jobs sys0 = []"
  shows "(\<forall>i < length (sy_jobs sys). length (filter (step_of i) acts) + steps_left (sy_jobs sys ! i) \<le> max_steps)
    \<and> (\<forall>i \<ge> length (sy_jobs sys). filter (step_of i) acts = [])"
  using assms
proof (induction rule: conc_run.induct)
  case conc_start
  then show ?case by simp
next
  case (conc_more acts sys a sys')
  from conc_more(2) show ?case
  proof (cases rule: conc_step_cases)
    case (work k tk j' b')
    have dec: "steps_left j' < steps_left (sy_jobs sys ! k)"
      using job_step_decreases [OF work(2), of lb version tk "sy_broker sys"] work(4) by simp
    show ?thesis
      using conc_more dec work
      by (auto simp: nth_list_update dest: spec)
  next
    case (outside js nt)
    have none: "\<not> step_of i a" for i using outside(1) by (cases a) auto
    have new: "\<forall>j \<in> set js. steps_left j \<le> max_steps" using outside(4) by (auto simp: max_steps_def)
    have later: "filter (step_of i) acts = []" if "length (sy_jobs sys) \<le> i" for i
      using conc_more that by simp
    show ?thesis
      using conc_more outside(2) none new later
      by (auto simp: nth_append)
  qed
qed

section \<open>Instants\<close>

lemma job_step_instant:
  assumes "job_step lb version tk j b = (j', b')" and "job_instant j \<le> tk_now tk"
  shows "job_instant j' \<le> tk_now tk"
  using assms
proof (induction lb version tk j b rule: job_step.induct)
  case (1 lb version tk req b)
  then show ?case by (cases req) (auto split: sum.splits)
next
  case (4 lb version tk t op sid b)
  then show ?case by (auto simp: lifecycle_section_def Let_def split: option.splits sum.splits prod.splits)
next
  case (6 lb version tk t client n sig b)
  then show ?case by (auto simp: submit_section_def Let_def split: option.splits sum.splits prod.splits)
next
  case (7 lb version tk t client v b)
  then show ?case
    by (cases v) (auto simp: elevation_section_def slot_section_def confirm_section_def Let_def split: option.splits if_splits)
next
  case (8 lb version tk t sid b)
  then show ?case by (auto simp: revoke_section_def slot_section_def Let_def split: option.splits if_splits)
next
  case (9 lb version tk req b)
  then show ?case by (auto simp: mcp_begin_def Let_def split: sum.splits if_splits)
next
  case (11 lb version tk t rid name args b)
  then show ?case by (auto simp: call_section_def Let_def split: option.splits sum.splits prod.splits)
qed (auto split: prod.splits)

text \<open>No thread works with an instant later than the clock, and neither does anything in the trace.\<close>

lemma conc_run_clock:
  assumes "conc_run lb version fe sys0 acts sys" and "sy_jobs sys0 = []"
  shows "(\<forall>j \<in> set (sy_jobs sys). job_instant j \<le> sy_clock sys)
    \<and> (\<forall>i tk j j'. ActStep i tk j j' \<in> set acts \<longrightarrow> job_instant j \<le> tk_now tk \<and> tk_now tk \<le> sy_clock sys)"
  using assms
proof (induction rule: conc_run.induct)
  case conc_start
  then show ?case by simp
next
  case (conc_more acts sys a sys')
  from conc_more(2) show ?case
  proof (cases rule: conc_step_cases)
    case (work i tk j' b')
    have old: "job_instant j \<le> tk_now tk" if "j \<in> set (sy_jobs sys)" for j
      using conc_more that work(3) by fastforce
    then have "job_instant (sy_jobs sys ! i) \<le> tk_now tk" using work(1) by simp
    moreover from job_step_instant [OF work(4) this] have "job_instant j' \<le> tk_now tk" .
    moreover have "tk_now tk0 \<le> tk_now tk" if "ActStep i0 tk0 j j0 \<in> set acts" for i0 tk0 j j0
      using conc_more that work(3) by (meson order_trans)
    ultimately show ?thesis
      using work(5,6) old conc_more
      by (auto dest!: set_update_subset_insert [THEN subsetD])
  next
    case (outside js nt)
    have "job_instant j \<le> sy_clock sys" if "j \<in> set js" for j using outside(4) that by auto
    with conc_more outside(1) [symmetric] outside(2) show ?thesis by auto
  qed
qed

section \<open>Running one thread to its end\<close>

lemma conc_run_append:
  "conc_run lb version fe sys1 acts' sys2 \<Longrightarrow> conc_run lb version fe sys0 acts sys1 \<Longrightarrow>
     conc_run lb version fe sys0 (acts @ acts') sys2"
proof (induction rule: conc_run.induct)
  case conc_start
  then show ?case by simp
next
  case (conc_more acts' sys2 a sys3)
  then show ?case using conc_run.conc_more by (metis append_assoc)
qed

lemma conc_run_one: "conc_step lb version fe sys a sys' \<Longrightarrow> conc_run lb version fe sys [a] sys'"
  using conc_run.conc_more [OF conc_run.conc_start] by simp

lemma thread_alone:
  assumes "run_job lb version tk (sy_jobs sys ! i) (sy_broker sys) = (j', b')"
    and "i < length (sy_jobs sys)" and "sy_clock sys \<le> tk_now tk"
  shows "\<exists>acts clk. conc_run lb version fe sys acts
      \<lparr>sy_clock = clk, sy_jobs = (sy_jobs sys)[i := j'], sy_broker = b'\<rparr>
    \<and> length acts \<le> steps_left (sy_jobs sys ! i) \<and> list_all (step_with i tk) acts
    \<and> (clk = sy_clock sys \<or> clk = tk_now tk)"
  using assms
proof (induction "steps_left (sy_jobs sys ! i)" arbitrary: sys rule: less_induct)
  case less
  show ?case
  proof (cases "finished (sy_jobs sys ! i)")
    case True
    then have e: "j' = sy_jobs sys ! i" "b' = sy_broker sys" using less.prems(1) by (auto simp: finished_iff)
    have "\<lparr>sy_clock = sy_clock sys, sy_jobs = (sy_jobs sys)[i := j'], sy_broker = b'\<rparr> = sys"
      using e by simp
    then show ?thesis
      using conc_run.conc_start [of lb version fe sys]
      by (intro exI [of _ "[]"] exI [of _ "sy_clock sys"]) simp
  next
    case False
    obtain j1 b1 where s: "job_step lb version tk (sy_jobs sys ! i) (sy_broker sys) = (j1, b1)" by force
    let ?sys = "\<lparr>sy_clock = tk_now tk, sy_jobs = (sy_jobs sys)[i := j1], sy_broker = b1\<rparr>"
    have step: "conc_step lb version fe sys (ActStep i tk (sy_jobs sys ! i) j1) ?sys"
      by (rule conc_step_work [OF less.prems(2) False less.prems(3) s])
    have dec: "steps_left j1 < steps_left (sy_jobs sys ! i)"
      using job_step_decreases [OF False, of lb version tk "sy_broker sys"] s by simp
    have "run_job lb version tk (sy_jobs ?sys ! i) (sy_broker ?sys) = (j', b')"
      using less.prems(1,2) run_job_step [OF False s] by simp
    from less.hyps [OF _ this] dec less.prems(2) obtain acts clk where
      r: "conc_run lb version fe ?sys acts \<lparr>sy_clock = clk, sy_jobs = (sy_jobs sys)[i := j'], sy_broker = b'\<rparr>"
      "length acts \<le> steps_left j1" "list_all (step_with i tk) acts" "clk = tk_now tk"
      by auto
    have "conc_run lb version fe sys (ActStep i tk (sy_jobs sys ! i) j1 # acts)
        \<lparr>sy_clock = clk, sy_jobs = (sy_jobs sys)[i := j'], sy_broker = b'\<rparr>"
      using conc_run_append [OF r(1) conc_run_one [OF step]] by simp
    with r dec show ?thesis
      by (intro exI [of _ "ActStep i tk (sy_jobs sys ! i) j1 # acts"] exI [of _ clk]) simp
  qed
qed

lemma run_job_ends: "\<exists>r b'. run_job lb version tk j b = (JAfter [] r, b')"
proof (induction "steps_left j" arbitrary: j b rule: less_induct)
  case less
  show ?case
  proof (cases "finished j")
    case True
    then show ?thesis by (auto simp: finished_iff)
  next
    case False
    obtain j1 b1 where s: "job_step lb version tk j b = (j1, b1)" by force
    have "steps_left j1 < steps_left j" using job_step_decreases [OF False, of lb version tk b] s by simp
    from less.hyps [OF this] run_job_step [OF False s] show ?thesis by simp
  qed
qed

section \<open>The atomic broker is one of the schedules\<close>

text \<open>What a client can send for an event of the atomic broker to happen.\<close>

fun deliverable :: "front_end \<Rightarrow> event \<Rightarrow> bool" where
  "deliverable fe (EvControl tk req resp) \<longleftrightarrow> (\<exists>cn. control_start fe cn = CtlCall req)"
| "deliverable fe (EvMcp tk msg resp) \<longleftrightarrow> (\<exists>hq client. http_start fe hq = HttpCall msg client)"
| "deliverable fe EvSubscribe \<longleftrightarrow> (\<exists>hq. http_start fe hq = HttpSubscribe)"
| "deliverable fe (EvDisconnect i) \<longleftrightarrow> True"

text \<open>The job a served request leaves behind: its answer.\<close>

fun left_by :: "event \<Rightarrow> job list" where
  "left_by (EvControl tk req resp) = [answered resp]"
| "left_by (EvMcp tk msg resp) = [mcp_answered resp]"
| "left_by _ = []"

lemma served:
  assumes run: "run_job lb version tk j (sy_broker sys) = (JAfter [] r, b')" and clock: "sy_clock sys \<le> tk_now tk"
    and acc: "conc_step lb version fe sys a (sys\<lparr>sy_jobs := sy_jobs sys @ [j]\<rparr>)"
  shows "\<exists>acts clk. conc_run lb version fe sys acts
      \<lparr>sy_clock = clk, sy_jobs = sy_jobs sys @ [JAfter [] r], sy_broker = b'\<rparr>
    \<and> (clk = sy_clock sys \<or> clk = tk_now tk)"
proof -
  let ?sys = "sys\<lparr>sy_jobs := sy_jobs sys @ [j]\<rparr>" and ?i = "length (sy_jobs sys)"
  have "run_job lb version tk (sy_jobs ?sys ! ?i) (sy_broker ?sys) = (JAfter [] r, b')" using run by simp
  from thread_alone [OF this, of fe] clock obtain acts clk where
    r: "conc_run lb version fe ?sys acts \<lparr>sy_clock = clk, sy_jobs = sy_jobs sys @ [JAfter [] r], sy_broker = b'\<rparr>"
    "clk = sy_clock sys \<or> clk = tk_now tk" by auto
  with conc_run_append [OF r(1) conc_run_one [OF acc]] show ?thesis by auto
qed

lemma event_scheduled:
  assumes step: "broker_step lb version b ev b'" and del: "deliverable fe ev"
    and now: "case event_now ev of None \<Rightarrow> True | Some t \<Rightarrow> sy_clock sys \<le> t" and b: "sy_broker sys = b"
  shows "\<exists>acts clk. conc_run lb version fe sys acts
      \<lparr>sy_clock = clk, sy_jobs = sy_jobs sys @ left_by ev, sy_broker = b'\<rparr>
    \<and> (clk = sy_clock sys \<or> Some clk = event_now ev)"
  using step
proof (cases rule: broker_step.cases)
  case (control tk req resp)
  then obtain cn where "control_start fe cn = CtlCall req" using del by auto
  then have "spawn_connection fe (Some cn) sys = sys\<lparr>sy_jobs := sy_jobs sys @ [JControl req]\<rparr>"
    by (simp add: spawn_connection_def)
  then have acc: "conc_step lb version fe sys (ActConnection (Some cn)) (sys\<lparr>sy_jobs := sy_jobs sys @ [JControl req]\<rparr>)"
    using conc_step.connection [of lb version fe sys "Some cn"] by simp
  have "run_job lb version tk (JControl req) (sy_broker sys) = (answered resp, b')"
    using control_job_runs [OF control(2)] b by simp
  from served [OF this _ acc] now control(1) show ?thesis by auto
next
  case (mcp tk req client resp)
  then obtain hq client' where "http_start fe hq = HttpCall req client'" using del by auto
  then have "spawn_http fe hq sys = sys\<lparr>sy_jobs := sy_jobs sys @ [JMcp req]\<rparr>"
    by (simp add: spawn_http_def)
  then have acc: "conc_step lb version fe sys (ActHttp hq) (sys\<lparr>sy_jobs := sy_jobs sys @ [JMcp req]\<rparr>)"
    using conc_step.http [of lb version fe sys hq] by simp
  have "run_job lb version tk (JMcp req) (sy_broker sys) = (mcp_answered resp, b')"
    using mcp_job_runs [OF mcp(2)] b by simp
  from served [OF this _ acc] now mcp(1) show ?thesis by auto
next
  case subscribe
  then obtain hq where "http_start fe hq = HttpSubscribe" using del by auto
  then have "spawn_http fe hq sys = \<lparr>sy_clock = sy_clock sys, sy_jobs = sy_jobs sys @ left_by ev, sy_broker = b'\<rparr>"
    using subscribe b by (simp add: spawn_http_def)
  with conc_run_one [OF conc_step.http [of lb version fe sys hq]] show ?thesis by auto
next
  case (disconnect i)
  then have "conc_run lb version fe sys [ActDisconnect i]
      \<lparr>sy_clock = sy_clock sys, sy_jobs = sy_jobs sys @ left_by ev, sy_broker = b'\<rparr>"
    using conc_run_one [OF conc_step.disconnect [of i sys lb version fe]] b by (cases sys) simp
  then show ?thesis by blast
qed

lemma atomic_schedule:
  assumes "broker_run lb version b0 tr b" and "list_all (deliverable fe) tr"
  shows "\<exists>acts sys. conc_run lb version fe (system_new b0) acts sys \<and> sy_broker sys = b
    \<and> sy_jobs sys = concat (map left_by tr)
    \<and> (sy_clock sys = 0 \<or> (\<exists>ev \<in> set tr. event_now ev = Some (sy_clock sys)))"
  using assms
proof (induction rule: broker_run.induct)
  case start
  show ?case
    by (intro exI [of _ "[]"] exI [of _ "system_new b0"]) (simp add: conc_run.conc_start, simp add: system_new_def)
next
  case (extend tr b ev b')
  then obtain acts sys where ih: "conc_run lb version fe (system_new b0) acts sys" "sy_broker sys = b"
    "sy_jobs sys = concat (map left_by tr)"
    "sy_clock sys = 0 \<or> (\<exists>ev \<in> set tr. event_now ev = Some (sy_clock sys))" by auto
  have now: "case event_now ev of None \<Rightarrow> True | Some t \<Rightarrow> sy_clock sys \<le> t"
    using extend(2) ih(4) by (fastforce simp: in_order_def list_all_iff split: option.splits)
  from event_scheduled [OF extend(3) _ now ih(2), of fe] extend.prems obtain acts' clk where
    r: "conc_run lb version fe sys acts' \<lparr>sy_clock = clk, sy_jobs = sy_jobs sys @ left_by ev, sy_broker = b'\<rparr>"
    "clk = sy_clock sys \<or> Some clk = event_now ev" by auto
  let ?sys = "\<lparr>sy_clock = clk, sy_jobs = sy_jobs sys @ left_by ev, sy_broker = b'\<rparr>"
  have "conc_run lb version fe (system_new b0) (acts @ acts') ?sys" by (rule conc_run_append [OF r(1) ih(1)])
  then show ?case using ih(3,4) r(2)
    by (intro exI [of _ "acts @ acts'"] exI [of _ ?sys]) auto
qed

end
