(* ===== verification/ConcAudit.thy ===== *)
theory ConcAudit
  imports ConcRuns
begin

text \<open>
  The audit tape under interleaving. A section decides on an event, the thread later serialises
  it with the wall clock, writes the line to the file and pushes it on the ring, each in a step
  of its own. What is decided, serialised, written and pushed is read off the trace; the
  invariant says that nothing is lost or repeated between them.
\<close>

section \<open>What the trace says\<close>

definition decided_by :: "act \<Rightarrow> audit_event list" where
  "decided_by a =
     (case a of
        ActStep i tk j j' \<Rightarrow>
          (case j of
             JAfter es r \<Rightarrow> []
           | _ \<Rightarrow>
               (case j' of
                  JAfter es r \<Rightarrow> List.map_filter (\<lambda>e. case e of ETape ev \<Rightarrow> Some ev | _ \<Rightarrow> None) es
                | _ \<Rightarrow> []))
      | _ \<Rightarrow> [])"

text \<open>The effect a step of the trace carries out, with what it read.\<close>

definition performed :: "act \<Rightarrow> (tick \<times> effect) option" where
  "performed a =
     (case a of
        ActStep i tk (JAfter (e # es) r) j' \<Rightarrow> Some (tk, e)
      | _ \<Rightarrow> None)"

definition taped_by :: "act \<Rightarrow> (u64 option \<times> audit_event) list" where
  "taped_by a = (case performed a of Some (tk, ETape ev) \<Rightarrow> [(tk_wall tk, ev)] | _ \<Rightarrow> [])"

definition filed_by :: "act \<Rightarrow> ((nat option \<times> nat option) \<times> string) list" where
  "filed_by a = (case performed a of Some (tk, EFile line) \<Rightarrow> [(tk_io tk, line)] | _ \<Rightarrow> [])"

definition rung_by :: "act \<Rightarrow> string list" where
  "rung_by a = (case performed a of Some (tk, ERing line) \<Rightarrow> [line] | _ \<Rightarrow> [])"

definition decided :: "act list \<Rightarrow> audit_event list" where "decided acts = concat (map decided_by acts)"
definition taped :: "act list \<Rightarrow> (u64 option \<times> audit_event) list" where "taped acts = concat (map taped_by acts)"
definition filed :: "act list \<Rightarrow> ((nat option \<times> nat option) \<times> string) list" where
  "filed acts = concat (map filed_by acts)"
definition rung :: "act list \<Rightarrow> string list" where "rung acts = concat (map rung_by acts)"

definition line_of :: "('k, 'c, 's) libs \<Rightarrow> u64 option \<times> audit_event \<Rightarrow> string" where
  "line_of lb = (\<lambda>(wall, ev). serialize_line (lib_entry lb) wall ev)"

lemma trace_more [simp]:
  "decided (acts @ [a]) = decided acts @ decided_by a" "taped (acts @ [a]) = taped acts @ taped_by a"
  "filed (acts @ [a]) = filed acts @ filed_by a" "rung (acts @ [a]) = rung acts @ rung_by a"
  "decided [] = []" "taped [] = []" "filed [] = []" "rung [] = []"
  by (simp_all add: decided_def taped_def filed_def rung_def)

lemma trace_outside [simp]:
  assumes "\<And>i tk j j'. a \<noteq> ActStep i tk j j'"
  shows "decided_by a = []" "taped_by a = []" "filed_by a = []" "rung_by a = []"
  using assms by (cases a; simp add: decided_by_def taped_by_def filed_by_def rung_by_def performed_def)+

section \<open>What the jobs still owe\<close>

fun owed_event :: "effect \<Rightarrow> audit_event multiset" where
  "owed_event (ETape ev) = {#ev#}"
| "owed_event _ = {#}"

fun owed_file :: "effect \<Rightarrow> string multiset" where
  "owed_file (EFile line) = {#line#}"
| "owed_file _ = {#}"

fun owed_ring :: "effect \<Rightarrow> string multiset" where
  "owed_ring (ERing line) = {#line#}"
| "owed_ring _ = {#}"

fun owed :: "(effect \<Rightarrow> 'a multiset) \<Rightarrow> job \<Rightarrow> 'a multiset" where
  "owed g (JAfter es r) = (\<Sum>e \<leftarrow> es. g e)"
| "owed g _ = {#}"

definition owed_all :: "(effect \<Rightarrow> 'a multiset) \<Rightarrow> job list \<Rightarrow> 'a multiset" where
  "owed_all g js = (\<Sum>j \<leftarrow> js. owed g j)"

lemma owed_finished: "finished j \<Longrightarrow> owed g j = {#}"
  by (auto simp: finished_iff)

lemma owed_all_finished: "\<forall>j \<in> set js. finished j \<Longrightarrow> owed_all g js = {#}"
  unfolding owed_all_def by (induction js) (auto simp: owed_finished)

lemma owed_all_step:
  "i < length js \<Longrightarrow> owed_all g (js[i := j']) + owed g (js ! i) = owed_all g js + owed g j'"
  unfolding owed_all_def
proof (induction js arbitrary: i)
  case Nil
  then show ?case by simp
next
  case (Cons j js)
  then show ?case by (cases i) (auto simp: ac_simps)
qed

lemma owed_all_accepted:
  "\<forall>j \<in> set js'. (\<exists>req. j = JControl req) \<or> (\<exists>msg. j = JMcp msg) \<Longrightarrow> owed_all g (js @ js') = owed_all g js"
  unfolding owed_all_def by (induction js') auto

lemma mset_events: "mset (List.map_filter (\<lambda>e. case e of ETape ev \<Rightarrow> Some ev | _ \<Rightarrow> None) es) = (\<Sum>e \<leftarrow> es. owed_event e)"
proof (induction es)
  case Nil
  then show ?case by (simp add: List.map_filter_def)
next
  case (Cons e es)
  then show ?case by (cases e) (simp_all add: List.map_filter_def)
qed

section \<open>One step\<close>

text \<open>A section produces events and log lines, never file or ring writes.\<close>

definition events_only :: "effect list \<Rightarrow> bool" where
  "events_only es \<longleftrightarrow> (\<Sum>e \<leftarrow> es. owed_file e) = {#} \<and> (\<Sum>e \<leftarrow> es. owed_ring e) = {#}"

lemma sections_owe:
  assumes "job_step lb version tk j b = (JAfter es r, b')" and "\<And>es r. j \<noteq> JAfter es r"
  shows "events_only es"
  using assms
proof (induction lb version tk j b rule: job_step.induct)
  case (1 lb version tk req b)
  then show ?case by (cases req) (auto simp: events_only_def split: sum.splits)
next
  case (4 lb version tk t op sid b)
  then show ?case
    by (auto simp: events_only_def lifecycle_section_def Let_def split: option.splits sum.splits prod.splits if_splits)
next
  case (6 lb version tk t client n sig b)
  then show ?case
    by (auto simp: events_only_def submit_section_def Let_def split: option.splits sum.splits prod.splits)
next
  case (7 lb version tk t client v b)
  then show ?case
    by (cases v) (auto simp: events_only_def elevation_section_def slot_section_def confirm_section_def Let_def
        split: option.splits if_splits)
next
  case (8 lb version tk t sid b)
  then show ?case
    by (auto simp: events_only_def revoke_section_def slot_section_def Let_def split: option.splits if_splits)
next
  case (9 lb version tk req b)
  then show ?case by (auto simp: events_only_def mcp_begin_def Let_def split: sum.splits if_splits)
next
  case (11 lb version tk t rid name args b)
  then show ?case
    by (auto simp: events_only_def call_section_def tape_named_effects_def Let_def
        split: option.splits sum.splits prod.splits if_splits)
qed (auto simp: events_only_def split: prod.splits)

text \<open>What a step adds to the books on one side it adds on the other.\<close>

lemma step_books:
  assumes "job_step lb version tk j b = (j', b')" and "\<not> finished j" and "a = ActStep i tk j j'"
  shows "mset (decided_by a) + owed owed_event j = mset (map snd (taped_by a)) + owed owed_event j'"
    and "mset (map (line_of lb) (taped_by a)) + owed owed_file j = mset (map snd (filed_by a)) + owed owed_file j'"
    and "mset (map (line_of lb) (taped_by a)) + owed owed_ring j = mset (rung_by a) + owed owed_ring j'"
proof -
  have "mset (decided_by a) + owed owed_event j = mset (map snd (taped_by a)) + owed owed_event j'
    \<and> mset (map (line_of lb) (taped_by a)) + owed owed_file j = mset (map snd (filed_by a)) + owed owed_file j'
    \<and> mset (map (line_of lb) (taped_by a)) + owed owed_ring j = mset (rung_by a) + owed owed_ring j'"
  proof (cases "\<exists>es r. j = JAfter es r")
    case True
    with assms(2) obtain e es r where j: "j = JAfter (e # es) r" by (auto simp: finished_iff neq_Nil_conv)
    with assms(1,3) show ?thesis
      by (cases e) (auto simp: decided_by_def taped_by_def filed_by_def rung_by_def performed_def line_of_def Let_def)
  next
    case False
    then have none: "taped_by a = []" "filed_by a = []" "rung_by a = []" "owed g j = {#}" for g :: "effect \<Rightarrow> 'x multiset"
      using assms(3) by (cases j; simp add: taped_by_def filed_by_def rung_by_def performed_def)+
    have own: "owed owed_event j = {#}" "owed owed_file j = {#}" "owed owed_ring j = {#}"
      using False by (cases j; simp)+
    have dec: "mset (decided_by a) = owed owed_event j'"
      using False assms(3) by (cases j; cases j') (simp_all add: decided_by_def mset_events)
    have "owed owed_file j' = {#} \<and> owed owed_ring j' = {#}"
    proof (cases "\<exists>es r. j' = JAfter es r")
      case True
      with assms(1) False sections_owe [of lb version tk j b] show ?thesis by (auto simp: events_only_def)
    next
      case False
      then show ?thesis by (cases j') auto
    qed
    with none(1-3) own dec show ?thesis by simp
  qed
  then show "mset (decided_by a) + owed owed_event j = mset (map snd (taped_by a)) + owed owed_event j'"
    and "mset (map (line_of lb) (taped_by a)) + owed owed_file j = mset (map snd (filed_by a)) + owed owed_file j'"
    and "mset (map (line_of lb) (taped_by a)) + owed owed_ring j = mset (rung_by a) + owed owed_ring j'"
    by blast+
qed

section \<open>The tape itself\<close>

text \<open>The audit log is changed by the file and ring writes of the trace and by nothing else.\<close>

fun apply_effect :: "tick \<times> effect \<Rightarrow> audit_log \<Rightarrow> audit_log" where
  "apply_effect (tk, EFile line) log = audit_file (tk_io tk) line log"
| "apply_effect (tk, ERing line) log = audit_ring line log"
| "apply_effect _ log = log"

lemma job_step_audit:
  assumes "job_step lb version tk j b = (j', b')" and "\<not> finished j"
  shows "bk_audit b' = (case performed (ActStep i tk j j') of None \<Rightarrow> bk_audit b | Some x \<Rightarrow> apply_effect x (bk_audit b))"
  using assms
proof (induction lb version tk j b rule: job_step.induct)
  case (13 lb version tk e es r b)
  then show ?case by (cases e) (auto simp: performed_def Let_def)
qed (auto simp: performed_def revoke_section_def split: prod.splits dest: lifecycle_section_frame
    call_section_frame slot_section_frame apply_section_frame submit_section_frame issue_nonce_frame)

text \<open>A log whose locks are not poisoned and whose disk takes every byte.\<close>

definition tape_holds :: "string option \<Rightarrow> string list \<Rightarrow> ((nat option \<times> nat option) \<times> string) list \<Rightarrow> string list \<Rightarrow>
    audit_log \<Rightarrow> bool" where
  "tape_holds c0 old written pushed log \<longleftrightarrow>
     al_file log = map_option (\<lambda>c. Mutex False (c @ concat (map (\<lambda>w. snd w @ [CHR 0x0A]) written))) c0
     \<and> al_recent log = Mutex False (drop (length (old @ pushed) - recent_cap) (old @ pushed))"

definition healthy :: "((nat option \<times> nat option) \<times> string) list \<Rightarrow> bool" where
  "healthy written \<longleftrightarrow> (\<forall>w \<in> set written. fst w = (None, None))"

lemma push_capped_drop:
  "push_capped cap (drop (length xs - cap) xs) x = drop (length (xs @ [x]) - cap) (xs @ [x])"
  by (cases "cap \<le> length xs") (auto simp: push_capped_def pop_excess_drop Suc_diff_le)

lemma tape_holds_file:
  "tape_holds c0 old written pushed log \<Longrightarrow>
     tape_holds c0 old (written @ [((None, None), line)]) pushed (audit_file (None, None) line log)"
  by (cases c0) (auto simp: tape_holds_def audit_file_def)

lemma tape_holds_ring:
  "tape_holds c0 old written pushed log \<Longrightarrow>
     tape_holds c0 old written (pushed @ [line]) (audit_ring line log)"
  using push_capped_drop [of recent_cap "old @ pushed" line]
  by (auto simp: tape_holds_def audit_ring_def)

lemma step_tape:
  assumes "tape_holds c0 old (filed acts) (rung acts) log" and "healthy (filed (acts @ [a]))"
  shows "tape_holds c0 old (filed (acts @ [a])) (rung (acts @ [a]))
    (case performed a of None \<Rightarrow> log | Some x \<Rightarrow> apply_effect x log)"
proof (cases "performed a")
  case None
  with assms(1) show ?thesis by (simp add: filed_by_def rung_by_def)
next
  case (Some x)
  obtain tk e where x: "x = (tk, e)" by force
  with Some assms show ?thesis
    using tape_holds_file [OF assms(1)] tape_holds_ring [OF assms(1)]
    by (cases e) (auto simp: filed_by_def rung_by_def healthy_def)
qed

section \<open>Every execution\<close>

definition books_balance :: "('k, 'c, 's) libs \<Rightarrow> act list \<Rightarrow> job list \<Rightarrow> bool" where
  "books_balance lb acts js \<longleftrightarrow>
     mset (decided acts) = mset (map snd (taped acts)) + owed_all owed_event js
     \<and> mset (map (line_of lb) (taped acts)) = mset (map snd (filed acts)) + owed_all owed_file js
     \<and> mset (map (line_of lb) (taped acts)) = mset (rung acts) + owed_all owed_ring js"

lemma balance_step:
  fixes D :: "'x multiset"
  assumes "D = P + B" and "D' = D + d" and "P' = P + p" and "d + x = p + y" and "B' + x = B + y"
  shows "D' = P' + B'"
proof -
  have "D' + x = P + B + (d + x)" using assms(1,2) by simp
  also have "\<dots> = P' + B' + x" using assms(3-5) by (simp add: ac_simps)
  finally show ?thesis by simp
qed

lemma conc_run_books:
  assumes "conc_run lb version fe sys0 acts sys" and "sy_jobs sys0 = []"
  shows "books_balance lb acts (sy_jobs sys)"
  using assms
proof (induction rule: conc_run.induct)
  case conc_start
  then show ?case by (simp add: books_balance_def owed_all_def)
next
  case (conc_more acts sys a sys')
  from conc_more(2) show ?case
  proof (cases rule: conc_step_cases)
    case (work i tk j' b')
    note one = step_books [OF work(4,2,5)]
    have js: "sy_jobs sys' = (sy_jobs sys)[i := j']" using work(6) by simp
    show ?thesis
      unfolding books_balance_def js
    proof (intro conjI)
      show "mset (decided (acts @ [a])) = mset (map snd (taped (acts @ [a]))) + owed_all owed_event ((sy_jobs sys)[i := j'])"
        by (rule balance_step [OF _ _ _ one(1) owed_all_step [OF work(1)]])
          (use conc_more work(6) in \<open>auto simp: books_balance_def\<close>)
      show "mset (map (line_of lb) (taped (acts @ [a]))) =
          mset (map snd (filed (acts @ [a]))) + owed_all owed_file ((sy_jobs sys)[i := j'])"
        by (rule balance_step [OF _ _ _ one(2) owed_all_step [OF work(1)]])
          (use conc_more work(6) in \<open>auto simp: books_balance_def\<close>)
      show "mset (map (line_of lb) (taped (acts @ [a]))) = mset (rung (acts @ [a])) + owed_all owed_ring ((sy_jobs sys)[i := j'])"
        by (rule balance_step [OF _ _ _ one(3) owed_all_step [OF work(1)]])
          (use conc_more work(6) in \<open>auto simp: books_balance_def\<close>)
    qed
  next
    case (outside js nt)
    have js: "sy_jobs sys' = sy_jobs sys @ js" using outside(2) by simp
    have same: "decided (acts @ [a]) = decided acts" "taped (acts @ [a]) = taped acts"
      "filed (acts @ [a]) = filed acts" "rung (acts @ [a]) = rung acts"
      by (simp_all add: trace_outside [OF outside(1)])
    have "books_balance lb acts (sy_jobs sys)" using conc_more by blast
    then show ?thesis unfolding books_balance_def same js owed_all_accepted [OF outside(4)] .
  qed
qed

lemma conc_run_tape:
  assumes "conc_run lb version fe sys0 acts sys" and "healthy (filed acts)"
    and "tape_holds c0 old [] [] (bk_audit (sy_broker sys0))"
  shows "tape_holds c0 old (filed acts) (rung acts) (bk_audit (sy_broker sys))"
  using assms
proof (induction rule: conc_run.induct)
  case conc_start
  then show ?case by simp
next
  case (conc_more acts sys a sys')
  then have ih: "tape_holds c0 old (filed acts) (rung acts) (bk_audit (sy_broker sys))"
    by (simp add: healthy_def)
  from conc_more(2) show ?case
  proof (cases rule: conc_step_cases)
    case (work i tk j' b')
    with step_tape [OF ih conc_more(4)] job_step_audit [OF work(4,2), of i] show ?thesis by simp
  next
    case (outside js nt)
    with ih show ?thesis by simp
  qed
qed

end
