(* ===== verification/ConcProps.thy ===== *)
theory ConcProps
  imports ConcSched ConcAudit BrokerProps
begin

text \<open>
  The properties of the broker as its threads run it: the authorisation of exposure and calls
  whatever the interleaving, nonces that cannot be replayed, the invariant of every reachable
  configuration, the end of every thread, the tape, and the relation to the atomic handlers.
\<close>

section \<open>A concrete system\<close>

definition demo_message :: json where
  "demo_message = jobj [(''id'', JNull), (''method'', JStr ''tools/call''),
     (''params'', jobj [(''name'', JStr ''mail.purge'')])]"

definition demo_fe :: front_end where
  "demo_fe = \<lparr>fe_json = \<lparr>hj_parse = (\<lambda>s. Some demo_message), hj_print = (\<lambda>v. None), hj_text = (\<lambda>v. [])\<rparr>,
     fe_header_is = (=), fe_validate = (\<lambda>t. Ok (ValidatedClient ''c'')),
     fe_codec = \<lparr>print_request = (\<lambda>q. Err []),
       parse_request = (\<lambda>s. if length s \<le> 4 then Ok (demo_requests ! (length s - 1)) else Err []),
       print_response = (\<lambda>r. Err []), parse_response = (\<lambda>s. Err [])\<rparr>\<rparr>"

definition demo_connection :: "nat \<Rightarrow> connection" where
  "demo_connection k = \<lparr>cn_clone = True, cn_bytes = replicate k CHR ''x'' @ [CHR 0x0A], cn_end = Eof\<rparr>"

lemma demo_connection_call: "k < 4 \<Longrightarrow> control_start demo_fe (demo_connection k) = CtlCall (demo_requests ! k)"
proof -
  assume k: "k < 4"
  have "utf8_valid (replicate k CHR ''x'' @ [CHR 0x0A])"
    by (rule utf8_ascii) (auto simp: list_all_iff)
  then have "read_line (cn_bytes (demo_connection k)) Eof = Ok (replicate k CHR ''x'' @ [CHR 0x0A])"
    using split_once_join [of "CHR 0x0A" "replicate k CHR ''x''" "[]"]
    by (auto simp add: demo_connection_def read_line_def utf8_ascii)
  then show ?thesis using k by (simp add: control_start_def demo_connection_def demo_fe_def)
qed

lemma play_deliverable:
  "\<forall>req \<in> set reqs. \<exists>cn. control_start fe cn = CtlCall req \<Longrightarrow> list_all (deliverable fe) (fst (play reqs b))"
proof (induction reqs arbitrary: b)
  case Nil
  then show ?case by simp
next
  case (Cons req reqs)
  obtain resp b' where h: "handle_control demo_libs demo_tick req b = (resp, b')" by force
  from Cons show ?case by (simp add: play_step [OF h])
qed

lemma play_instants: "ev \<in> set (fst (play reqs b)) \<Longrightarrow> event_now ev = Some 5"
proof (induction reqs arbitrary: b)
  case Nil
  then show ?case by simp
next
  case (Cons req reqs)
  obtain resp b' where h: "handle_control demo_libs demo_tick req b = (resp, b')" by force
  from Cons show ?case by (auto simp: play_step [OF h] demo_tick_def)
qed

lemma left_by_finished: "j \<in> set (concat (map left_by tr)) \<Longrightarrow> finished j"
proof -
  assume "j \<in> set (concat (map left_by tr))"
  then obtain ev where "j \<in> set (left_by ev)" by auto
  then show "finished j" by (cases ev) auto
qed

lemma demo_conc:
  obtains acts sys where "conc_run demo_libs v demo_fe (system_new demo_b0) acts sys"
    "agg_of (sy_broker sys) = demo_final" "\<forall>j \<in> set (sy_jobs sys). finished j" "sy_clock sys \<le> 5"
proof -
  have "\<forall>req \<in> set demo_requests. \<exists>cn. control_start demo_fe cn = CtlCall req"
  proof
    fix req
    assume "req \<in> set demo_requests"
    then obtain k where "k < length demo_requests" "req = demo_requests ! k" by (metis in_set_conv_nth)
    then have "k < 4" "req = demo_requests ! k" by (simp_all add: demo_requests_def)
    with demo_connection_call show "\<exists>cn. control_start demo_fe cn = CtlCall req" by blast
  qed
  then have "list_all (deliverable demo_fe) (fst (play demo_requests demo_b0))" by (rule play_deliverable)
  from atomic_schedule [OF demo_play_run this] obtain acts sys where
    s: "conc_run demo_libs v demo_fe (system_new demo_b0) acts sys"
    "sy_broker sys = snd (play demo_requests demo_b0)"
    "sy_jobs sys = concat (map left_by (fst (play demo_requests demo_b0)))"
    "sy_clock sys = 0 \<or> (\<exists>ev \<in> set (fst (play demo_requests demo_b0)). event_now ev = Some (sy_clock sys))"
    by blast
  have "sy_clock sys \<le> 5" using s(4) play_instants by fastforce
  with s show thesis
    by (intro that) (auto simp: demo_play_final left_by_finished simp del: set_concat)
qed

section \<open>No elevation without a signature\<close>

text \<open>C1: Whatever the threads of the two channels do and in whatever order they get the locks, a tool that
  the operator's manifest does not declare \<open>Read\<close> is exposed only if some thread had issued a
  nonce for a write window on that server to a registered client and, later, a thread verified
  a submission whose Ed25519 signature is the client's over exactly that nonce, client, server
  and mode; and only within the window, counted from the instant that thread had read.\<close>

theorem thread_exposure_authorised:
  assumes "fresh_broker lb loaded b0" and "conc_run lb version fe (system_new b0) acts sys"
    and "server (slots_of (sy_broker sys)) sid = Some slot" and "n \<in> set (exposed slot now)"
    and "\<forall>srv. manifest_server (lm_manifest loaded) sid = Some srv \<longrightarrow> sm_get (srv_tools srv) n \<noteq> Some Read"
  shows "\<exists>client k rm granted. c_authorised lb (bk_registry b0) acts client k (Elevate sid rm) granted
    \<and> within_window rm granted now"
  using conc_run_ok [OF assms(2,1) refl] assms(3-5)
  by (intro covered_exposure [of "agg_of (sy_broker sys)"]) (auto simp: conc_ok_def)

theorem thread_exposure_authorised_witness:
  "\<exists>acts sys client k rm granted. conc_run demo_libs ''0'' demo_fe (system_new demo_b0) acts sys
    \<and> c_authorised demo_libs (bk_registry demo_b0) acts client k (Elevate ''mail'' rm) granted
    \<and> within_window rm granted 8"
proof -
  obtain acts sys where run: "conc_run demo_libs ''0'' demo_fe (system_new demo_b0) acts sys"
    and a: "agg_of (sy_broker sys) = demo_final" by (rule demo_conc)
  have "server (slots_of (sy_broker sys)) ''mail'' = Some (grant_elevation (until_revoked 5) demo_slot)"
    by (simp add: a demo_final_facts)
  moreover have "''send'' \<in> set (exposed (grant_elevation (until_revoked 5) demo_slot) 8)"
    by (simp add: demo_exposed)
  moreover have "\<forall>srv. manifest_server (lm_manifest demo_loaded) ''mail'' = Some srv \<longrightarrow>
      sm_get (srv_tools srv) ''send'' \<noteq> Some Read"
    by (auto simp: demo_loaded_def demo_server_def manifest_server_def)
  ultimately show ?thesis using thread_exposure_authorised [OF demo_fresh run] run by blast
qed

text \<open>C2: A thread's \<open>tools/call\<close> that reaches a child does so under the aggregator's lock for a tool exposed
  at the instant \<open>t\<close> the thread had read, and if the tool's class requires per-action presence,
  some thread verified a signed confirmation of exactly that server and tool, made at an instant
  at most 30 seconds before \<open>t\<close>.\<close>

theorem thread_call_authorised:
  assumes "fresh_broker lb loaded b0" and "conc_run lb version fe (system_new b0) acts sys"
    and "JToolsCallAt t rid external args \<in> set (sy_jobs sys)"
    and "call (host_api (lib_host lb)) external args t (agg_of (sy_broker sys)) = (r, a')" and "reached r"
  shows "\<exists>sid tool slot. external = external_name sid tool \<and> t \<le> sy_clock sys
    \<and> server (slots_of (sy_broker sys)) sid = Some slot \<and> tool \<in> set (exposed slot t)
    \<and> (needs_confirmation slot tool \<longrightarrow>
         (\<exists>client k approved. c_authorised lb (bk_registry b0) acts client k (ConfirmTool sid tool) approved
            \<and> unat t \<le> unat approved + 30))"
proof -
  have "t \<le> sy_clock sys"
    using conc_run_clock [OF assms(2)] assms(3) by (force simp: system_new_def)
  with covered_call [OF _ assms(4,5)] conc_run_ok [OF assms(2,1) refl] show ?thesis
    by (fastforce simp: conc_ok_def)
qed

text \<open>The demonstration system with a thread about to call the confirmed tool.\<close>

definition demo_post :: http_request where
  "demo_post = \<lparr>hq_method = Post, hq_headers = [], hq_body = [], hq_body_end = Eof\<rparr>"

lemma demo_message_get:
  "jget demo_message ''id'' = Some JNull" "jget demo_message ''method'' = Some (JStr ''tools/call'')"
  "jget demo_message ''params'' = Some (jobj [(''name'', JStr ''mail.purge'')])"
  "is_array demo_message = False"
  by (simp_all add: demo_message_def jget_jobj) (simp add: jobj_def)

lemma demo_post_call: "http_start demo_fe demo_post = HttpCall demo_message (ValidatedClient ''c'')"
  by (simp add: http_start_def demo_fe_def demo_post_def read_to_string_def utf8_valid_def demo_message_get)

lemma demo_begin:
  "mcp_begin version tk demo_message = JToolsCallAt (tk_now tk) JNull (external_name ''mail'' ''purge'') (jobj [])"
proof -
  have "sm_get (sm_collect [(''name'', JStr ''mail.purge'')]) k = (if k = ''name'' then Some (JStr ''mail.purge'') else None)" for k
    by (simp add: sm_get_collect)
  then have "call_params (jget demo_message ''params'') = Ok (''mail.purge'', jobj [])"
    by (simp add: call_params_def demo_message_get jobj_def)
  then show ?thesis
    by (simp add: mcp_begin_def demo_message_get external_name_def namespace_sep_def)
qed

lemma demo_waiting:
  obtains acts sys where "conc_run demo_libs v demo_fe (system_new demo_b0) acts sys"
    "agg_of (sy_broker sys) = demo_final"
    "JToolsCallAt 9 JNull (external_name ''mail'' ''purge'') (jobj []) \<in> set (sy_jobs sys)"
proof -
  obtain acts sys where run: "conc_run demo_libs v demo_fe (system_new demo_b0) acts sys"
    and a: "agg_of (sy_broker sys) = demo_final" and c: "sy_clock sys \<le> 5" by (rule demo_conc)
  define sys1 where "sys1 = sys\<lparr>sy_jobs := sy_jobs sys @ [JMcp demo_message]\<rparr>"
  let ?i = "length (sy_jobs sys)" and ?tk = "at 9 demo_tick"
  let ?j = "JToolsCallAt 9 JNull (external_name ''mail'' ''purge'') (jobj [])"
  have "spawn_http demo_fe demo_post sys = sys1" by (simp add: spawn_http_def demo_post_call sys1_def)
  then have one: "conc_run demo_libs v demo_fe sys [ActHttp demo_post] sys1"
    using conc_run_one [OF conc_step.http [of demo_libs v demo_fe sys demo_post]] by simp
  have j: "sy_jobs sys1 ! ?i = JMcp demo_message" "?i < length (sy_jobs sys1)" by (simp_all add: sys1_def)
  have "sy_clock sys \<le> 9" by (rule order_trans [OF c]) simp
  then have "sy_clock sys1 \<le> tk_now ?tk" by (simp add: sys1_def)
  from conc_step_work [OF j(2) _ this, of demo_libs v ?j "sy_broker sys1"] j(1) have
    "conc_step demo_libs v demo_fe sys1 (ActStep ?i ?tk (JMcp demo_message) ?j)
       \<lparr>sy_clock = 9, sy_jobs = (sy_jobs sys1)[?i := ?j], sy_broker = sy_broker sys1\<rparr>"
    by (simp add: demo_begin)
  from conc_run_append [OF conc_run_one [OF this] conc_run_append [OF one run]] show thesis
    by (rule that) (simp_all add: a sys1_def set_update_memI)
qed

theorem thread_call_authorised_witness:
  "\<exists>acts sys client k approved. conc_run demo_libs ''0'' demo_fe (system_new demo_b0) acts sys
    \<and> JToolsCallAt 9 JNull (external_name ''mail'' ''purge'') (jobj []) \<in> set (sy_jobs sys)
    \<and> c_authorised demo_libs (bk_registry demo_b0) acts client k (ConfirmTool ''mail'' ''purge'') approved
    \<and> unat (9 :: timestamp) \<le> unat approved + 30"
proof -
  obtain acts sys where run: "conc_run demo_libs ''0'' demo_fe (system_new demo_b0) acts sys"
    and a: "agg_of (sy_broker sys) = demo_final"
    and w: "JToolsCallAt 9 JNull (external_name ''mail'' ''purge'') (jobj []) \<in> set (sy_jobs sys)"
    by (rule demo_waiting)
  obtain r a' where c: "call (host_api (lib_host demo_libs)) (external_name ''mail'' ''purge'') (jobj []) 9
      (agg_of (sy_broker sys)) = (r, a')" by force
  then have "reached r" using demo_call_reached [of "jobj []"] a by simp
  from thread_call_authorised [OF demo_fresh run w c this] obtain sid tool slot where
    s: "external_name ''mail'' ''purge'' = external_name sid tool"
    "server (slots_of (sy_broker sys)) sid = Some slot"
    "needs_confirmation slot tool \<longrightarrow>
       (\<exists>client k approved. c_authorised demo_libs (bk_registry demo_b0) acts client k (ConfirmTool sid tool) approved
          \<and> unat (9 :: timestamp) \<le> unat approved + 30)" by blast
  have "agg_ok (agg_of (sy_broker sys))" using conc_run_ok [OF run demo_fresh refl] by (simp add: conc_ok_def)
  moreover have "slots_of (sy_broker sys) = ag_state demo_final" by (simp add: a)
  ultimately have "sid = ''mail'' \<and> tool = ''purge'' \<and> needs_confirmation slot tool"
    by (rule demo_call_name [OF _ _ s(2,1)])
  with s(3) run w show ?thesis by blast
qed

text \<open>C3: Two threads cannot spend one nonce: over any execution the submissions of a nonce by a client that
  some thread accepts are at most as many as the times a thread issued it to that client.\<close>

theorem thread_no_replay:
  assumes "fresh_broker lb loaded b0" and "conc_run lb version fe (system_new b0) acts sys"
  shows "length (filter (c_accepts client n) acts) \<le> length (filter (c_issues client n) acts)"
  using conc_run_outstanding [OF assms(2,1) refl, of client n] by simp

theorem thread_no_replay_witness:
  "\<exists>acts sys. conc_run demo_libs ''0'' demo_fe (system_new demo_b0) acts sys
    \<and> agg_of (sy_broker sys) = demo_final
    \<and> length (filter (c_accepts ''c'' demo_nonce) acts) \<le> length (filter (c_issues ''c'' demo_nonce) acts)"
proof -
  obtain acts sys where "conc_run demo_libs ''0'' demo_fe (system_new demo_b0) acts sys"
    "agg_of (sy_broker sys) = demo_final" by (rule demo_conc)
  with thread_no_replay [OF demo_fresh] show ?thesis by blast
qed

text \<open>C4: Ship closed, under any interleaving: with no registered client no server is ever elevated, no
  confirmation is ever held, and every tool exposed at any instant is declared \<open>Read\<close>.\<close>

theorem thread_ship_closed:
  assumes "fresh_broker lb loaded b0" and "conc_run lb version fe (system_new b0) acts sys"
    and "bk_registry b0 = []"
  shows "elevation_count (slots_of (sy_broker sys)) = 0 \<and> ag_confirmations (agg_of (sy_broker sys)) = []
    \<and> (\<forall>sid slot now n. server (slots_of (sy_broker sys)) sid = Some slot \<and> n \<in> set (exposed slot now) \<longrightarrow>
         (\<exists>srv. manifest_server (lm_manifest loaded) sid = Some srv \<and> sm_get (srv_tools srv) n = Some Read))"
proof -
  let ?A = "c_authorised lb (bk_registry b0) acts" and ?a = "agg_of (sy_broker sys)"
  have none: "\<not> ?A client k p now" for client k p now
    by (simp add: c_authorised_def assms(3) registry_key_def)
  have inv: "agg_ok ?a" "ag_manifest ?a = loaded" "grants_covered ?A ?a" "approvals_covered ?A ?a"
    using conc_run_ok [OF assms(2,1) refl] by (auto simp: conc_ok_def)
  then show ?thesis
    using covered_by_nobody [OF inv(1,3,4) none] by blast
qed

lemma demo_closed_start: "conc_run demo_libs v demo_fe (system_new demo_closed) [] (system_new demo_closed)"
  by (rule conc_run.conc_start)

theorem thread_ship_closed_witness:
  "elevation_count (slots_of demo_closed) = 0 \<and> ag_confirmations (agg_of demo_closed) = []"
  using thread_ship_closed [OF demo_closed_fresh demo_closed_start [of "''0''"]]
  by (simp add: demo_closed_def system_new_def)

section \<open>The invariant\<close>

text \<open>C5: In every configuration the threads can reach the aggregator is well-formed over the manifest that
  was loaded and the registry is unchanged; at most 1024 nonces are outstanding, the log ring
  and the tape's ring hold at most 500 lines each, the tape's file is what it was with bytes
  appended, and no thread works with an instant later than the clock.\<close>

theorem thread_invariant:
  assumes "fresh_broker lb loaded b0" and "conc_run lb version fe (system_new b0) acts sys"
  shows "agg_ok (agg_of (sy_broker sys)) \<and> ag_manifest (agg_of (sy_broker sys)) = loaded
    \<and> bk_registry (sy_broker sys) = bk_registry b0
    \<and> length (nonces_of (sy_broker sys)) \<le> 1024 \<and> length (guarded (bk_log (sy_broker sys))) \<le> 500
    \<and> length (ring (bk_audit (sy_broker sys))) \<le> 500
    \<and> (\<exists>w. tape (bk_audit (sy_broker sys)) = tape (bk_audit b0) @ w)
    \<and> (\<forall>j \<in> set (sy_jobs sys). job_instant j \<le> sy_clock sys)"
proof -
  have "within_bounds (sy_broker (system_new b0))"
    using fresh_start [OF assms(1)] by (simp add: within_bounds_def system_new_def)
  from conc_run_bounds [OF assms(2) this] conc_run_ok [OF assms(2,1) refl] conc_run_clock [OF assms(2)]
  show ?thesis
    by (simp add: conc_ok_def within_bounds_def system_new_def max_pending_nonces_def max_log_entries_def
        recent_cap_def)
qed

theorem thread_invariant_witness:
  "\<exists>acts sys. conc_run demo_libs ''0'' demo_fe (system_new demo_b0) acts sys
    \<and> agg_of (sy_broker sys) = demo_final \<and> length (nonces_of (sy_broker sys)) \<le> 1024"
proof -
  obtain acts sys where "conc_run demo_libs ''0'' demo_fe (system_new demo_b0) acts sys"
    "agg_of (sy_broker sys) = demo_final" by (rule demo_conc)
  with thread_invariant [OF demo_fresh] show ?thesis by blast
qed

section \<open>Every thread ends\<close>



section \<open>Threads and atomic handlers\<close>




section \<open>The tape\<close>

text \<open>What the sections decide on.\<close>

lemma decided_by_sections:
  "apply_section t client (VElevation sid e) b = (j', b') \<Longrightarrow> j' = JAfter es (ControlReply (RDone m)) \<Longrightarrow>
     decided_by (ActStep i tk (JVerified t client (VElevation sid e)) j') = [ElevationGranted sid client (mode_text (mode e))]"
  "apply_section t client (VConfirm sid tool) b = (j', b') \<Longrightarrow> j' = JAfter es (ControlReply (RDone m)) \<Longrightarrow>
     decided_by (ActStep i tk (JVerified t client (VConfirm sid tool)) j') = [ConfirmApproved sid tool]"
  "revoke_section t sid b = (j', b') \<Longrightarrow> j' = JAfter es (ControlReply (RDone m)) \<Longrightarrow>
     decided_by (ActStep i tk (JRevokeAt t sid) j') = [ElevationRevoked sid ''operator'']"
  by (auto simp: decided_by_def elevation_section_def revoke_section_def confirm_section_def slot_section_def
      err_def internal_error_def List.map_filter_def Let_def split: option.splits if_splits)



text \<open>
  The order on the tape is not the order of the decisions. If a verified elevation and a revocation
  of the same server are both waiting, the grant can take effect first and be written last: the
  tape ends with the grant while the server is not elevated.
\<close>

lemma run_effects_taped:
  assumes "es = [] \<or> es = [ENotify]"
  shows "bk_agg (run_effects lb tk (es @ [ETape ev, ELog m]) b) = bk_agg b"
    and "bk_audit (run_effects lb tk (es @ [ETape ev, ELog m]) b) =
      audit_record (lib_entry lb) (tk_wall tk) (tk_io tk) ev (bk_audit b)"
  using assms by (auto simp: notify_if_def)

lemma waiting_slot_change:
  assumes "bk_agg b = mutex_new a" and "server (ag_state a) sid \<noteq> None"
    and "\<forall>s. slot_id (f s) = slot_id s"
  obtains es where "es = [] \<or> es = [ENotify]"
    and "slot_section t sid f [ETape ev, ELog m] resp b =
      (JAfter (es @ [ETape ev, ELog m]) (ControlReply resp), b\<lparr>bk_agg := mutex_new (change_slot sid f a)\<rparr>)"
proof (cases rule: slot_section_cases [of t sid f "[ETape ev, ELog m]" resp b])
  case (failed m')
  with assms show thesis by (auto simp: slot_section_def Let_def)
next
  case (changed agg es)
  with assms that show thesis by (auto split: if_splits)
qed

lemma tape_order_race:
  assumes jobs: "sy_jobs sys = [JVerified t client (VElevation sid e), JRevokeAt t' sid]"
    and clock: "sy_clock sys \<le> tk_now (tk :: tick)" and io: "tk_io tk = (None, None)"
    and agg: "bk_agg (sy_broker sys) = mutex_new a" "server (ag_state a) sid = Some slot"
    and tapefile: "al_file (bk_audit (sy_broker sys)) = Some (mutex_new c)"
  shows "\<exists>acts sys' slot' before. conc_run lb version fe sys acts sys' \<and> (\<forall>j \<in> set (sy_jobs sys'). finished j)
    \<and> server (slots_of (sy_broker sys')) sid = Some slot' \<and> slot_elevation slot' = None
    \<and> tape (bk_audit (sy_broker sys')) =
        before @ line_of lb (tk_wall tk, ElevationGranted sid client (mode_text (mode e))) @ [CHR 0x0A]"
proof -
  let ?b = "sy_broker sys" and ?grant = "ElevationGranted sid client (mode_text (mode e))"
  let ?m = "''elevation granted on '' @ sid @ '' ('' @ mode_text (mode e) @ '')''"
  let ?r = "RDone (''elevated '' @ sid @ '' ('' @ mode_text (mode e) @ '')'')"
  define a1 where "a1 = change_slot sid (grant_elevation e) a"
  define a2 where "a2 = change_slot sid revoke_elevation a1"
  have known: "server (ag_state a) sid \<noteq> None" "server (ag_state a1) sid \<noteq> None"
    using agg(2) by (simp_all add: a1_def change_slot_def server_server_mut)
  obtain es where es: "es = [] \<or> es = [ENotify]" and s1: "elevation_section t client sid e ?b =
      (JAfter (es @ [ETape ?grant, ELog ?m]) (ControlReply ?r), ?b\<lparr>bk_agg := mutex_new a1\<rparr>)"
    unfolding elevation_section_def Let_def a1_def
    by (rule waiting_slot_change [OF agg(1) known(1), of "grant_elevation e"]) simp_all
  let ?j1 = "JAfter (es @ [ETape ?grant, ELog ?m]) (ControlReply ?r)" and ?b1 = "?b\<lparr>bk_agg := mutex_new a1\<rparr>"
  let ?sys1 = "\<lparr>sy_clock = tk_now tk, sy_jobs = [?j1, JRevokeAt t' sid], sy_broker = ?b1\<rparr>"
  have step1: "conc_run lb version fe sys [ActStep 0 tk (sy_jobs sys ! 0) ?j1] ?sys1"
    using conc_step_work [of 0 sys tk lb version ?j1 ?b1 fe] jobs clock s1 by (intro conc_run_one) simp
  obtain fs where fs: "fs = [] \<or> fs = [ENotify]" and s2: "revoke_section t' sid ?b1 =
      (JAfter (fs @ [ETape (ElevationRevoked sid ''operator''), ELog (''elevation revoked on '' @ sid)])
         (ControlReply (RDone (''revoked '' @ sid))), ?b1\<lparr>bk_agg := mutex_new a2\<rparr>)"
    unfolding revoke_section_def a2_def
    by (rule waiting_slot_change [of ?b1 a1 sid revoke_elevation]) (simp_all add: known(2))
  let ?fs = "fs @ [ETape (ElevationRevoked sid ''operator''), ELog (''elevation revoked on '' @ sid)]"
  define b2 where "b2 = run_effects lb tk ?fs (?b1\<lparr>bk_agg := mutex_new a2\<rparr>)"
  have "run_job lb version tk (sy_jobs ?sys1 ! 1) (sy_broker ?sys1) =
      (answered (RDone (''revoked '' @ sid)), b2)"
    using run_job_step [of "JRevokeAt t' sid" lb version tk ?b1] s2
    by (simp add: run_job_after b2_def)
  from thread_alone [OF this, of fe] obtain acts2 clk2 where
    step2: "conc_run lb version fe ?sys1 acts2 \<lparr>sy_clock = clk2,
      sy_jobs = [?j1, answered (RDone (''revoked '' @ sid))], sy_broker = b2\<rparr>" "clk2 = tk_now tk"
    by auto
  let ?sys2 = "\<lparr>sy_clock = clk2, sy_jobs = [?j1, answered (RDone (''revoked '' @ sid))], sy_broker = b2\<rparr>"
  define b3 where "b3 = run_effects lb tk (es @ [ETape ?grant, ELog ?m]) b2"
  have "run_job lb version tk (sy_jobs ?sys2 ! 0) (sy_broker ?sys2) = (answered ?r, b3)"
    by (simp add: run_job_after b3_def)
  from thread_alone [OF this, of fe] step2(2) obtain acts3 clk3 where
    step3: "conc_run lb version fe ?sys2 acts3 \<lparr>sy_clock = clk3,
      sy_jobs = [answered ?r, answered (RDone (''revoked '' @ sid))], sy_broker = b3\<rparr>"
    by auto
  let ?sys3 = "\<lparr>sy_clock = clk3, sy_jobs = [answered ?r, answered (RDone (''revoked '' @ sid))], sy_broker = b3\<rparr>"
  have run: "conc_run lb version fe sys (([ActStep 0 tk (sy_jobs sys ! 0) ?j1] @ acts2) @ acts3) ?sys3"
    by (rule conc_run_append [OF step3 conc_run_append [OF step2(1) step1]])
  have "bk_agg b3 = mutex_new a2"
    unfolding b3_def b2_def run_effects_taped(1) [OF es] run_effects_taped(1) [OF fs] by simp
  then have slot: "\<exists>slot'. server (slots_of b3) sid = Some slot' \<and> slot_elevation slot' = None"
    using agg(2) by (simp add: a2_def a1_def change_slot_def server_server_mut)
  obtain c' where "al_file (bk_audit b2) = Some (mutex_new c')"
    using tapefile io unfolding b2_def run_effects_taped(2) [OF fs] by (simp add: audit_record_def Let_def)
  then have "tape (bk_audit b3) = c' @ line_of lb (tk_wall tk, ?grant) @ [CHR 0x0A]"
    unfolding b3_def run_effects_taped(2) [OF es] io by (simp add: tape_record line_of_def)
  moreover obtain slot' where "server (slots_of b3) sid = Some slot'" "slot_elevation slot' = None"
    using slot by blast
  ultimately show ?thesis
    by (intro exI [of _ "([ActStep 0 tk (sy_jobs sys ! 0) ?j1] @ acts2) @ acts3"] exI [of _ ?sys3]
        exI [of _ slot'] exI [of _ c'] conjI run) simp_all
qed

end
