(* ===== verification/Clock.thy ===== *)
theory Clock
  imports AggregatorFacts Elevation
begin

text \<open>
  \<open>crates/broker/src/clock.rs\<close>: the one clock both handlers share, seconds since its creation.
  An \<open>Instant\<close> of the operating system's monotonic clock is a number of nanoseconds; \<open>elapsed\<close>
  is zero for an instant before the base. What whole seconds make of the windows that the
  other components measure with it is the subject of the property.
\<close>

record clock =
  ck_base :: nat

definition clock_new :: "nat \<Rightarrow> clock" where
  "clock_new instant = \<lparr>ck_base = instant\<rparr>"

definition nanos :: nat where "nanos = 1000000000"

definition clock_now :: "clock \<Rightarrow> nat \<Rightarrow> timestamp" where
  "clock_now c instant = of_nat ((instant - ck_base c) div nanos)"

text \<open>A span of fewer than \<open>2 ^ 64 - 1\<close> seconds, some 580 billion years, is read without wrapping.\<close>

definition readable :: "clock \<Rightarrow> nat \<Rightarrow> bool" where
  "readable c instant \<longleftrightarrow> instant - ck_base c < (2 ^ 64 - 1) * nanos"

lemma unat_clock_now:
  assumes "readable c instant"
  shows "unat (clock_now c instant) = (instant - ck_base c) div nanos" "unat (clock_now c instant) < 2 ^ 64 - 1"
proof -
  have lt: "(instant - ck_base c) div nanos < 2 ^ 64 - 1"
    using assms by (simp add: readable_def nanos_def less_mult_imp_div_less)
  then show "unat (clock_now c instant) = (instant - ck_base c) div nanos"
    by (simp add: clock_now_def unat_of_nat)
  with lt show "unat (clock_now c instant) < 2 ^ 64 - 1" by simp
qed

text \<open>The clock never goes back, and a new clock reads zero.\<close>

lemma clock_monotone:
  "readable c later \<Longrightarrow> earlier \<le> later \<Longrightarrow> clock_now c earlier \<le> clock_now c later"
proof -
  assume r: "readable c later" and le: "earlier \<le> later"
  have "earlier - ck_base c \<le> later - ck_base c" using le by (rule diff_le_mono)
  moreover from this have "readable c earlier" using r by (simp add: readable_def)
  ultimately show ?thesis using r by (simp add: word_le_nat_alt unat_clock_now div_le_mono)
qed

lemma clock_starts_at_zero: "clock_now (clock_new instant) instant = 0"
  by (simp add: clock_now_def clock_new_def)

text \<open>The difference of two readings is the time between them, to within a second.\<close>

lemma clock_age:
  assumes "ck_base c \<le> i" and "i \<le> k" and "readable c k"
  obtains age where "unat (clock_now c k) = unat (clock_now c i) + age"
    and "k - i < (age + 1) * nanos" and "age * nanos < k - i + nanos"
proof -
  define a b where "a = i - ck_base c" and "b = k - ck_base c"
  have ab: "a \<le> b" "k - i = b - a" using assms(1,2) by (simp_all add: a_def b_def)
  have "readable c i" using assms by (simp add: readable_def)
  then have u: "unat (clock_now c i) = a div nanos" "unat (clock_now c k) = b div nanos"
    using assms(3) by (simp_all add: unat_clock_now a_def b_def)
  have "a div nanos \<le> b div nanos" using ab(1) by (rule div_le_mono)
  then obtain age where age: "b div nanos = a div nanos + age" using le_Suc_ex by blast
  have a: "a = a div nanos * nanos + a mod nanos" "a mod nanos < nanos" by (simp_all add: nanos_def)
  have b: "b = a div nanos * nanos + age * nanos + b mod nanos" "b mod nanos < nanos"
    using div_mult_mod_eq [of b nanos] by (simp_all add: age algebra_simps) (simp add: nanos_def)
  show thesis
  proof (rule that)
    show "unat (clock_now c k) = unat (clock_now c i) + age" using u age by simp
    define q r s where "q = a div nanos * nanos" and "r = a mod nanos" and "s = b mod nanos"
    have "a = q + r" "r < nanos" "b = q + age * nanos + s" "s < nanos"
      using a b(2) by (simp_all add: q_def r_def s_def) (use b(1) in simp)
    then show "k - i < (age + 1) * nanos" "age * nanos < k - i + nanos" using ab by simp_all
  qed
qed

lemma clock_age_bounds:
  assumes "ck_base c \<le> i" and "i \<le> k" and "readable c k"
  shows "unat (clock_now c k) \<le> unat (clock_now c i) + n \<Longrightarrow> k - i < (n + 1) * nanos"
    and "k - i \<le> n * nanos \<Longrightarrow> unat (clock_now c k) \<le> unat (clock_now c i) + n"
proof -
  obtain age where age: "unat (clock_now c k) = unat (clock_now c i) + age"
    "k - i < (age + 1) * nanos" "age * nanos < k - i + nanos" by (rule clock_age [OF assms])
  show "k - i < (n + 1) * nanos" if "unat (clock_now c k) \<le> unat (clock_now c i) + n"
  proof -
    have "(age + 1) * nanos \<le> (n + 1) * nanos" using that age(1) by (intro mult_le_mono1) simp
    with age(2) show ?thesis by (rule less_le_trans)
  qed
  show "unat (clock_now c k) \<le> unat (clock_now c i) + n" if "k - i \<le> n * nanos"
  proof -
    have "age * nanos < (n + 1) * nanos" using that age(3) by simp
    then show ?thesis using age(1) by (simp only: mult_less_cancel2) simp
  qed
qed

text \<open>C29: The windows of the broker hold in real time, to within a second and never by more than it: read
  with the shared clock, a timed elevation of \<open>ttl\<close> seconds is in force for at least \<open>ttl - 1\<close>
  seconds and for less than \<open>ttl\<close>; a confirmation can be used for at least 30 and less than 31
  seconds; a nonce can be redeemed for at least 60 and less than 61.\<close>

theorem real_time_windows:
  assumes "ck_base c \<le> i" and "i \<le> k" and "readable c k"
  shows "(is_active (for_duration (clock_now c i) ttl) (clock_now c k) \<longrightarrow> k - i < unat ttl * nanos)
    \<and> (k - i \<le> (unat ttl - 1) * nanos \<and> 0 < ttl \<longrightarrow> is_active (for_duration (clock_now c i) ttl) (clock_now c k))
    \<and> (\<not> confirmation_expired \<lparr>cf_server = sid, cf_tool = tool, cf_approved_at = clock_now c i\<rparr> (clock_now c k)
         \<longrightarrow> k - i < 31 * nanos)
    \<and> (k - i \<le> 30 * nanos \<longrightarrow>
         \<not> confirmation_expired \<lparr>cf_server = sid, cf_tool = tool, cf_approved_at = clock_now c i\<rparr> (clock_now c k))
    \<and> (\<not> nonce_expired \<lparr>pd_nonce = n, pd_client = client, pd_purpose = p, pd_issued_at = clock_now c i\<rparr> (clock_now c k)
         \<longrightarrow> k - i < 61 * nanos)
    \<and> (k - i \<le> 60 * nanos \<longrightarrow>
         \<not> nonce_expired \<lparr>pd_nonce = n, pd_client = client, pd_purpose = p, pd_issued_at = clock_now c i\<rparr> (clock_now c k))"
proof -
  let ?i = "unat (clock_now c i)" and ?k = "unat (clock_now c k)"
  note age = clock_age_bounds [OF assms]
  have k: "?k < 2 ^ 64 - 1" using unat_clock_now(2) [OF assms(3)] .
  have active: "is_active (for_duration (clock_now c i) ttl) (clock_now c k) \<longleftrightarrow> ?k < ?i + unat ttl"
    using k by (simp add: is_active_for_duration)
  have "k - i < unat ttl * nanos" if "?k < ?i + unat ttl"
  proof -
    have "?k \<le> ?i + (unat ttl - 1)" "unat ttl - 1 + 1 = unat ttl \<or> ?k < ?i" using that by auto
    moreover have "\<not> ?k < ?i" by (rule clock_age [OF assms]) simp
    ultimately show ?thesis using age(1) [of "unat ttl - 1"] by simp
  qed
  moreover have "?k < ?i + unat ttl" if "k - i \<le> (unat ttl - 1) * nanos" "0 < ttl"
    using age(2) [OF that(1)] that(2) by (simp add: word_less_nat_alt)
  ultimately show ?thesis
    using age [of 30] age [of 60]
    by (simp add: active confirmation_expired_older nonce_expired_def older_than_iff
        confirmation_ttl_secs_def nonce_ttl_secs_def not_less)
qed

theorem real_time_windows_witness:
  "is_active (for_duration (clock_now (clock_new 5) 5) 2) (clock_now (clock_new 5) (5 + nanos))
   \<and> \<not> is_active (for_duration (clock_now (clock_new 5) 5) 2) (clock_now (clock_new 5) (5 + 2 * nanos))"
proof -
  have "readable (clock_new 5) (5 + 2 * nanos)" "readable (clock_new 5) (5 + nanos)"
    by (simp_all add: readable_def clock_new_def nanos_def)
  with real_time_windows [of "clock_new 5" 5 "5 + nanos" 2 "[]" "[]" "Nonce []" "[]" "ConfirmTool [] []"]
    real_time_windows [of "clock_new 5" 5 "5 + 2 * nanos" 2 "[]" "[]" "Nonce []" "[]" "ConfirmTool [] []"]
  show ?thesis by (simp add: clock_new_def)
qed

end
