(* ===== verification/ControlBind.thy ===== *)
theory ControlBind
  imports Control
begin

text \<open>
  \<open>ControlServer::bind\<close> of \<open>crates/transport/src/control.rs\<close>: the four file-system calls that make
  the control socket, on the part of a Unix file system they touch. A path is its components;
  the directory they start from always exists. Which call the system refuses, the text of an error
  number and the process's file mode creation mask are inputs. The result comes with every state the file system goes
  through, because another user may try to connect between two calls.
\<close>

section \<open>The file system\<close>

type_synonym path = "string list"

datatype node =
    Directory u32
  | Socket u32
  | File u32

type_synonym filesystem = "path \<Rightarrow> node option"

datatype fs_error = NotADirectory | PermissionDenied | AddressInUse | NotFound

record bind_env =
  be_umask :: u32
  be_mkdir_denied :: "path \<Rightarrow> bool"
  be_remove_denied :: bool
  be_bind_error :: "string option"
  be_chmod_error :: "string option"
  be_text :: "fs_error \<Rightarrow> string"

text \<open>The mode bits that let a user who is neither the owner nor in the group search and write.\<close>

definition others_search :: "u32 \<Rightarrow> bool" where "others_search m \<longleftrightarrow> m AND 1 \<noteq> 0"
definition others_write :: "u32 \<Rightarrow> bool" where "others_write m \<longleftrightarrow> m AND 2 \<noteq> 0"

text \<open>The directories on the way to a path, outermost first.\<close>

definition ancestors :: "path \<Rightarrow> path list" where
  "ancestors p = map (\<lambda>k. take k p) [1..<length p]"

text \<open>Connecting to a socket takes its write permission and search permission on the way to it.\<close>

definition others_connect :: "filesystem \<Rightarrow> path \<Rightarrow> bool" where
  "others_connect fs p \<longleftrightarrow>
     (case fs p of Some (Socket m) \<Rightarrow> others_write m | _ \<Rightarrow> False)
     \<and> list_all (\<lambda>d. case fs d of Some (Directory m) \<Rightarrow> others_search m | _ \<Rightarrow> False) (ancestors p)"

section \<open>The calls\<close>

text \<open>\<open>DirBuilder::recursive(true).mode(m).create\<close>: the mode applies only to what it creates.\<close>

fun make_dirs :: "bind_env \<Rightarrow> u32 \<Rightarrow> path list \<Rightarrow> filesystem \<Rightarrow> (string + unit) \<times> filesystem list" where
  "make_dirs env m [] fs = (Ok (), [])"
| "make_dirs env m (d # ds) fs =
     (case fs d of
        Some (Directory m') \<Rightarrow> make_dirs env m ds fs
      | Some _ \<Rightarrow> (Err (be_text env NotADirectory), [])
      | None \<Rightarrow>
          if be_mkdir_denied env d then (Err (be_text env PermissionDenied), [])
          else
            (let fs' = fs(d \<mapsto> Directory (m AND NOT (be_umask env)));
                 (r, states) = make_dirs env m ds fs'
             in (r, fs' # states)))"

definition remove_file :: "bind_env \<Rightarrow> path \<Rightarrow> filesystem \<Rightarrow> filesystem" where
  "remove_file env p fs =
     (case fs p of
        None \<Rightarrow> fs
      | Some (Directory m) \<Rightarrow> fs
      | Some _ \<Rightarrow> if be_remove_denied env then fs else fs(p := None))"

text \<open>\<open>UnixListener::bind\<close> creates the socket with every permission the mask leaves.\<close>

definition listen_on :: "bind_env \<Rightarrow> path \<Rightarrow> filesystem \<Rightarrow> (string + filesystem)" where
  "listen_on env p fs =
     (case be_bind_error env of
        Some e \<Rightarrow> Err e
      | None \<Rightarrow>
          if fs p \<noteq> None then Err (be_text env AddressInUse)
          else Ok (fs(p \<mapsto> Socket (0x1FF AND NOT (be_umask env)))))"

definition set_mode :: "bind_env \<Rightarrow> path \<Rightarrow> u32 \<Rightarrow> filesystem \<Rightarrow> (string + filesystem)" where
  "set_mode env p m fs =
     (case be_chmod_error env of
        Some e \<Rightarrow> Err e
      | None \<Rightarrow>
          (case fs p of
             Some (Socket m') \<Rightarrow> Ok (fs(p \<mapsto> Socket m))
           | Some (Directory m') \<Rightarrow> Ok (fs(p \<mapsto> Directory m))
           | Some (File m') \<Rightarrow> Ok (fs(p \<mapsto> File m))
           | None \<Rightarrow> Err (be_text env NotFound)))"

text \<open>\<open>path.parent()\<close> that is not empty; modes 0700 and 0600 in hexadecimal.\<close>

definition parent :: "path \<Rightarrow> path option" where
  "parent p = (if length p \<le> 1 then None else Some (butlast p))"

definition server_bind :: "bind_env \<Rightarrow> path \<Rightarrow> filesystem \<Rightarrow> (string + unit) \<times> filesystem list" where
  "server_bind env p fs0 =
     (let (made, states) =
        (case parent p of
           None \<Rightarrow> (Ok (), [])
         | Some d \<Rightarrow> make_dirs env 0x1C0 (ancestors d @ [d]) fs0)
      in
        (case made of
           Inl e \<Rightarrow> (Err e, states)
         | Inr u \<Rightarrow>
             (let fs1 = last (fs0 # states);
                  fs2 = remove_file env p fs1
              in
                (case listen_on env p fs2 of
                   Inl e \<Rightarrow> (Err e, states @ [fs2])
                 | Inr fs3 \<Rightarrow>
                     (case set_mode env p 0x180 fs3 of
                        Inl e \<Rightarrow> (Err e, states @ [fs2, fs3])
                      | Inr fs4 \<Rightarrow> (Ok (), states @ [fs2, fs3, fs4]))))))"

section \<open>Facts\<close>

lemma owner_only_modes:
  "\<not> others_search (0x1C0 AND NOT u)" "\<not> others_write 0x180"
proof -
  have "((0x1C0 :: u32) AND NOT u) AND 1 = (0x1C0 AND 1) AND NOT u" by (simp only: ac_simps)
  then show "\<not> others_search (0x1C0 AND NOT u)" by (simp add: others_search_def)
qed (simp add: others_write_def)

text \<open>Making directories only adds: what exists stays as it is, and what is made has the mode asked for.\<close>

definition grown :: "u32 \<Rightarrow> path list \<Rightarrow> filesystem \<Rightarrow> filesystem \<Rightarrow> bool" where
  "grown m ds fs fs' \<longleftrightarrow>
     (\<forall>q. fs' q = fs q \<or> fs q = None \<and> q \<in> set ds \<and> fs' q = Some (Directory m))"

lemma make_dirs_grown:
  "make_dirs env m ds fs = (r, states) \<Longrightarrow>
     (\<forall>s \<in> set states. grown (m AND NOT (be_umask env)) ds fs s)
     \<and> grown (m AND NOT (be_umask env)) ds fs (last (fs # states))"
proof (induction env m ds fs arbitrary: r states rule: make_dirs.induct)
  case (1 env m fs)
  then show ?case by (simp add: grown_def)
next
  case (2 env m d ds fs)
  show ?case
  proof (cases "fs d")
    case None
    show ?thesis
    proof (cases "be_mkdir_denied env d")
      case True
      with 2 None show ?thesis by (simp add: grown_def)
    next
      case False
      let ?fs = "fs(d \<mapsto> Directory (m AND NOT (be_umask env)))"
      obtain r' states' where rec: "make_dirs env m ds ?fs = (r', states')" by force
      let ?m = "m AND NOT (be_umask env)"
      have states: "states = ?fs # states'" using "2.prems" None False rec by (simp add: Let_def)
      have widen: "grown ?m (d # ds) fs s" if "grown ?m ds ?fs s" for s
        using that None by (auto simp: grown_def split: if_splits)
      have here: "grown ?m (d # ds) fs ?fs" using None by (simp add: grown_def)
      note ih = "2.IH"(1) [OF None False refl rec]
      have "\<forall>s \<in> set states. grown ?m (d # ds) fs s" unfolding states
        using ih widen here by (metis (no_types, lifting) set_ConsD)
      moreover have "last (fs # states) \<in> set states" unfolding states by simp
      ultimately show ?thesis by blast
    qed
  next
    case (Some n)
    then show ?thesis
    proof (cases n)
      case (Directory m')
      with 2 Some show ?thesis by (fastforce simp: grown_def)
    qed (use 2 Some in \<open>simp_all add: grown_def\<close>)
  qed
qed

lemma parent_blocks:
  assumes "parent p = Some d" and "\<And>m. fs d = Some (Directory m) \<Longrightarrow> \<not> others_search m"
  shows "\<not> others_connect fs p"
proof -
  have "d \<in> set (ancestors p)"
    using assms(1) by (auto simp: parent_def ancestors_def butlast_conv_take image_iff split: if_splits
        intro!: bexI [of _ "length p - 1"])
  with assms(2) show ?thesis
    by (auto simp: others_connect_def list_all_iff split: option.splits node.splits)
qed

text \<open>Every state of a run of \<open>server_bind\<close> is one in which directories were added and the path itself changed.\<close>

lemma bind_states:
  assumes b: "server_bind env p fs0 = (r, states)" and s: "s \<in> set states"
  shows "\<exists>fs1 ds. grown (0x1C0 AND NOT (be_umask env)) ds fs0 fs1 \<and> (\<forall>q. q \<noteq> p \<longrightarrow> s q = fs1 q)"
proof -
  let ?m = "0x1C0 AND NOT (be_umask env)"
  obtain made st ds where m: "(case parent p of None \<Rightarrow> (Ok (), []) | Some d \<Rightarrow> make_dirs env 0x1C0 (ancestors d @ [d]) fs0)
      = (made, st)" and g: "\<forall>s \<in> set st. grown ?m ds fs0 s" "grown ?m ds fs0 (last (fs0 # st))"
  proof (cases "parent p")
    case None
    then show thesis by (intro that [of "Ok ()" "[]" "[]"]) (simp_all add: grown_def)
  next
    case (Some d)
    obtain made st where "make_dirs env 0x1C0 (ancestors d @ [d]) fs0 = (made, st)" by force
    with Some make_dirs_grown [OF this] show thesis
      by (intro that [of made st "ancestors d @ [d]"]) simp_all
  qed
  have rm: "\<forall>q. q \<noteq> p \<longrightarrow> remove_file env p fs q = fs q" for fs
    by (simp add: remove_file_def split: option.split node.split)
  have li: "listen_on env p fs = Ok fs' \<Longrightarrow> \<forall>q. q \<noteq> p \<longrightarrow> fs' q = fs q" for fs fs'
    by (auto simp: listen_on_def split: option.splits if_splits)
  have ch: "set_mode env p m fs = Ok fs' \<Longrightarrow> \<forall>q. q \<noteq> p \<longrightarrow> fs' q = fs q" for m fs fs'
    by (auto simp: set_mode_def split: option.splits node.splits)
  show ?thesis
  proof (cases "s \<in> set st")
    case True
    with g(1) show ?thesis by blast
  next
    case False
    define fs1 where "fs1 = last (fs0 # st)"
    define fs2 where "fs2 = remove_file env p fs1"
    have run: "server_bind env p fs0 =
        (case made of
           Inl e \<Rightarrow> (Err e, st)
         | Inr u \<Rightarrow>
             (case listen_on env p fs2 of
                Inl e \<Rightarrow> (Err e, st @ [fs2])
              | Inr fs3 \<Rightarrow>
                  (case set_mode env p 0x180 fs3 of
                     Inl e \<Rightarrow> (Err e, st @ [fs2, fs3])
                   | Inr fs4 \<Rightarrow> (Ok (), st @ [fs2, fs3, fs4]))))"
      by (simp only: server_bind_def m Let_def prod.case fs1_def fs2_def)
    have "s = fs2 \<or> listen_on env p fs2 = Ok s
        \<or> (\<exists>fs3. listen_on env p fs2 = Ok fs3 \<and> set_mode env p 0x180 fs3 = Ok s)"
      using b s False unfolding run by (auto split: sum.splits)
    then have "\<forall>q. q \<noteq> p \<longrightarrow> s q = fs1 q"
    proof (elim disjE exE conjE)
      assume "s = fs2"
      then show ?thesis using rm by (simp add: fs2_def)
    next
      assume "listen_on env p fs2 = Ok s"
      from li [OF this] rm show ?thesis by (simp add: fs2_def)
    next
      fix fs3
      assume "listen_on env p fs2 = Ok fs3" "set_mode env p 0x180 fs3 = Ok s"
      from li [OF this(1)] ch [OF this(2)] rm show ?thesis by (simp add: fs2_def)
    qed
    with g(2) fs1_def show ?thesis by blast
  qed
qed

section \<open>The property\<close>

text \<open>C30: The control socket is never open to other users. If the directory it goes into did not exist, no
  other user can connect in any state the file system goes through, whatever the mask and
  whichever call fails; and when \<open>bind\<close> succeeds the socket has mode 0600 whoever made the
  directory, and no directory that existed has changed.\<close>

theorem socket_owner_only:
  assumes "server_bind env p fs0 = (r, states)" and "parent p = Some d"
  shows "(fs0 d = None \<longrightarrow> (\<forall>s \<in> set states. \<not> others_connect s p))
    \<and> (r = Ok () \<longrightarrow> last states p = Some (Socket 0x180) \<and> \<not> others_connect (last states) p)
    \<and> (\<forall>s \<in> set states. \<forall>q m. q \<noteq> p \<and> fs0 q = Some (Directory m) \<longrightarrow> s q = Some (Directory m))"
proof (intro conjI impI ballI allI)
  have "length d < length p" using assms(2) by (auto simp: parent_def split: if_splits)
  then have dp: "d \<noteq> p" by auto
  fix s
  assume "s \<in> set states"
  from bind_states [OF assms(1) this] obtain fs1 ds where
    g: "grown (0x1C0 AND NOT (be_umask env)) ds fs0 fs1" "\<forall>q. q \<noteq> p \<longrightarrow> s q = fs1 q" by blast
  show "\<not> others_connect s p" if "fs0 d = None"
  proof (rule parent_blocks [OF assms(2)])
    fix m
    assume "s d = Some (Directory m)"
    then have "fs1 d = Some (Directory m)" using g(2) dp by simp
    then have "m = 0x1C0 AND NOT (be_umask env)"
      using g(1) [unfolded grown_def, rule_format, of d] that by simp
    then show "\<not> others_search m" by (simp add: owner_only_modes)
  qed
  show "s q = Some (Directory m)" if "q \<noteq> p \<and> fs0 q = Some (Directory m)" for q m
    using g(1) [unfolded grown_def, rule_format, of q] g(2) that by auto
next
  assume "r = Ok ()"
  then show "last states p = Some (Socket 0x180)"
    using assms(1)
    by (auto simp: server_bind_def listen_on_def set_mode_def Let_def split: sum.splits prod.splits option.splits if_splits)
  then show "\<not> others_connect (last states) p" by (simp add: others_connect_def owner_only_modes)
qed

text \<open>A shared directory with everything permitted, a mask of zero and a socket to be made below it.\<close>

definition demo_bind_env :: bind_env where
  "demo_bind_env = \<lparr>be_umask = 0, be_mkdir_denied = (\<lambda>d. False), be_remove_denied = False,
     be_bind_error = None, be_chmod_error = None, be_text = (\<lambda>e. ''error'')\<rparr>"

definition demo_shared :: filesystem where
  "demo_shared = (\<lambda>q. if q = [''tmp''] then Some (Directory 0x1FF) else None)"

theorem socket_owner_only_witness:
  "\<exists>states. server_bind demo_bind_env [''tmp'', ''mcp-lock'', ''control.sock''] demo_shared = (Ok (), states)
    \<and> list_all (\<lambda>s. \<not> others_connect s [''tmp'', ''mcp-lock'', ''control.sock'']) states
    \<and> last states [''tmp'', ''mcp-lock'', ''control.sock''] = Some (Socket 0x180)"
proof -
  let ?p = "[''tmp'', ''mcp-lock'', ''control.sock'']"
  have par: "parent ?p = Some [''tmp'', ''mcp-lock'']" by (simp add: parent_def)
  have anc: "ancestors [''tmp'', ''mcp-lock''] = [[''tmp'']]" by (simp add: ancestors_def upt_rec)
  obtain r states where b: "server_bind demo_bind_env ?p demo_shared = (r, states)" by force
  then have "r = Ok ()"
    by (simp add: server_bind_def par anc demo_bind_env_def demo_shared_def remove_file_def listen_on_def
        set_mode_def Let_def)
  with socket_owner_only [OF b par] b show ?thesis by (simp add: demo_shared_def list_all_iff)
qed

text \<open>
  When the directory is already there and open to all, the first part of the property fails: with a
  mask that leaves the permissions of others, they can connect between the two last calls.
\<close>

lemma existing_directory_window:
  "\<exists>s \<in> set (snd (server_bind demo_bind_env [''tmp'', ''control.sock''] demo_shared)).
     others_connect s [''tmp'', ''control.sock'']"
proof -
  let ?p = "[''tmp'', ''control.sock'']"
  have par: "parent ?p = Some [''tmp'']" by (simp add: parent_def)
  have anc: "ancestors [''tmp''] = []" "ancestors ?p = [[''tmp'']]" by (simp_all add: ancestors_def upt_rec)
  let ?s = "demo_shared(?p \<mapsto> Socket 0x1FF)"
  have "?s \<in> set (snd (server_bind demo_bind_env ?p demo_shared))"
    by (simp add: server_bind_def par anc demo_bind_env_def demo_shared_def remove_file_def listen_on_def
        set_mode_def Let_def)
  moreover have "others_connect ?s ?p"
    by (simp add: others_connect_def anc demo_shared_def others_search_def others_write_def)
  ultimately show ?thesis by blast
qed

end
