(* ===== verification/Supervise.thy ===== *)
theory Supervise
  imports AggregatorFacts BrokerMain MailMain
begin

text \<open>
  The broker and the mail server together: a child of the broker is a process joined to its stdio
  client by two pipes. What the client writes is the input of the server's loop (\<open>mail_run\<close>), and
  what that loop writes is cut into lines by the client's reader thread (\<open>read_lines\<close>), which
  delivers them some time after they were asked for. \<open>crates/broker/tests/real_child.rs\<close> runs
  exactly this pair. The two sides use different codecs, that of the broker and that of the server.
\<close>

section \<open>A child at the end of two pipes\<close>

record wire =
  wi_broker :: json_lib
  wi_mail :: mail_json
  wi_lossy :: "string \<Rightarrow> string"
  wi_cost :: "string \<Rightarrow> nat"
  wi_delay :: nat

text \<open>
  The client, the server with the world of its store, and how many of the bytes that the client
  wrote the server has read.
\<close>

record 'w piped =
  pc_client :: stdio_client
  pc_server :: "'w mail_server"
  pc_store :: 'w
  pc_read :: nat

definition delivered :: "wire \<Rightarrow> nat \<Rightarrow> string \<Rightarrow> (nat \<times> read_item) list" where
  "delivered wi t bytes =
     map (\<lambda>item. (t + wi_delay wi, item)) (read_lines max_line_bytes (wi_lossy wi) bytes Eof None)"

text \<open>
  What the server makes of an operation of the client: it reads the bytes that the operation writes
  before any answer arrives, runs over them, and its answers are on their way to the client, which
  is about to perform the operation.
\<close>

definition anticipate :: "wire \<Rightarrow> (stdio_client \<Rightarrow> 'r \<times> stdio_client) \<Rightarrow> 'w piped \<Rightarrow> 'w piped" where
  "anticipate wi oper p =
     (let c = pc_client p;
          asked = drop (pc_read p) (sc_written (snd (oper c)))
      in
        (case mail_run (wi_mail wi) (pc_server p) mem_writer asked Eof (pc_store p, []) of
           (r, w, out) \<Rightarrow>
             p\<lparr>pc_client := c\<lparr>sc_queue := sc_queue c @ delivered wi (sc_time c) out\<rparr>,
               pc_store := w, pc_read := pc_read p + length asked\<rparr>))"

text \<open>
  The server reads in pieces, as the client writes: for complete lines, and from its own output, this
  is one run over the whole input.
\<close>

lemma answers_append:
  "mail_answers mj srv (ls @ ms) w =
     (case mail_answers mj srv ls w of (rs, w') \<Rightarrow>
        (case mail_answers mj srv ms w' of (rs', w'') \<Rightarrow> (rs @ rs', w'')))"
  by (induction ls arbitrary: w) (auto split: prod.splits option.splits)

lemma run_pieces:
  assumes "\<forall>l \<in> set (ls @ ms). plain_line l"
  shows "mail_run mj srv mem_writer (unlines ls @ unlines ms) Eof (w, out) =
    (case mail_run mj srv mem_writer (unlines ls) Eof (w, out) of (r, s) \<Rightarrow>
       mail_run mj srv mem_writer (unlines ms) Eof s)"
proof -
  have join: "unlines (xs @ ys) = unlines xs @ unlines ys" for xs ys by (simp add: unlines_def)
  from assms have "\<forall>l \<in> set ls. plain_line l" "\<forall>l \<in> set ms. plain_line l" by auto
  then show ?thesis
    unfolding join [symmetric] run_answers [OF assms] by (auto simp: run_answers answers_append join split: prod.split)
qed

definition react :: "wire \<Rightarrow> (stdio_client \<Rightarrow> 'r \<times> stdio_client) \<Rightarrow> 'w piped \<Rightarrow> 'r \<times> 'w piped" where
  "react wi oper p =
     (let p' = anticipate wi oper p; (r, c) = oper (pc_client p') in (r, p'\<lparr>pc_client := c\<rparr>))"

definition piped_api :: "wire \<Rightarrow> 'w piped child_api" where
  "piped_api wi =
     \<lparr>api_list_tools = react wi (stdio_list_tools (wi_broker wi) (wi_cost wi)),
      api_call_tool = (\<lambda>p name arguments.
        react wi (\<lambda>c. stdio_call_tool (wi_broker wi) (wi_cost wi) c name arguments) p),
      api_is_alive = react wi stdio_is_alive\<rparr>"

text \<open>
  A spawn: \<open>launch\<close> says what the operating system starts for a command line and an environment,
  with the world of its store. The client is the one of the code's \<open>spawn\<close>, on the pipes of the new
  process.
\<close>

definition fresh_client :: stdio_client where
  "fresh_client =
     \<lparr>sc_written = [], sc_queue = [], sc_closed = None, sc_next_id = 1,
      sc_timeout = default_request_timeout, sc_time = 0, sc_writes = [], sc_alive = Ok True\<rparr>"

type_synonym 'w launch = "string \<Rightarrow> string list \<Rightarrow> string smap \<Rightarrow> string + 'w mail_server \<times> 'w"

definition piped_spawn ::
  "wire \<Rightarrow> string \<Rightarrow> 'w launch \<Rightarrow> string smap \<Rightarrow> server_manifest \<Rightarrow> child_error + 'w piped" where
  "piped_spawn wi version launch inherited srv =
     (let started = (\<lambda>(sv, w). anticipate wi (initialize (wi_broker wi) (wi_cost wi) version)
            \<lparr>pc_client = fresh_client, pc_server = sv, pc_store = w, pc_read = 0\<rparr>);
          os_spawn = (\<lambda>command args env. map_sum id (\<lambda>proc. \<lparr>sp_stdin = True, sp_stdout = True,
            sp_client = pc_client (started proc)\<rparr>) (launch command args env))
      in
        (case spawn_child (wi_broker wi) (wi_cost wi) version os_spawn inherited srv of
           Inl e \<Rightarrow> Err e
         | Inr c \<Rightarrow>
             (case launch (srv_command srv) (srv_args srv) (command_env inherited (srv_env srv)) of
                Inl e \<Rightarrow> Err (ChildIo e)
              | Inr proc \<Rightarrow> Ok ((started proc)\<lparr>pc_client := c\<rparr>))))"

definition piped_host :: "wire \<Rightarrow> string \<Rightarrow> 'w launch \<Rightarrow> string smap \<Rightarrow> ('w piped, unit) host" where
  "piped_host wi version launch inherited =
     \<lparr>host_spawn = (\<lambda>srv s. (piped_spawn wi version launch inherited srv, s)),
      host_api = piped_api wi\<rparr>"

text \<open>Behind pipes, a client is a child that keeps the contract of the aggregator.\<close>

lemma react_runs: "react wi oper p = (r, p') \<Longrightarrow> \<exists>c c'. oper c = (r, c')"
  by (auto simp: react_def Let_def split: prod.splits)

interpretation piped: mcp_child "react wi (stdio_list_tools jl cost)" for wi jl cost
proof
  fix p ts p' t
  assume "react wi (stdio_list_tools jl cost) p = (Ok ts, p')" and t: "t \<in> set ts"
  then obtain c c' where "stdio_list_tools jl cost c = (Ok ts, c')" by (blast dest: react_runs)
  then show "carries_name t" using t by (rule stdio.list_named)
qed

section \<open>Messages that both sides read alike\<close>

text \<open>
  \<open>serde_json\<close> writes a message on one line that is not blank, and reads back what it wrote. The
  conditions are stated of the messages that are exchanged, not of all that could be: a line longer
  than \<open>max_line_bytes\<close>, for one, is refused by the broker's reader.
\<close>

definition request_json :: "u64 \<Rightarrow> string \<Rightarrow> json \<Rightarrow> json" where
  "request_json n meth params =
     jobj [(''jsonrpc'', JStr ''2.0''), (''id'', JNum (PosInt n)), (''method'', JStr meth), (''params'', params)]"

definition request_of :: "u64 \<Rightarrow> string \<Rightarrow> json \<Rightarrow> rpc_request" where
  "request_of n meth params =
     \<lparr>rq_jsonrpc = ''2.0'', rq_id = Some (JNum (PosInt n)), rq_method = meth, rq_params = Some params\<rparr>"

definition on_a_line :: "wire \<Rightarrow> json \<Rightarrow> rpc_request \<Rightarrow> string \<Rightarrow> bool" where
  "on_a_line wi v req s \<longleftrightarrow>
     print_json (wi_broker wi) v = Ok s \<and> plain_line s \<and> \<not> blank s \<and> mj_parse (wi_mail wi) s = Some req"

definition conveys_request :: "wire \<Rightarrow> u64 \<Rightarrow> string \<Rightarrow> json \<Rightarrow> bool" where
  "conveys_request wi n meth params \<longleftrightarrow>
     (\<exists>s. on_a_line wi (request_json n meth params) (request_of n meth params) s)"

definition conveys_initialized :: "wire \<Rightarrow> bool" where
  "conveys_initialized wi \<longleftrightarrow>
     (\<exists>s. on_a_line wi
        (jobj [(''jsonrpc'', JStr ''2.0''), (''method'', JStr ''notifications/initialized''), (''params'', jobj [])])
        \<lparr>rq_jsonrpc = ''2.0'', rq_id = None, rq_method = ''notifications/initialized'', rq_params = Some (jobj [])\<rparr> s)"

definition received_line :: "wire \<Rightarrow> string \<Rightarrow> string" where
  "received_line wi s = wi_lossy wi (s @ [CHR 0x0A])"

definition conveys_response :: "wire \<Rightarrow> rpc_response \<Rightarrow> bool" where
  "conveys_response wi r \<longleftrightarrow>
     (\<exists>s. mj_write (wi_mail wi) r = Some s \<and> plain_line s \<and> length s < max_line_bytes
        \<and> \<not> blank (received_line wi s) \<and> parse_json (wi_broker wi) (received_line wi s) = Ok (response_value r))"

text \<open>What the client makes of a response.\<close>

definition response_result :: "rpc_response \<Rightarrow> child_error + json" where
  "response_result r =
     (case rp_error r of
        Some e \<Rightarrow> Err (ChildRpc (re_code e) (re_message e))
      | None \<Rightarrow> Ok (case rp_result r of Some v \<Rightarrow> v | None \<Rightarrow> JNull))"

lemma response_value_get:
  "jget (response_value r) ''id'' = Some (rp_id r)"
  "jget (response_value r) ''error'' = map_option error_value (rp_error r)"
  "jget (response_value r) ''result'' = rp_result r"
  by (auto simp: response_value_def jget_jobj split: option.splits)

lemma answer_of_response:
  assumes "parse_json jl l = Ok (response_value r)" "\<not> blank l" "rp_id r = JNum (PosInt n)"
  shows "answer_of jl n l = Some (response_result r)"
  using assms
  by (simp add: answer_of_def response_value_get response_result_def error_value_def jget_jobj split: option.split)

section \<open>A request and its answer\<close>

text \<open>
  Between two operations nothing is on its way to the client, no write has failed, and what the
  server has not read yet is lines that it does not answer.
\<close>

definition settled :: "wire \<Rightarrow> 'w piped \<Rightarrow> bool" where
  "settled wi p \<longleftrightarrow>
     sc_queue (pc_client p) = [] \<and> sc_writes (pc_client p) = []
     \<and> wi_delay wi \<le> sc_timeout (pc_client p)
     \<and> pc_read p \<le> length (sc_written (pc_client p))
     \<and> (\<exists>ls. drop (pc_read p) (sc_written (pc_client p)) = unlines ls
          \<and> (\<forall>l \<in> set ls. plain_line l \<and> \<not> wants_answer (wi_mail wi) l))"

lemma unanswered:
  assumes "\<forall>l \<in> set ls. \<not> wants_answer mj l"
  shows "mail_answers mj srv (ls @ ms) w = mail_answers mj srv ms w"
  using assms
proof (induction ls)
  case (Cons l ls)
  have "mail_process_line mj srv l w = (None, w)" if "\<not> blank l"
    using Cons.prems that
    by (auto simp: wants_answer_def mail_process_line_def mail_handle_request_def split: option.splits)
  with Cons show ?case by simp
qed simp

lemma delivered_line:
  assumes "plain_line s" "length s < max_line_bytes"
  shows "delivered wi t (unlines [s]) = [(t + wi_delay wi, Line (received_line wi s))]"
proof -
  have "\<forall>l \<in> set [s]. CHR 0x0A \<notin> set l \<and> length l < max_line_bytes"
    using assms by (simp add: plain_line_def)
  from read_lines_lines [OF this] show ?thesis
    by (simp add: delivered_def received_line_def)
qed

lemma write_line_settled:
  assumes "print_json jl v = Ok s" "sc_writes c = []"
  shows "McpClient.write_line jl v c = (Ok (), c\<lparr>sc_written := sc_written c @ s @ [CHR 0x0A]\<rparr>)"
  using assms by (simp add: McpClient.write_line_def)

lemma request_settled:
  assumes "print_json jl (request_json (sc_next_id c) meth params) = Ok s" "sc_writes c = []"
  shows "request jl cost meth params c =
    (case request_loop jl cost (sc_next_id c) (sc_time c + sc_timeout c) (sc_closed c) (sc_queue c) (sc_time c) of
       (r, q, t) \<Rightarrow> (r, c\<lparr>sc_written := sc_written c @ s @ [CHR 0x0A], sc_next_id := sc_next_id c + 1,
         sc_queue := q, sc_time := t\<rparr>))"
  using assms by (simp add: request_def Let_def request_json_def write_line_settled split: prod.split)

lemma request_loop_answer:
  assumes "answer_of jl n l = Some r" "d \<le> deadline - t" "t \<le> deadline"
  shows "request_loop jl cost n deadline closed ((t + d, Line l) # q) t = (r, q, t + d + cost l)"
  using assms by (auto simp: request_loop.simps recv_timeout_def)

lemma anticipate_request:
  assumes p: "settled wi p"
    and line: "on_a_line wi v req s"
    and wrote: "sc_written (snd (oper (pc_client p))) = sc_written (pc_client p) @ s @ [CHR 0x0A]"
    and h: "mail_handle_request (wi_mail wi) (pc_server p) req (pc_store p) = (Some resp, w)"
    and out: "mj_write (wi_mail wi) resp = Some out" "plain_line out" "length out < max_line_bytes"
  shows "anticipate wi oper p =
    p\<lparr>pc_client := (pc_client p)
        \<lparr>sc_queue := [(sc_time (pc_client p) + wi_delay wi, Line (received_line wi out))]\<rparr>,
      pc_store := w, pc_read := length (sc_written (pc_client p) @ s @ [CHR 0x0A])\<rparr>"
proof -
  let ?c = "pc_client p"
  from p obtain ls where ls: "drop (pc_read p) (sc_written ?c) = unlines ls"
    "\<forall>l \<in> set ls. plain_line l \<and> \<not> wants_answer (wi_mail wi) l" and read: "pc_read p \<le> length (sc_written ?c)"
    and q: "sc_queue ?c = []"
    by (auto simp: settled_def)
  have asked: "drop (pc_read p) (sc_written (snd (oper ?c))) = unlines (ls @ [s])"
    using ls(1) read by (simp add: wrote unlines_def)
  have "length (drop (pc_read p) (sc_written (snd (oper ?c)))) + pc_read p = length (sc_written ?c @ s @ [CHR 0x0A])"
    using read by (simp add: wrote)
  then have len: "pc_read p + length (unlines (ls @ [s])) = length (sc_written ?c @ s @ [CHR 0x0A])"
    unfolding asked by (simp only: add.commute)
  have "mail_process_line (wi_mail wi) (pc_server p) s (pc_store p) = (Some out, w)"
    using line h out(1) by (simp add: mail_process_line_def on_a_line_def write_or_internal_def)
  then have "mail_answers (wi_mail wi) (pc_server p) (ls @ [s]) (pc_store p) = ([out], w)"
    using ls(2) line by (simp add: unanswered on_a_line_def)
  moreover have "\<forall>l \<in> set (ls @ [s]). plain_line l"
    using ls(2) line by (auto simp: on_a_line_def)
  ultimately have "mail_run (wi_mail wi) (pc_server p) mem_writer (unlines (ls @ [s])) Eof (pc_store p, [])
      = (Ok (), w, unlines [out])"
    by (simp add: run_answers del: unlines_simps)
  then show ?thesis
    unfolding anticipate_def Let_def asked len using q
    by (simp add: len delivered_line [OF out(2,3)] del: unlines_simps)
qed

text \<open>What an exchange leaves behind, but for the instant at which it ended.\<close>

definition exchanged :: "wire \<Rightarrow> 'w \<Rightarrow> 'w piped \<Rightarrow> 'w piped \<Rightarrow> bool" where
  "exchanged wi w p p' \<longleftrightarrow>
     settled wi p' \<and> pc_store p' = w \<and> pc_server p' = pc_server p
     \<and> sc_next_id (pc_client p') = sc_next_id (pc_client p) + 1"

lemma ask:
  fixes p :: "'w piped" and wi jl cost
  defines "n \<equiv> sc_next_id (pc_client p)"
  assumes p: "settled wi p"
    and req: "conveys_request wi n meth params"
    and h: "mail_handle_request (wi_mail wi) (pc_server p) (request_of n meth params) (pc_store p) = (Some resp, w)"
    and resp: "conveys_response wi resp"
  shows "\<exists>p'. react wi (request (wi_broker wi) (wi_cost wi) meth params) p = (response_result resp, p')
    \<and> exchanged wi w p p'"
proof -
  let ?c = "pc_client p" and ?jl = "wi_broker wi"
  from req obtain s where s: "on_a_line wi (request_json n meth params) (request_of n meth params) s"
    by (auto simp: conveys_request_def)
  then have print: "print_json ?jl (request_json (sc_next_id ?c) meth params) = Ok s"
    by (simp add: on_a_line_def n_def)
  from resp obtain out where out: "mj_write (wi_mail wi) resp = Some out" "plain_line out"
    "length out < max_line_bytes" "\<not> blank (received_line wi out)"
    "parse_json ?jl (received_line wi out) = Ok (response_value resp)"
    by (auto simp: conveys_response_def)
  have c: "sc_writes ?c = []" "wi_delay wi \<le> sc_timeout ?c" using p by (simp_all add: settled_def)
  have "sc_written (snd (request ?jl (wi_cost wi) meth params ?c)) = sc_written ?c @ s @ [CHR 0x0A]"
    by (simp add: request_settled [OF print c(1)] split: prod.split)
  note ant = anticipate_request [where oper = "request ?jl (wi_cost wi) meth params", OF p s this h out(1-3)]
  have "rp_id resp = JNum (PosInt n)"
    using answered_request [OF h refl] by (simp add: request_of_def)
  then have ans: "answer_of ?jl n (received_line wi out) = Some (response_result resp)"
    by (rule answer_of_response [OF out(5,4)])
  have loop: "request_loop ?jl (wi_cost wi) n (t + sc_timeout ?c) closed [(t + wi_delay wi, Line (received_line wi out))] t
      = (response_result resp, [], t + wi_delay wi + wi_cost wi (received_line wi out))" for t closed
    by (rule request_loop_answer [OF ans]) (use c in simp_all)
  let ?p = "p\<lparr>pc_client := ?c\<lparr>sc_written := sc_written ?c @ s @ [CHR 0x0A], sc_next_id := n + 1, sc_queue := [],
      sc_time := sc_time ?c + wi_delay wi + wi_cost wi (received_line wi out)\<rparr>,
    pc_store := w, pc_read := length (sc_written ?c @ s @ [CHR 0x0A])\<rparr>"
  have "react wi (request ?jl (wi_cost wi) meth params) p = (response_result resp, ?p)"
    unfolding react_def Let_def ant using print c loop
    by (simp add: request_settled n_def)
  moreover have "\<exists>ls. [] = unlines ls \<and> (\<forall>l \<in> set ls. plain_line l \<and> \<not> wants_answer (wi_mail wi) l)"
    by (rule exI [of _ "[]"]) simp
  then have "exchanged wi w p ?p"
    using c by (simp add: exchanged_def settled_def n_def)
  ultimately show ?thesis by blast
qed

text \<open>An operation that is a request and a reading of its result.\<close>

lemma react_result:
  assumes "react wi f p = (r, p')" and "\<And>c. g c = (case f c of (r, c') \<Rightarrow> (read r, c'))"
  shows "react wi g p = (read r, p')"
proof -
  have "snd (g c) = snd (f c)" for c by (simp add: assms(2) split: prod.split)
  then have "anticipate wi g p = anticipate wi f p" by (simp add: anticipate_def)
  then show ?thesis using assms by (auto simp: react_def Let_def split: prod.splits)
qed

section \<open>The handshake\<close>

definition initialize_params :: "string \<Rightarrow> json" where
  "initialize_params version =
     jobj [(''protocolVersion'', JStr protocol_version), (''capabilities'', jobj []),
       (''clientInfo'', jobj [(''name'', JStr ''mcp-lockd''), (''version'', JStr version)])]"

lemma request_unanswered:
  assumes "sc_queue c = []" "print_json jl (request_json (sc_next_id c) meth params) = Ok s" "sc_writes c = []"
  shows "\<exists>e c'. request jl cost meth params c = (Err e, c')"
  using assms
  by (auto simp: request_settled request_loop.simps [where q = "[]"] recv_timeout_def split: option.split)

lemma initialize_idle:
  assumes "sc_queue c = []" "sc_writes c = []"
    "print_json jl (request_json (sc_next_id c) ''initialize'' (initialize_params version)) = Ok s"
  shows "snd (initialize jl cost version c) = snd (request jl cost ''initialize'' (initialize_params version) c)"
proof -
  obtain e c' where "request jl cost ''initialize'' (initialize_params version) c = (Err e, c')"
    using request_unanswered [OF assms(1,3,2)] by blast
  then show ?thesis by (simp add: initialize_def initialize_params_def)
qed

lemma greet:
  fixes p :: "'w piped"
  defines "n \<equiv> sc_next_id (pc_client p)"
  assumes p: "settled wi p"
    and req: "conveys_request wi n ''initialize'' (initialize_params version)"
    and note1: "conveys_initialized wi"
    and resp: "conveys_response wi (response_success (JNum (PosInt n)) (mail_initialize_result (pc_server p)))"
  shows "\<exists>p'. react wi (initialize (wi_broker wi) (wi_cost wi) version) p = (Ok (), p')
    \<and> exchanged wi (pc_store p) p p'"
proof -
  let ?jl = "wi_broker wi"
  let ?req = "request ?jl (wi_cost wi) ''initialize'' (initialize_params version)"
  let ?init = "initialize ?jl (wi_cost wi) version"
  have h: "mail_handle_request (wi_mail wi) (pc_server p) (request_of n ''initialize'' (initialize_params version))
      (pc_store p) = (Some (response_success (JNum (PosInt n)) (mail_initialize_result (pc_server p))), pc_store p)"
    by (simp add: mail_handle_request_def request_of_def is_notification_def)
  obtain p1 where r: "react wi ?req p = (Ok (mail_initialize_result (pc_server p)), p1)"
    and ex: "exchanged wi (pc_store p) p p1"
    using ask [OF p req [unfolded n_def] h [unfolded n_def] resp [unfolded n_def]]
    by (auto simp: response_result_def response_success_def)
  have "snd (?init (pc_client p)) = snd (?req (pc_client p))"
    using p req by (auto simp: settled_def conveys_request_def on_a_line_def n_def intro!: initialize_idle)
  then have ant: "anticipate wi ?init p = anticipate wi ?req p" by (simp add: anticipate_def)
  from note1 obtain s req' where s: "print_json ?jl (jobj [(''jsonrpc'', JStr ''2.0''),
      (''method'', JStr ''notifications/initialized''), (''params'', jobj [])]) = Ok s"
    "plain_line s" "mj_parse (wi_mail wi) s = Some req'" "is_notification req'"
    by (auto simp: conveys_initialized_def on_a_line_def is_notification_def)
  obtain c where c: "?req (pc_client (anticipate wi ?req p)) = (Ok (mail_initialize_result (pc_server p)), c)"
    "p1 = (anticipate wi ?req p)\<lparr>pc_client := c\<rparr>"
    using r by (auto simp: react_def Let_def split: prod.splits)
  let ?c = "c\<lparr>sc_written := sc_written c @ s @ [CHR 0x0A]\<rparr>"
  have set1: "settled wi p1" and frame: "pc_store p1 = pc_store p" "pc_server p1 = pc_server p"
      "sc_next_id (pc_client p1) = n + 1" using ex by (simp_all add: exchanged_def n_def)
  have "sc_writes c = []" using set1 by (simp add: c(2) settled_def)
  then have "?init (pc_client (anticipate wi ?req p)) = (Ok (), ?c)"
    using c(1) write_line_settled [OF s(1)]
    by (simp add: initialize_def initialize_params_def notify_child_def)
  then have "react wi ?init p = (Ok (), p1\<lparr>pc_client := ?c\<rparr>)"
    by (simp add: react_def Let_def ant c(2))
  moreover have "settled wi (p1\<lparr>pc_client := ?c\<rparr>)"
  proof -
    obtain ls where "drop (pc_read p1) (sc_written c) = unlines ls"
      "\<forall>l \<in> set ls. plain_line l \<and> \<not> wants_answer (wi_mail wi) l"
      using set1 by (auto simp: settled_def c(2))
    moreover have "pc_read p1 \<le> length (sc_written c)" using set1 by (simp add: settled_def c(2))
    ultimately have "drop (pc_read p1) (sc_written ?c) = unlines (ls @ [s])"
      "\<forall>l \<in> set (ls @ [s]). plain_line l \<and> \<not> wants_answer (wi_mail wi) l"
      using s by (auto simp: unlines_def wants_answer_def)
    then have "\<exists>ls. drop (pc_read p1) (sc_written ?c) = unlines ls
        \<and> (\<forall>l \<in> set ls. plain_line l \<and> \<not> wants_answer (wi_mail wi) l)" by blast
    then show ?thesis using set1 by (simp add: settled_def c(2))
  qed
  then have "exchanged wi (pc_store p) p (p1\<lparr>pc_client := ?c\<rparr>)"
    using frame by (simp add: exchanged_def c(2) n_def)
  ultimately show ?thesis by blast
qed

section \<open>The two operations of a child\<close>

definition advertised_tools :: "tool_def list" where
  "advertised_tools = List.map_filter tool_of_def tool_definitions"

lemma advertised_names: "map td_name advertised_tools = [''search'', ''list_messages'', ''fetch_message'']"
  by (simp add: advertised_tools_def tool_definitions_def tool_json_def tool_of_def_def jget_jobj
      List.map_filter_def)

definition tools_list_response :: "u64 \<Rightarrow> rpc_response" where
  "tools_list_response n = response_success (JNum (PosInt n)) (jobj [(''tools'', JArr tool_definitions)])"

lemma list_tools:
  fixes p :: "'w piped"
  defines "n \<equiv> sc_next_id (pc_client p)"
  assumes p: "settled wi p" and "conveys_request wi n ''tools/list'' (jobj [])"
    and "conveys_response wi (tools_list_response n)"
  shows "\<exists>p'. api_list_tools (piped_api wi) p = (Ok advertised_tools, p') \<and> exchanged wi (pc_store p) p p'"
proof -
  have "mail_handle_request (wi_mail wi) (pc_server p) (request_of n ''tools/list'' (jobj [])) (pc_store p)
      = (Some (tools_list_response n), pc_store p)"
    by (simp add: mail_handle_request_def request_of_def is_notification_def tools_list_response_def)
  from ask [OF p assms(3)[unfolded n_def] this [unfolded n_def] assms(4) [unfolded n_def]] obtain p' where
    r: "react wi (request (wi_broker wi) (wi_cost wi) ''tools/list'' (jobj [])) p
      = (Ok (jobj [(''tools'', JArr tool_definitions)]), p')" and ex: "exchanged wi (pc_store p) p p'"
    by (auto simp: response_result_def response_success_def tools_list_response_def)
  let ?read = "\<lambda>r. case r of Inl e \<Rightarrow> Err e
    | Inr v \<Rightarrow> Ok (List.map_filter tool_of_def
        (case Option.bind (jget v ''tools'') as_array of Some xs \<Rightarrow> xs | None \<Rightarrow> []))"
  have "react wi (stdio_list_tools (wi_broker wi) (wi_cost wi)) p =
      (?read (Ok (jobj [(''tools'', JArr tool_definitions)])), p')"
    by (rule react_result [OF r])
      (simp add: stdio_list_tools_def Let_def split: prod.split sum.split)
  with ex show ?thesis by (auto simp: piped_api_def jget_jobj advertised_tools_def)
qed

definition forwarded_params :: "string \<Rightarrow> json \<Rightarrow> json" where
  "forwarded_params name arguments = jobj [(''name'', JStr name), (''arguments'', arguments)]"

text \<open>A call of a tool on the server's own store, without broker, pipes or messages.\<close>

definition direct_call ::
  "mail_json \<Rightarrow> 'w mail_server \<Rightarrow> string \<Rightarrow> json \<Rightarrow> 'w \<Rightarrow> (tool_error + json) \<times> 'w" where
  "direct_call mj srv name arguments w =
     mail_call (mj_pretty mj) (sv_store srv) name (Some arguments) (sv_mailbox srv) w"

definition call_response :: "u64 \<Rightarrow> tool_error + json \<Rightarrow> rpc_response" where
  "call_response n r =
     (case r of
        Inr v \<Rightarrow> response_success (JNum (PosInt n)) v
      | Inl (ToolError m) \<Rightarrow> response_error (JNum (PosInt n)) INVALID_PARAMS m)"

definition call_result :: "tool_error + json \<Rightarrow> child_error + json" where
  "call_result r = (case r of Inr v \<Rightarrow> Ok v | Inl (ToolError m) \<Rightarrow> Err (ChildRpc INVALID_PARAMS m))"

lemma response_result_call: "response_result (call_response n r) = call_result r"
  by (auto simp: response_result_def call_response_def call_result_def response_success_def response_error_def
      split: sum.split tool_error.split)

lemma handle_call:
  "direct_call mj srv name args w = (r, w') \<Longrightarrow>
     mail_handle_request mj srv (request_of n ''tools/call'' (forwarded_params name args)) w = (Some (call_response n r), w')"
  by (auto simp: mail_handle_request_def request_of_def is_notification_def mail_tools_call_def direct_call_def
      forwarded_params_def call_response_def jobj_def sm_get_collect split: sum.split tool_error.split prod.split)

lemma call_tool:
  fixes p :: "'w piped"
  defines "n \<equiv> sc_next_id (pc_client p)"
  assumes p: "settled wi p" and "conveys_request wi n ''tools/call'' (forwarded_params name args)"
    and d: "direct_call (wi_mail wi) (pc_server p) name args (pc_store p) = (r, w)"
    and "conveys_response wi (call_response n r)"
  shows "\<exists>p'. api_call_tool (piped_api wi) p name args = (call_result r, p') \<and> exchanged wi w p p'"
  using ask [OF p assms(3) [unfolded n_def] handle_call [OF d] assms(5) [unfolded n_def]]
  by (simp add: piped_api_def stdio_call_tool_def forwarded_params_def response_result_call)

section \<open>The spawn\<close>

lemma spawn_piped:
  assumes delay: "wi_delay wi \<le> default_request_timeout"
    and launch: "launch (srv_command srv) (srv_args srv) (command_env inherited (srv_env srv)) = Ok (sv, w)"
    and "conveys_request wi 1 ''initialize'' (initialize_params version)" "conveys_initialized wi"
    and "conveys_response wi (response_success (JNum (PosInt 1)) (mail_initialize_result sv))"
  shows "\<exists>p. piped_spawn wi version launch inherited srv = Ok p \<and> settled wi p \<and> pc_server p = sv
    \<and> pc_store p = w \<and> sc_next_id (pc_client p) = 2"
proof -
  let ?p0 = "\<lparr>pc_client = fresh_client, pc_server = sv, pc_store = w, pc_read = 0\<rparr>"
  let ?init = "initialize (wi_broker wi) (wi_cost wi) version"
  let ?p1 = "anticipate wi ?init ?p0"
  have "\<exists>ls. [] = unlines ls \<and> (\<forall>l \<in> set ls. plain_line l \<and> \<not> wants_answer (wi_mail wi) l)"
    by (rule exI [of _ "[]"]) simp
  then have "settled wi ?p0" using delay by (simp add: settled_def fresh_client_def)
  from greet [OF this] assms(3-5) obtain p where
    r: "react wi ?init ?p0 = (Ok (), p)" and ex: "exchanged wi w ?p0 p"
    by (auto simp: fresh_client_def)
  have "sc_next_id (pc_client ?p1) = 1" "sc_timeout (pc_client ?p1) = default_request_timeout"
    by (simp_all add: anticipate_def Let_def fresh_client_def split: prod.split)
  then have same: "(pc_client ?p1)\<lparr>sc_next_id := 1, sc_timeout := default_request_timeout\<rparr> = pc_client ?p1"
    by simp
  obtain c where c: "?init (pc_client ?p1) = (Ok (), c)" "p = ?p1\<lparr>pc_client := c\<rparr>"
    using r by (auto simp: react_def Let_def split: prod.splits)
  have "piped_spawn wi version launch inherited srv = Ok p"
    using launch c same
    by (simp add: piped_spawn_def Let_def spawn_child_def spawn_def spawn_with_timeout_def)
  with ex show ?thesis by (simp add: exchanged_def fresh_client_def)
qed

end
