(* ===== verification/SuperviseProps.thy ===== *)
theory SuperviseProps
  imports Supervise
begin

text \<open>
  The broker over a mail server behind pipes is the mail server behind the exposure gate: the tools
  that the operator declared to be read-only are called on the server's own store, and nothing else
  reaches it. The test \<open>broker_supervises_real_mail_server_and_aggregates_tools\<close> is evaluated on
  the same definitions.
\<close>

section \<open>A sequence of calls\<close>

type_synonym tool_call_at = "timestamp \<times> string \<times> json"

fun broker_calls ::
  "'c child_api \<Rightarrow> string \<Rightarrow> tool_call_at list \<Rightarrow> ('c, 's) aggregator \<Rightarrow>
     (aggregator_error + json) list \<times> ('c, 's) aggregator" where
  "broker_calls api sid [] a = ([], a)"
| "broker_calls api sid ((now, name, args) # qs) a =
     (let (r, a') = call api (external_name sid name) args now a;
          (rs, a'') = broker_calls api sid qs a'
      in (r # rs, a''))"

text \<open>What the operator of the broker is promised of these calls, without broker, pipes or messages.\<close>

definition readable :: "tool_class smap \<Rightarrow> string \<Rightarrow> bool" where
  "readable tools name \<longleftrightarrow> name \<in> set (map td_name advertised_tools) \<and> sm_get tools name = Some Read"

fun gated_calls ::
  "mail_json \<Rightarrow> 'w mail_server \<Rightarrow> server_manifest \<Rightarrow> tool_call_at list \<Rightarrow> 'w \<Rightarrow>
     (aggregator_error + json) list \<times> 'w" where
  "gated_calls mj sv srv [] w = ([], w)"
| "gated_calls mj sv srv ((now, name, args) # qs) w =
     (if readable (srv_tools srv) name
      then
        (let (r, w') = direct_call mj sv name args w;
             (rs, w'') = gated_calls mj sv srv qs w'
         in (map_sum AgChild id (call_result r) # rs, w''))
      else
        (let (rs, w'') = gated_calls mj sv srv qs w
         in (Err (NotExposed (external_name (srv_id srv) name)) # rs, w'')))"

text \<open>The messages of these calls, the first with id \<open>n\<close>, are read alike by both sides.\<close>

fun conveys_calls ::
  "wire \<Rightarrow> 'w mail_server \<Rightarrow> server_manifest \<Rightarrow> u64 \<Rightarrow> tool_call_at list \<Rightarrow> 'w \<Rightarrow> bool" where
  "conveys_calls wi sv srv n [] w = True"
| "conveys_calls wi sv srv n ((now, name, args) # qs) w =
     (if readable (srv_tools srv) name
      then
        (let (r, w') = direct_call (wi_mail wi) sv name args w
         in conveys_request wi n ''tools/call'' (forwarded_params name args)
            \<and> conveys_response wi (call_response n r)
            \<and> conveys_calls wi sv srv (n + 1) qs w')
      else conveys_calls wi sv srv n qs w)"

definition conveys_handshake :: "wire \<Rightarrow> string \<Rightarrow> 'w mail_server \<Rightarrow> bool" where
  "conveys_handshake wi version sv \<longleftrightarrow>
     conveys_request wi 1 ''initialize'' (initialize_params version)
     \<and> conveys_response wi (response_success (JNum (PosInt 1)) (mail_initialize_result sv))
     \<and> conveys_initialized wi
     \<and> conveys_request wi 2 ''tools/list'' (jobj [])
     \<and> conveys_response wi (tools_list_response 2)"

section \<open>The adopted server\<close>

definition adopted_slot :: "server_manifest \<Rightarrow> server_slot" where
  "adopted_slot srv =
     new_running (srv_id srv) (classify_advertised (srv_tools srv) (map td_name advertised_tools))"

definition adopted ::
  "wire \<Rightarrow> 'w mail_server \<Rightarrow> server_manifest \<Rightarrow> u64 \<Rightarrow> 'w \<Rightarrow> ('w piped, 's) aggregator \<Rightarrow> bool" where
  "adopted wi sv srv n w a \<longleftrightarrow>
     ag_state a = cold_start [adopted_slot srv]
     \<and> ag_tool_defs a = [(srv_id srv, sm_collect (map (\<lambda>t. (td_name t, td_definition t)) advertised_tools))]
     \<and> (\<exists>p. sm_get (ag_children a) (srv_id srv) = Some p \<and> settled wi p \<and> pc_server p = sv
          \<and> pc_store p = w \<and> sc_next_id (pc_client p) = n)"

lemma adopted_server: "adopted wi sv srv n w a \<Longrightarrow> server (ag_state a) (srv_id srv) = Some (adopted_slot srv)"
  by (simp add: adopted_def adopted_slot_def server_def cold_start_def)

definition one_server :: "server_manifest \<Rightarrow> string \<Rightarrow> loaded_manifest" where
  "one_server srv integrity = \<lparr>lm_manifest = \<lparr>mf_servers = [srv]\<rparr>, lm_integrity = integrity\<rparr>"

lemma build_adopts:
  assumes id: "namespace_sep \<notin> set (srv_id srv)" and delay: "wi_delay wi \<le> default_request_timeout"
    and launch: "launch (srv_command srv) (srv_args srv) (command_env inherited (srv_env srv)) = Ok (sv, w)"
    and wire: "conveys_handshake wi version sv"
  shows "\<exists>a. build (piped_host wi version launch inherited) (one_server srv integrity) () = Ok a
    \<and> adopted wi sv srv 3 w a"
proof -
  obtain p where p: "piped_spawn wi version launch inherited srv = Ok p" "settled wi p" "pc_server p = sv"
      "pc_store p = w" "sc_next_id (pc_client p) = 2"
    using spawn_piped [OF delay, of launch srv inherited sv w version] launch wire
    by (auto simp: conveys_handshake_def)
  obtain p' where p': "api_list_tools (piped_api wi) p = (Ok advertised_tools, p')" "exchanged wi w p p'"
    using list_tools [OF p(2)] wire p(4,5) by (auto simp: conveys_handshake_def)
  show ?thesis
    using id p p'
    by (auto simp: build_def one_server_def spawn_and_classify_def piped_host_def Let_def adopted_def
        exchanged_def adopted_slot_def)
qed

lemma classified_read:
  "(\<exists>t \<in> set (classify_advertised m ns). ct_name t = name \<and> is_read (ct_class t))
     \<longleftrightarrow> name \<in> set ns \<and> sm_get m name = Some Read"
  by (auto simp: classify_advertised_def classify_read_iff)

lemma adopted_exposed: "name \<in> set (exposed (adopted_slot srv) now) \<longleftrightarrow> readable (srv_tools srv) name"
  using classified_read [of "srv_tools srv" "map td_name advertised_tools" name]
  by (auto simp: adopted_slot_def set_exposed readable_def simp del: set_map)

lemma adopted_call:
  assumes a: "adopted wi sv srv n w a" and id: "namespace_sep \<notin> set (srv_id srv)"
    and wire: "conveys_calls wi sv srv n ((now, name, args) # qs) w"
  obtains r a' n' w' where "call (piped_api wi) (external_name (srv_id srv) name) args now a = (r, a')"
    "adopted wi sv srv n' w' a'" "conveys_calls wi sv srv n' qs w'"
    "gated_calls (wi_mail wi) sv srv ((now, name, args) # qs) w =
       (let (rs, w'') = gated_calls (wi_mail wi) sv srv qs w' in (r # rs, w''))"
proof -
  note slot = adopted_server [OF a]
  have split: "split_once namespace_sep (external_name (srv_id srv) name) = Some (srv_id srv, name)"
    using id by (simp add: external_name_def)
  show thesis
  proof (cases "readable (srv_tools srv) name")
    case False
    then have "call (piped_api wi) (external_name (srv_id srv) name) args now a
        = (Err (NotExposed (external_name (srv_id srv) name)), a)"
      by (simp add: call_def split slot adopted_exposed)
    with False wire a show thesis by (intro that) (simp_all split: prod.split)
  next
    case True
    obtain p where p: "sm_get (ag_children a) (srv_id srv) = Some p" "settled wi p" "pc_server p = sv"
        "pc_store p = w" "sc_next_id (pc_client p) = n"
      using a by (auto simp: adopted_def)
    obtain r w' where d: "direct_call (wi_mail wi) sv name args w = (r, w')" by force
    with True wire have conv: "conveys_request wi n ''tools/call'' (forwarded_params name args)"
        "conveys_response wi (call_response n r)" "conveys_calls wi sv srv (n + 1) qs w'" by simp_all
    obtain p' where p': "api_call_tool (piped_api wi) p name args = (call_result r, p')" "exchanged wi w' p p'"
      using call_tool [OF p(2), of name args r w'] conv d p(3,4,5) by auto
    let ?a = "a\<lparr>ag_children := sm_update (srv_id srv) (\<lambda>_. p') (ag_children a)\<rparr>"
    have unconfirmed: "\<not> is_some_and (map_option ct_class (find (\<lambda>t. ct_name t = name) (slot_tools (adopted_slot srv))))
        requires_per_action_presence"
      using True by (simp add: adopted_slot_def readable_def find_classify_advertised classify_declared)
    have "call (piped_api wi) (external_name (srv_id srv) name) args now a
        = route (piped_api wi) (external_name (srv_id srv) name) (srv_id srv) name args a"
      using True unconfirmed by (simp add: call_def split slot adopted_exposed Let_def)
    also have "\<dots> = (map_sum AgChild id (call_result r), ?a)"
      using p(1) p'(1)
      by (auto simp: route_def call_result_def Let_def split: sum.split tool_error.split)
    finally have "call (piped_api wi) (external_name (srv_id srv) name) args now a
        = (map_sum AgChild id (call_result r), ?a)" .
    moreover have "adopted wi sv srv (n + 1) w' ?a"
      using a p p'(2) by (simp add: adopted_def exchanged_def sm_get_update)
    ultimately show thesis using conv(3) True d by (intro that) (simp_all split: prod.split)
  qed
qed

lemma adopted_calls:
  assumes "adopted wi sv srv n w a" "namespace_sep \<notin> set (srv_id srv)" "conveys_calls wi sv srv n qs w"
  shows "\<exists>n' a' rs w'. broker_calls (piped_api wi) (srv_id srv) qs a = (rs, a')
    \<and> gated_calls (wi_mail wi) sv srv qs w = (rs, w') \<and> adopted wi sv srv n' w' a'"
  using assms
proof (induction qs arbitrary: n w a)
  case Nil
  then show ?case by auto
next
  case (Cons q qs)
  obtain now name args where q: "q = (now, name, args)" by (metis prod_cases3)
  from adopted_call [OF Cons.prems(1,2) Cons.prems(3) [unfolded q]] obtain r a' n' w' where
    step: "call (piped_api wi) (external_name (srv_id srv) name) args now a = (r, a')"
      "gated_calls (wi_mail wi) sv srv ((now, name, args) # qs) w =
         (let (rs, w'') = gated_calls (wi_mail wi) sv srv qs w' in (r # rs, w''))"
    and a': "adopted wi sv srv n' w' a'" "conveys_calls wi sv srv n' qs w'" by metis
  from Cons.IH [OF a'(1) Cons.prems(2) a'(2)] show ?case
    unfolding q step(2) by (auto simp: step(1) simp del: gated_calls.simps)
qed

section \<open>The property\<close>

text \<open>
  The broker that adopts a mail server, run over two pipes, is that server behind the gate:
  for any store, any declaration of its tools and any sequence of calls at any times, the calls of
  advertised tools declared \<open>Read\<close> have exactly the results of the same calls on the server's own
  store, in the same order and with the same effects on it; every other call is refused and does not
  reach the server. Requests, responses, ids, lines, the reader thread and deadlines between them
  make no difference, as long as the codecs convey the messages and an answer comes in time.
\<close>

lemma mail_behind_the_gate:
  assumes "namespace_sep \<notin> set (srv_id srv)" and "wi_delay wi \<le> default_request_timeout"
    and "launch (srv_command srv) (srv_args srv) (command_env inherited (srv_env srv)) = Ok (sv, w)"
    and "conveys_handshake wi version sv" and "conveys_calls wi sv srv 3 qs w"
  shows "\<exists>a a' p. build (piped_host wi version launch inherited) (one_server srv integrity) () = Ok a
    \<and> broker_calls (piped_api wi) (srv_id srv) qs a = (fst (gated_calls (wi_mail wi) sv srv qs w), a')
    \<and> sm_get (ag_children a') (srv_id srv) = Some p
    \<and> pc_store p = snd (gated_calls (wi_mail wi) sv srv qs w)"
proof -
  obtain a where a: "build (piped_host wi version launch inherited) (one_server srv integrity) () = Ok a"
      "adopted wi sv srv 3 w a"
    using build_adopts [of srv wi launch inherited sv w version integrity, OF assms(1-4)] by blast
  from adopted_calls [OF a(2) assms(1,5)] obtain n' a' rs w' where
    "broker_calls (piped_api wi) (srv_id srv) qs a = (rs, a')"
    "gated_calls (wi_mail wi) sv srv qs w = (rs, w')" "adopted wi sv srv n' w' a'" by blast
  with a(1) show ?thesis by (auto simp: adopted_def)
qed

subsection \<open>A concrete pair\<close>

text \<open>
  The demonstration server under a manifest that leaves \<open>search\<close> a write tool. Four requests are
  exchanged; the codec writes a message as so many letters as its id says.
\<close>

definition gate_manifest :: server_manifest where
  "gate_manifest =
     \<lparr>srv_id = ''mail'', srv_command = ''mcp-lock-mail'', srv_args = [''--fake''], srv_env = [],
      srv_tools = [(''fetch_message'', Read), (''search'', Write)]\<rparr>"

definition launch_demo :: "fake_store launch" where
  "launch_demo command args env =
     (if command = ''mcp-lock-mail'' \<and> args = [''--fake''] then Ok (demo_mail_server, demo_store)
      else Err ''not found'')"

definition uid_1 :: json where "uid_1 = jobj [(''uid'', JNum (PosInt 1))]"

definition gate_calls :: "tool_call_at list" where
  "gate_calls = [(0, ''fetch_message'', uid_1), (1, ''search'', uid_1), (2, ''fetch_message'', jobj [])]"

definition gate_pretty :: "json \<Rightarrow> string option" where "gate_pretty v = Some ''{}''"

definition gate_plain :: mail_json where
  "gate_plain = \<lparr>mj_parse = (\<lambda>l. None), mj_write = (\<lambda>r. None), mj_pretty = gate_pretty\<rparr>"

definition gate_fetch :: "json \<Rightarrow> tool_error + json" where
  "gate_fetch args = fst (direct_call gate_plain demo_mail_server ''fetch_message'' args demo_store)"

definition gate_talk :: "u64 \<Rightarrow> rpc_request \<times> rpc_response" where
  "gate_talk n =
     (if n = 1 then (request_of 1 ''initialize'' (initialize_params ''1''),
        response_success (JNum (PosInt 1)) (mail_initialize_result demo_mail_server))
      else if n = 2 then (request_of 2 ''tools/list'' (jobj []), tools_list_response 2)
      else if n = 3 then (request_of 3 ''tools/call'' (forwarded_params ''fetch_message'' uid_1),
        call_response 3 (gate_fetch uid_1))
      else (request_of 4 ''tools/call'' (forwarded_params ''fetch_message'' (jobj [])),
        call_response 4 (gate_fetch (jobj []))))"

definition letters :: "json \<Rightarrow> string" where
  "letters i = (case as_u64 i of Some n \<Rightarrow> replicate (unat n) CHR ''x'' | None \<Rightarrow> ''n'')"

definition gate_wire :: wire where
  "gate_wire =
     \<lparr>wi_broker =
        \<lparr>parse_json = (\<lambda>l. Ok (response_value (snd (gate_talk (of_nat (length l - 1)))))),
         print_json = (\<lambda>v. Ok (letters (case jget v ''id'' of Some i \<Rightarrow> i | None \<Rightarrow> JNull)))\<rparr>,
      wi_mail =
        \<lparr>mj_parse = (\<lambda>l. if l = ''n''
           then Some \<lparr>rq_jsonrpc = ''2.0'', rq_id = None, rq_method = ''notifications/initialized'',
                      rq_params = Some (jobj [])\<rparr>
           else Some (fst (gate_talk (of_nat (length l))))),
         mj_write = (\<lambda>r. Some (letters (rp_id r))), mj_pretty = gate_pretty\<rparr>,
      wi_lossy = (\<lambda>l. l), wi_cost = (\<lambda>l. 1), wi_delay = 3\<rparr>"

lemma letters_simps:
  "letters JNull = ''n''" "letters (JNum (PosInt 1)) = ''x''" "letters (JNum (PosInt 2)) = ''xx''"
  "letters (JNum (PosInt 3)) = ''xxx''" "letters (JNum (PosInt 4)) = ''xxxx''"
  by (simp_all add: letters_def) (simp_all add: eval_nat_numeral)

lemma small_lines:
  "plain_line l \<and> \<not> blank l \<and> length l < max_line_bytes \<and> \<not> blank (l @ [CHR 0x0A])"
  if "l \<in> {''n'', ''x'', ''xx'', ''xxx'', ''xxxx''}"
  using that
  by (auto simp: plain_line_def utf8_ascii blank_def trim_def trim_end_def ws1_def ws2_def ws3_def max_line_bytes_def)

lemma gate_response:
  "rp_id (snd (gate_talk n)) = JNum (PosInt n)" if "n \<in> {1, 2, 3, 4}"
  using that by (auto simp: gate_talk_def response_success_def tools_list_response_def call_response_def
      response_error_def split: sum.split tool_error.split)

lemma gate_conveys:
  assumes "n \<in> {1, 2, 3, 4}"
  shows "fst (gate_talk n) = request_of n meth params \<Longrightarrow> conveys_request gate_wire n meth params"
    and "conveys_response gate_wire (snd (gate_talk n))"
    and "conveys_initialized gate_wire"
proof -
  let ?l = "letters (JNum (PosInt n))"
  have l: "?l \<in> {''x'', ''xx'', ''xxx'', ''xxxx''}" "of_nat (length ?l) = n"
    using assms by (auto simp: letters_simps)
  then have "plain_line ?l \<and> \<not> blank ?l \<and> length ?l < max_line_bytes \<and> \<not> blank (?l @ [CHR 0x0A])"
    by (intro small_lines) auto
  moreover have "?l \<noteq> ''n''" using l by auto
  ultimately show "fst (gate_talk n) = request_of n meth params \<Longrightarrow> conveys_request gate_wire n meth params"
    and "conveys_response gate_wire (snd (gate_talk n))"
    using l(2) gate_response [OF assms]
    by (auto simp: conveys_request_def on_a_line_def request_json_def jget_jobj gate_wire_def
        conveys_response_def received_line_def)
  show "conveys_initialized gate_wire"
    using small_lines [of "''n''"]
    by (simp add: conveys_initialized_def on_a_line_def gate_wire_def jget_jobj letters_simps)
qed

lemma direct_call_gate:
  "direct_call (wi_mail gate_wire) demo_mail_server ''fetch_message'' args demo_store = (gate_fetch args, demo_store)"
  using fake_calls_read_only [of gate_pretty "\<lambda>s. s" "''fetch_message''" "Some args" "''INBOX''" demo_store]
  by (simp add: gate_fetch_def direct_call_def gate_plain_def gate_wire_def demo_mail_server_def prod_eq_iff)

lemma gate_readable: "readable (srv_tools gate_manifest) name \<longleftrightarrow> name = ''fetch_message''"
  by (auto simp: readable_def gate_manifest_def advertised_names simp del: set_map)

lemma gate_handshake: "conveys_handshake gate_wire ''1'' demo_mail_server"
  using gate_conveys(1) [of 1 "''initialize''" "initialize_params ''1''"] gate_conveys(2,3) [of 1]
    gate_conveys(1) [of 2 "''tools/list''" "jobj []"] gate_conveys(2) [of 2]
  by (simp add: conveys_handshake_def gate_talk_def)

lemma gate_conveys_calls: "conveys_calls gate_wire demo_mail_server gate_manifest 3 gate_calls demo_store"
  using gate_conveys(1) [of 3 "''tools/call''" "forwarded_params ''fetch_message'' uid_1"] gate_conveys(2) [of 3]
    gate_conveys(1) [of 4 "''tools/call''" "forwarded_params ''fetch_message'' (jobj [])"] gate_conveys(2) [of 4]
  by (simp add: gate_calls_def gate_readable direct_call_gate gate_talk_def)

lemma gate_results:
  "gated_calls (wi_mail gate_wire) demo_mail_server gate_manifest gate_calls demo_store =
     ([map_sum AgChild id (call_result (gate_fetch uid_1)), Err (NotExposed ''mail.search''),
       map_sum AgChild id (call_result (gate_fetch (jobj [])))], demo_store)"
  by (simp add: gate_calls_def gate_readable direct_call_gate)
    (simp add: external_name_def gate_manifest_def namespace_sep_def)

lemma gate_fetch_results:
  "gate_fetch uid_1 = Ok (text_result ''{}'' False)"
  "gate_fetch (jobj []) = Err (ToolError ''missing required argument `uid`'')"
  by code_simp+

theorem mail_behind_the_gate_witness:
  "\<exists>a a'. build (piped_host gate_wire ''1'' launch_demo []) (one_server gate_manifest []) () = Ok a
    \<and> broker_calls (piped_api gate_wire) ''mail'' gate_calls a =
        ([Ok (text_result ''{}'' False), Err (NotExposed ''mail.search''),
          Err (AgChild (ChildRpc INVALID_PARAMS ''missing required argument `uid`''))], a')"
proof -
  have "namespace_sep \<notin> set (srv_id gate_manifest)" "wi_delay gate_wire \<le> default_request_timeout"
    "launch_demo (srv_command gate_manifest) (srv_args gate_manifest) (command_env [] (srv_env gate_manifest))
      = Ok (demo_mail_server, demo_store)"
    by (simp_all add: gate_manifest_def namespace_sep_def gate_wire_def default_request_timeout_def launch_demo_def)
  from mail_behind_the_gate [where launch = launch_demo and integrity = "[]", OF this gate_handshake gate_conveys_calls]
  have "\<exists>a a'. build (piped_host gate_wire ''1'' launch_demo []) (one_server gate_manifest []) () = Ok a
    \<and> broker_calls (piped_api gate_wire) (srv_id gate_manifest) gate_calls a =
      (fst (gated_calls (wi_mail gate_wire) demo_mail_server gate_manifest gate_calls demo_store), a')" by blast
  moreover have "srv_id gate_manifest = ''mail''" by (simp add: gate_manifest_def)
  ultimately show ?thesis by (simp add: gate_results gate_fetch_results call_result_def)
qed

end
