(* ===== verification/Gateway.thy ===== *)
theory Gateway
  imports SuperviseProps BrokerProps
begin

text \<open>
  The whole way of a tool call: an HTTP request to the daemon's endpoint
  (\<open>crates/transport/src/endpoint.rs\<close>), the handler behind it (\<open>crates/broker/src/handler.rs\<close>), the
  aggregator, the stdio client, two pipes and the mail server, and back. The daemon is the one that
  \<open>serve\<close> has started.
\<close>

section \<open>Requests over HTTP\<close>

text \<open>One request to the endpoint of the running broker.\<close>

definition serve_http ::
  "('k, 'c, 's) libs \<Rightarrow> string \<Rightarrow> http_json \<Rightarrow> (string \<Rightarrow> string \<Rightarrow> bool) \<Rightarrow> static_bearer \<Rightarrow> tick \<Rightarrow>
     http_request \<Rightarrow> ('k, 'c, 's) broker \<Rightarrow> http_response \<times> ('k, 'c, 's) broker" where
  "serve_http lb version hj header_is v tk req b =
     (case handle_request hj header_is (validate_bearer v) (handle_mcp lb version tk) req b (bk_notifier b) of
        (resp, b', nt) \<Rightarrow> (resp, b'\<lparr>bk_notifier := nt\<rparr>))"

text \<open>
  A visitor either does not know the token, and may send anything, or asks for a call of a tool of
  the server: a POST whose body is read as a \<open>tools/call\<close> request with the id, the tool and the
  arguments given.
\<close>

datatype visit =
    Stranger tick http_request
  | Caller tick http_request json string json

definition asks_for ::
  "http_json \<Rightarrow> string \<Rightarrow> http_request \<Rightarrow> json \<Rightarrow> string \<Rightarrow> json \<Rightarrow> bool" where
  "asks_for hj sid req i name args \<longleftrightarrow>
     hq_method req = Post
     \<and> (\<exists>body parsed. read_to_string max_body_bytes (hq_body req) (hq_body_end req) = Some body
          \<and> hj_parse hj body = Some parsed \<and> jget parsed ''id'' = Some i
          \<and> jget parsed ''method'' = Some (JStr ''tools/call'')
          \<and> call_params (jget parsed ''params'') = Ok (external_name sid name, args))"

fun genuine_visit ::
  "http_json \<Rightarrow> (string \<Rightarrow> string \<Rightarrow> bool) \<Rightarrow> string \<Rightarrow> string \<Rightarrow> visit \<Rightarrow> bool" where
  "genuine_visit hj header_is token sid (Stranger tk req) = (bearer_token header_is req \<noteq> Some token)"
| "genuine_visit hj header_is token sid (Caller tk req i name args) =
     (bearer_token header_is req = Some token \<and> asks_for hj sid req i name args)"

fun visit_request :: "visit \<Rightarrow> tick \<times> http_request" where
  "visit_request (Stranger tk req) = (tk, req)"
| "visit_request (Caller tk req i name args) = (tk, req)"

fun serve_visits ::
  "('k, 'c, 's) libs \<Rightarrow> string \<Rightarrow> http_json \<Rightarrow> (string \<Rightarrow> string \<Rightarrow> bool) \<Rightarrow> static_bearer \<Rightarrow> visit list \<Rightarrow>
     ('k, 'c, 's) broker \<Rightarrow> http_response list \<times> ('k, 'c, 's) broker" where
  "serve_visits lb version hj header_is v [] b = ([], b)"
| "serve_visits lb version hj header_is v (vis # vs) b =
     (let (resp, b') = serve_http lb version hj header_is v (fst (visit_request vis)) (snd (visit_request vis)) b;
          (resps, b'') = serve_visits lb version hj header_is v vs b'
      in (resp # resps, b''))"

section \<open>What is promised of them\<close>

fun calls_of :: "visit list \<Rightarrow> tool_call_at list" where
  "calls_of [] = []"
| "calls_of (Stranger tk req # vs) = calls_of vs"
| "calls_of (Caller tk req i name args # vs) = (tk_now tk, name, args) # calls_of vs"

text \<open>The HTTP response to a call with this result.\<close>

definition caller_answer :: "http_json \<Rightarrow> json \<Rightarrow> aggregator_error + json \<Rightarrow> http_response" where
  "caller_answer hj i r =
     json_response
       (case hj_print hj (success i
               (case r of Inr v \<Rightarrow> v | Inl e \<Rightarrow> tool_error_result (aggregator_error_text e))) of
          Some out \<Rightarrow> out
        | None \<Rightarrow> internal_error_body (hj_text hj)) 200"

fun visit_answers :: "http_json \<Rightarrow> visit list \<Rightarrow> (aggregator_error + json) list \<Rightarrow> http_response list" where
  "visit_answers hj (Stranger tk req # vs) rs = unauthorized # visit_answers hj vs rs"
| "visit_answers hj (Caller tk req i name args # vs) (r # rs) = caller_answer hj i r # visit_answers hj vs rs"
| "visit_answers hj _ _ = []"

section \<open>One request\<close>

lemma stranger_refused:
  assumes "bearer_new token cid = Some v" and "bearer_token header_is req \<noteq> Some token"
  shows "serve_http lb version hj header_is v tk req b = (unauthorized, b)"
proof -
  have "\<exists>e. validate_bearer v (bearer_token header_is req) = Err e"
    using validate_bearer_ok [OF assms(1)] assms(2)
    by (cases "validate_bearer v (bearer_token header_is req)") auto
  then show ?thesis by (auto simp: serve_http_def handle_request_def)
qed

lemma caller_handled:
  assumes "bearer_new token cid = Some v" and "bearer_token header_is req = Some token"
    and "asks_for hj sid req i name args"
    and "\<And>params. call_params params = Ok (external_name sid name, args) \<Longrightarrow>
      handle_tools_call lb tk i params b = (success i x, b')"
    and "bk_notifier b' = bk_notifier b"
  shows "serve_http lb version hj header_is v tk req b =
    (json_response (case hj_print hj (success i x) of Some out \<Rightarrow> out
       | None \<Rightarrow> internal_error_body (hj_text hj)) 200, b')"
proof -
  from assms(3) obtain body parsed where p: "hq_method req = Post"
    "read_to_string max_body_bytes (hq_body req) (hq_body_end req) = Some body"
    "hj_parse hj body = Some parsed" "jget parsed ''id'' = Some i"
    "jget parsed ''method'' = Some (JStr ''tools/call'')"
    "call_params (jget parsed ''params'') = Ok (external_name sid name, args)"
    by (auto simp: asks_for_def)
  have "\<not> is_array parsed" using p(4) by (cases parsed) auto
  moreover have "validate_bearer v (bearer_token header_is req) = Ok (ValidatedClient cid)"
    using validate_bearer_ok [OF assms(1)] assms(2) by blast
  moreover have "handle_mcp lb version tk parsed client b = (success i x, b')" for client
    using assms(4) [OF p(6)] p(4,5) by (simp add: handle_mcp_def)
  ultimately show ?thesis
    using p(1-4) assms(5) by (simp add: serve_http_def handle_request_def handle_post_def)
qed

text \<open>A gated call leaves no trace but its result: it is no write, and no confirmation was missing.\<close>

lemma gated_result:
  assumes "gated_calls mj sv srv (q # qs) w = (r # rs, w')"
  shows "(\<exists>v. r = Ok v \<and> readable (srv_tools srv) (fst (snd q))) \<or> (\<exists>e. r = Err e \<and> \<not> is_not_confirmed e)"
proof -
  obtain now name args where q: "q = (now, name, args)" by (metis prod_cases3)
  show ?thesis
    using assms
    by (auto simp: q call_result_def split: if_splits prod.splits sum.splits tool_error.splits)
qed

lemma adopted_handles_call:
  assumes a: "adopted wi sv srv n w a" and id: "namespace_sep \<notin> set (srv_id srv)"
    and agg: "bk_agg b = mutex_new a" and host: "host_api (lib_host lb) = piped_api wi"
    and wire: "conveys_calls wi sv srv n ((tk_now tk, name, args) # qs) w"
  obtains r a' n' w' where
    "\<And>params i. call_params params = Ok (external_name (srv_id srv) name, args) \<Longrightarrow>
      handle_tools_call lb tk i params b =
        (success i (case r of Inr v \<Rightarrow> v | Inl e \<Rightarrow> tool_error_result (aggregator_error_text e)),
         b\<lparr>bk_agg := mutex_new a'\<rparr>)"
    "adopted wi sv srv n' w' a'" "conveys_calls wi sv srv n' qs w'"
    "gated_calls (wi_mail wi) sv srv ((tk_now tk, name, args) # qs) w =
       (let (rs, w'') = gated_calls (wi_mail wi) sv srv qs w' in (r # rs, w''))"
proof -
  from adopted_call [OF a id wire] obtain r a' n' w' where
    c: "call (piped_api wi) (external_name (srv_id srv) name) args (tk_now tk) a = (r, a')"
    and a': "adopted wi sv srv n' w' a'" "conveys_calls wi sv srv n' qs w'"
    and g: "gated_calls (wi_mail wi) sv srv ((tk_now tk, name, args) # qs) w =
       (let (rs, w'') = gated_calls (wi_mail wi) sv srv qs w' in (r # rs, w''))" by blast
  have "named_class (external_name (srv_id srv) name) a = Some Read" if "readable (srv_tools srv) name"
    using that id adopted_server [OF a]
    by (simp add: named_class_def external_name_def namespace_sep_def tool_class_of_def adopted_slot_def
        readable_def find_classify_advertised classify_declared)
  moreover obtain rs w'' where "gated_calls (wi_mail wi) sv srv ((tk_now tk, name, args) # qs) w = (r # rs, w'')"
    using g by (auto split: prod.splits)
  from gated_result [OF this]
  have "(\<exists>v. r = Ok v \<and> readable (srv_tools srv) name) \<or> (\<exists>e. r = Err e \<and> \<not> is_not_confirmed e)" by simp
  ultimately have "handle_tools_call lb tk i params b =
        (success i (case r of Inr v \<Rightarrow> v | Inl e \<Rightarrow> tool_error_result (aggregator_error_text e)),
         b\<lparr>bk_agg := mutex_new a'\<rparr>)"
    if "call_params params = Ok (external_name (srv_id srv) name, args)" for params i
    using that c agg host
    by (auto simp: handle_tools_call_def requires_elevation_def)
  from that [OF this a' g] show thesis .
qed

section \<open>A sequence of requests\<close>

lemma adopted_visits:
  assumes v: "bearer_new token cid = Some v" and id: "namespace_sep \<notin> set (srv_id srv)"
    and host: "host_api (lib_host lb) = piped_api wi"
  assumes "list_all (genuine_visit hj header_is token (srv_id srv)) vs"
    and "adopted wi sv srv n w a" and "bk_agg b = mutex_new a"
    and "conveys_calls wi sv srv n (calls_of vs) w"
  shows "\<exists>rs w' n' a'. gated_calls (wi_mail wi) sv srv (calls_of vs) w = (rs, w')
    \<and> serve_visits lb version hj header_is v vs b = (visit_answers hj vs rs, b\<lparr>bk_agg := mutex_new a'\<rparr>)
    \<and> adopted wi sv srv n' w' a'"
  using assms(4-)
proof (induction vs arbitrary: n w a b)
  case Nil
  then have eq: "b\<lparr>bk_agg := mutex_new a\<rparr> = b" by simp
  show ?case
    by (rule exI [of _ "[]"], rule exI [of _ w], rule exI [of _ n], rule exI [of _ a]) (use Nil in \<open>simp add: eq\<close>)
next
  case (Cons vis vs)
  show ?case
  proof (cases vis)
    case (Stranger tk req)
    with Cons.prems have "serve_http lb version hj header_is v tk req b = (unauthorized, b)"
      by (intro stranger_refused [OF v]) simp
    with Cons Stranger show ?thesis by (simp split: prod.split) (metis prod.inject)
  next
    case (Caller tk req i name args)
    with Cons.prems have ask: "bearer_token header_is req = Some token" "asks_for hj (srv_id srv) req i name args"
        and wire: "conveys_calls wi sv srv n ((tk_now tk, name, args) # calls_of vs) w" by simp_all
    from adopted_handles_call [OF Cons.prems(2) id Cons.prems(3) host wire] obtain r a' n' w' where
      h: "\<And>params i. call_params params = Ok (external_name (srv_id srv) name, args) \<Longrightarrow>
        handle_tools_call lb tk i params b =
          (success i (case r of Inr v \<Rightarrow> v | Inl e \<Rightarrow> tool_error_result (aggregator_error_text e)),
           b\<lparr>bk_agg := mutex_new a'\<rparr>)"
      and a': "adopted wi sv srv n' w' a'" "conveys_calls wi sv srv n' (calls_of vs) w'"
      and g: "gated_calls (wi_mail wi) sv srv ((tk_now tk, name, args) # calls_of vs) w =
        (let (rs, w'') = gated_calls (wi_mail wi) sv srv (calls_of vs) w' in (r # rs, w''))" by blast
    have step: "serve_http lb version hj header_is v tk req b = (caller_answer hj i r, b\<lparr>bk_agg := mutex_new a'\<rparr>)"
      unfolding caller_answer_def by (rule caller_handled [OF v ask h]) simp_all
    obtain rs w'' n'' a'' where IH: "gated_calls (wi_mail wi) sv srv (calls_of vs) w' = (rs, w'')"
      "serve_visits lb version hj header_is v vs (b\<lparr>bk_agg := mutex_new a'\<rparr>)
        = (visit_answers hj vs rs, b\<lparr>bk_agg := mutex_new a''\<rparr>)"
      "adopted wi sv srv n'' w'' a''"
      using Cons.IH [of n' w' a' "b\<lparr>bk_agg := mutex_new a'\<rparr>"] Cons.prems(1) a' by auto
    have "gated_calls (wi_mail wi) sv srv (calls_of (vis # vs)) w = (r # rs, w'')"
      using g IH(1) by (simp add: Caller del: gated_calls.simps)
    moreover have "serve_visits lb version hj header_is v (vis # vs) b
        = (visit_answers hj (vis # vs) (r # rs), b\<lparr>bk_agg := mutex_new a''\<rparr>)"
      by (simp add: Caller step IH(2))
    ultimately show ?thesis using IH(3) by blast
  qed
qed

text \<open>
  C8: A daemon that serves a manifest with the mail server in it is, over HTTP, that mail server
  behind the token and the gate. Whoever does not present the token is answered 401 and changes
  nothing; the calls of the others are answered, in order, with the results of the same calls made
  directly on the server's store if the manifest declares the tool \<open>Read\<close>, and refused if not; at
  the end the store is the one these direct calls leave, and nothing else of the broker has changed.
\<close>

theorem daemon_serves_mail:
  assumes started: "serve lb parse sha parse_map version o_s tk () path = (said, Serving ep control b)"
    and host: "lib_host lb = piped_host wi version launch (os_vars o_s)"
    and loaded: "load_from_path parse sha (os_read o_s) path = Ok (one_server srv integrity)"
    and token: "env_var o_s token_env = Some token"
    and delay: "wi_delay wi \<le> default_request_timeout"
    and launch: "launch (srv_command srv) (srv_args srv) (command_env (os_vars o_s) (srv_env srv)) = Ok (sv, w)"
    and wire: "conveys_handshake wi version sv" "conveys_calls wi sv srv 3 (calls_of vs) w"
    and genuine: "list_all (genuine_visit hj header_is token (srv_id srv)) vs"
  shows "\<exists>b' p. serve_visits lb version hj header_is (he_validator ep) vs b =
        (visit_answers hj vs (fst (gated_calls (wi_mail wi) sv srv (calls_of vs) w)), b')
    \<and> b' = b\<lparr>bk_agg := bk_agg b'\<rparr>
    \<and> sm_get (ag_children (guarded (bk_agg b'))) (srv_id srv) = Some p
    \<and> pc_store p = snd (gated_calls (wi_mail wi) sv srv (calls_of vs) w)"
proof -
  from started obtain loaded' validator agg where s:
    "load_from_path parse sha (os_read o_s) path = Ok loaded'"
    "bearer_new (case env_var o_s token_env of Some t \<Rightarrow> t | None \<Rightarrow> []) ''mcp-client'' = Some validator"
    "build (lib_host lb) loaded' () = Ok agg" "he_validator ep = validator"
    "b = handler_new tk (mutex_new agg) notifier_new (snd (load_registry (lib_crypto lb) parse_map o_s))
           (snd (load_audit o_s))"
    by (rule serve_steps)
  have l: "loaded' = one_server srv integrity" using s(1) loaded by simp
  have v: "bearer_new token ''mcp-client'' = Some (he_validator ep)" using s(2,4) token by simp
  have id: "namespace_sep \<notin> set (srv_id srv)"
    using s(3) by (auto simp: l build_def one_server_def split: if_splits)
  from build_adopts [where integrity = integrity and launch = launch, OF id delay launch wire(1)]
  have a: "adopted wi sv srv 3 w agg" using s(3) by (simp add: l host)
  have "host_api (lib_host lb) = piped_api wi" by (simp add: host piped_host_def)
  moreover have "bk_agg b = mutex_new agg" using s(5) by simp
  ultimately obtain rs w' n' a' where
    "gated_calls (wi_mail wi) sv srv (calls_of vs) w = (rs, w')"
    "serve_visits lb version hj header_is (he_validator ep) vs b = (visit_answers hj vs rs, b\<lparr>bk_agg := mutex_new a'\<rparr>)"
    "adopted wi sv srv n' w' a'"
    using adopted_visits [OF v id _ genuine a _ wire(2)] by blast
  then show ?thesis by (auto simp: adopted_def)
qed

subsection \<open>A concrete daemon\<close>

text \<open>
  The daemon over the demonstration server, and four visitors: one without the token, and the three
  calls of \<open>gate_calls\<close> with it.
\<close>

definition gate_libs :: "(unit, fake_store piped, unit) libs" where
  "gate_libs =
     \<lparr>lib_host = piped_host gate_wire ''1'' launch_demo (os_vars demo_os), lib_crypto = lib_crypto demo_libs,
      lib_entry = lib_entry demo_libs, lib_text = lib_text demo_libs\<rparr>"

definition gate_message :: "string \<Rightarrow> json \<Rightarrow> json" where
  "gate_message name args =
     jobj [(''jsonrpc'', JStr ''2.0''), (''id'', JNum (PosInt 1)), (''method'', JStr ''tools/call''),
       (''params'', jobj [(''name'', JStr (external_name ''mail'' name)), (''arguments'', args)])]"

definition gate_http :: http_json where
  "gate_http =
     \<lparr>hj_parse = (\<lambda>body.
        if body = ''a'' then Some (gate_message ''fetch_message'' uid_1)
        else if body = ''b'' then Some (gate_message ''search'' uid_1)
        else if body = ''c'' then Some (gate_message ''fetch_message'' (jobj [])) else None),
      hj_print = (\<lambda>v. Some ''{}''), hj_text = (\<lambda>v. ''{}'')\<rparr>"

definition gate_post :: "string \<Rightarrow> string \<Rightarrow> http_request" where
  "gate_post auth body =
     \<lparr>hq_method = Post, hq_headers = [(''Authorization'', auth)], hq_body = body, hq_body_end = Eof\<rparr>"

definition gate_visits :: "visit list" where
  "gate_visits =
     [Stranger (demo_tick\<lparr>tk_now := 0\<rparr>) (gate_post ''Bearer x'' ''a''),
      Caller (demo_tick\<lparr>tk_now := 0\<rparr>) (gate_post ''Bearer k'' ''a'') (JNum (PosInt 1)) ''fetch_message'' uid_1,
      Caller (demo_tick\<lparr>tk_now := 1\<rparr>) (gate_post ''Bearer k'' ''b'') (JNum (PosInt 1)) ''search'' uid_1,
      Caller (demo_tick\<lparr>tk_now := 2\<rparr>) (gate_post ''Bearer k'' ''c'') (JNum (PosInt 1)) ''fetch_message'' (jobj [])]"

lemma gate_visits_calls: "calls_of gate_visits = gate_calls"
  by (simp add: gate_visits_def gate_calls_def)

lemma gate_bearer: "bearer_token (=) (gate_post (''Bearer '' @ [c]) body) = Some (trim [c])"
  by (simp add: bearer_token_def gate_post_def strip_prefix_def)

lemma gate_genuine: "list_all (genuine_visit gate_http (=) ''k'' ''mail'') gate_visits"
proof -
  have "bearer_token (=) (gate_post ''Bearer x'' body) = Some ''x''"
    "bearer_token (=) (gate_post ''Bearer k'' body) = Some ''k''" for body
    using gate_bearer [of "CHR ''x''" body] gate_bearer [of "CHR ''k''" body]
    by (simp_all add: trim_def trim_end_def ws1_def)
  moreover have "asks_for gate_http ''mail'' (gate_post auth body) (JNum (PosInt 1)) name args"
    if "hj_parse gate_http body = Some (gate_message name args)" "length body = 1" "utf8_valid body"
    for auth body name args
    using that
    by (simp add: asks_for_def gate_post_def read_to_string_def max_body_bytes_def gate_message_def
        jget_jobj call_params_def jobj_def sm_get_collect)
  ultimately show ?thesis
    by (simp add: gate_visits_def gate_http_def utf8_ascii)
qed

abbreviation gate_parse :: "string \<Rightarrow> string + manifest" where
  "gate_parse \<equiv> \<lambda>text. Ok \<lparr>mf_servers = [gate_manifest]\<rparr>"

lemma gate_load: "load_from_path gate_parse (\<lambda>s. []) (os_read demo_os) ''m'' = Ok (one_server gate_manifest [])"
proof -
  have "validate \<lparr>mf_servers = [gate_manifest]\<rparr> = Ok ()" by code_simp
  then show ?thesis
    by (simp add: load_from_path_def load_from_bytes_def demo_os_def max_manifest_bytes_def one_server_def
        sha256_hex_def to_hex_def)
qed

lemma gate_launch:
  "launch_demo (srv_command gate_manifest) (srv_args gate_manifest) (command_env inherited (srv_env gate_manifest))
     = Ok (demo_mail_server, demo_store)"
  by (simp add: gate_manifest_def launch_demo_def)

lemma gate_delay: "wi_delay gate_wire \<le> default_request_timeout"
  by (simp add: gate_wire_def default_request_timeout_def)

lemma gate_token: "env_var demo_os token_env = Some ''k''"
  by (simp add: env_var_def demo_os_def token_env_def utf8_ascii)

lemma gate_serve:
  "\<exists>said ep control b. serve gate_libs gate_parse (\<lambda>s. []) (\<lambda>s. Ok []) ''1'' demo_os demo_tick () ''m'' =
     (said, Serving ep control b)"
proof -
  have id: "namespace_sep \<notin> set (srv_id gate_manifest)" by (simp add: gate_manifest_def namespace_sep_def)
  obtain a where "build (lib_host gate_libs) (one_server gate_manifest []) () = Ok a"
    using build_adopts [where launch = launch_demo and integrity = "[]", OF id gate_delay gate_launch gate_handshake]
    by (auto simp: gate_libs_def)
  moreover have "endpoint_bind (os_bind_http demo_os) l v h nt
      = Ok \<lparr>he_local_addr = l, he_validator = v, he_handler = h, he_notifier = nt\<rparr>"
    for l v nt and h :: "(fake_store piped, unit) mcp_state"
    by (simp add: endpoint_bind_def demo_os_def ok_or.simps)
  ultimately show ?thesis
    by (simp add: serve_def gate_load gate_token bearer_new_def Let_def case_prod_beta)
qed

theorem daemon_serves_mail_witness:
  "\<exists>said ep control b b'. serve gate_libs gate_parse (\<lambda>s. []) (\<lambda>s. Ok []) ''1'' demo_os demo_tick () ''m'' =
      (said, Serving ep control b)
    \<and> serve_visits gate_libs ''1'' gate_http (=) (he_validator ep) gate_visits b =
        ([unauthorized, caller_answer gate_http (JNum (PosInt 1)) (Ok (text_result ''{}'' False)),
          caller_answer gate_http (JNum (PosInt 1)) (Err (NotExposed ''mail.search'')),
          caller_answer gate_http (JNum (PosInt 1))
            (Err (AgChild (ChildRpc INVALID_PARAMS ''missing required argument `uid`'')))], b')"
proof -
  obtain said ep control b where s: "serve gate_libs gate_parse (\<lambda>s. []) (\<lambda>s. Ok []) ''1'' demo_os demo_tick () ''m'' =
      (said, Serving ep control b)" using gate_serve by blast
  have host: "lib_host gate_libs = piped_host gate_wire ''1'' launch_demo (os_vars demo_os)"
    by (simp add: gate_libs_def)
  have id: "srv_id gate_manifest = ''mail''" by (simp add: gate_manifest_def)
  have calls: "conveys_calls gate_wire demo_mail_server gate_manifest 3 (calls_of gate_visits) demo_store"
    by (simp add: gate_visits_calls gate_conveys_calls)
  have "\<exists>b'. serve_visits gate_libs ''1'' gate_http (=) (he_validator ep) gate_visits b =
      (visit_answers gate_http gate_visits
         (fst (gated_calls (wi_mail gate_wire) demo_mail_server gate_manifest (calls_of gate_visits) demo_store)), b')"
    using daemon_serves_mail [where launch = launch_demo, OF s host gate_load gate_token gate_delay gate_launch
        gate_handshake calls, where hj = gate_http and header_is = "(=)"] gate_genuine
    unfolding id by blast
  then obtain b' where b': "serve_visits gate_libs ''1'' gate_http (=) (he_validator ep) gate_visits b =
      (visit_answers gate_http gate_visits
         (fst (gated_calls (wi_mail gate_wire) demo_mail_server gate_manifest gate_calls demo_store)), b')"
    unfolding gate_visits_calls ..
  have "visit_answers gate_http gate_visits
      (fst (gated_calls (wi_mail gate_wire) demo_mail_server gate_manifest gate_calls demo_store)) =
        [unauthorized, caller_answer gate_http (JNum (PosInt 1)) (Ok (text_result ''{}'' False)),
          caller_answer gate_http (JNum (PosInt 1)) (Err (NotExposed ''mail.search'')),
          caller_answer gate_http (JNum (PosInt 1))
            (Err (AgChild (ChildRpc INVALID_PARAMS ''missing required argument `uid`'')))]"
    by (simp add: gate_results gate_fetch_results call_result_def gate_visits_def)
  with s b' show ?thesis by auto
qed

end
