(* ===== verification/Harness.thy ===== *)
theory Harness
  imports AuditLog BrokerCore "HOL-Library.Monad_Syntax" "HOL-Library.Code_Target_Nat"
begin

text \<open>
  The vocabulary in which the repository's own tests are stated over the model. A test is a
  computation in the option monad: \<open>None\<close> is a panic, which is what \<open>unwrap\<close>, \<open>expect\<close>,
  \<open>assert!\<close> and \<open>let ... else { panic! }\<close> do, and \<open>Some ()\<close> is a test that passes. The test
  theories translate the \<open>#[test]\<close> functions of the crates one by one; each lemma says that the
  model passes the test, by evaluation.
\<close>

type_synonym test = "unit option"

definition check :: "bool \<Rightarrow> test" where
  "check b = (if b then Some () else None)"

fun unwrap :: "'e + 'a \<Rightarrow> 'a option" where
  "unwrap (Inl e) = None"
| "unwrap (Inr a) = Some a"

text \<open>\<open>matches!(r, Err(p))\<close>.\<close>

fun fails :: "('e \<Rightarrow> bool) \<Rightarrow> 'e + 'a \<Rightarrow> bool" where
  "fails p (Inl e) = p e"
| "fails p (Inr a) = False"

text \<open>\<open>str::contains\<close>.\<close>

fun str_contains :: "string \<Rightarrow> string \<Rightarrow> bool" where
  "str_contains needle [] = (needle = [])"
| "str_contains needle (c # s) = (starts_with needle (c # s) \<or> str_contains needle s)"

text \<open>\<open>vec[i]\<close>, which panics out of range.\<close>

definition at :: "'a list \<Rightarrow> nat \<Rightarrow> 'a option" where
  "at xs i = (if i < length xs then Some (xs ! i) else None)"

text \<open>\<open>resp["key"]\<close>, which is null for an absent key, and \<open>resp[0]\<close> of an array.\<close>

definition field :: "string \<Rightarrow> json \<Rightarrow> json" where
  "field k v = (case jget v k of None \<Rightarrow> JNull | Some w \<Rightarrow> w)"

definition element :: "nat \<Rightarrow> json \<Rightarrow> json" where
  "element i v = (case Option.bind (as_array v) (\<lambda>xs. at xs i) of None \<Rightarrow> JNull | Some w \<Rightarrow> w)"

lemma check_passes [simp]: "check b = Some u \<longleftrightarrow> b"
  by (simp add: check_def)

lemma unwrap_Some [simp]: "unwrap r = Some a \<longleftrightarrow> r = Ok a"
  by (cases r) simp_all

lemma str_contains_iff: "str_contains needle s \<longleftrightarrow> (\<exists>p q. s = p @ needle @ q)"
proof (induction s)
  case Nil
  then show ?case by simp
next
  case (Cons c s)
  have "(\<exists>p q. c # s = p @ needle @ q) \<longleftrightarrow>
      (\<exists>q. c # s = needle @ q) \<or> (\<exists>p q. s = p @ needle @ q)"
    by (auto simp: Cons_eq_append_conv)
  with Cons.IH show ?case by (simp add: starts_with_iff)
qed

text \<open>
  Evaluation of the saturating addition: the sum wraps around exactly when it is smaller than
  its first summand.
\<close>

lemma sat_add_code [code]: "sat_add a b = (let s = a + b in if s < a then - 1 else s)"
proof -
  have a: "unat a < 2 ^ 64" and b: "unat b < 2 ^ 64"
    using unsigned_less [where 'a = nat and w = a] unsigned_less [where 'a = nat and w = b] by simp_all
  have "a + b < a \<longleftrightarrow> 2 ^ 64 \<le> unat a + unat b"
  proof (cases "2 ^ 64 \<le> unat a + unat b")
    case True
    then have "unat (a + b) = unat a + unat b - 2 ^ 64"
      using a b by (simp add: unat_word_ariths mod_if)
    with True b show ?thesis by (simp add: word_less_nat_alt)
  next
    case False
    then have "unat (a + b) = unat a + unat b" by (simp add: unat_word_ariths)
    with False show ?thesis by (simp add: word_less_nat_alt)
  qed
  then show ?thesis by (simp add: sat_add_def Let_def)
qed

section \<open>Fixtures\<close>

text \<open>
  A manifest literal of a test stands as the value \<open>serde_json\<close> reads from it.
\<close>

definition load :: "manifest \<Rightarrow> manifest_error + loaded_manifest" where
  "load m = load_from_bytes (\<lambda>text. Ok m) (\<lambda>text. []) []"

definition fixture_server :: "string \<Rightarrow> string \<Rightarrow> (string \<times> tool_class) list \<Rightarrow> server_manifest" where
  "fixture_server i command tools =
     \<lparr>srv_id = i, srv_command = command, srv_args = [], srv_env = [], srv_tools = sm_collect tools\<rparr>"

text \<open>\<open>state.server_mut("mail").unwrap()\<close> and an update through the reference.\<close>

definition on_server :: "string \<Rightarrow> (server_slot \<Rightarrow> server_slot) \<Rightarrow> broker_state \<Rightarrow> broker_state option" where
  "on_server i f b = (case server b i of None \<Rightarrow> None | Some s \<Rightarrow> Some (server_mut i f b))"

text \<open>
  The tag \<open>serde\<close> writes for an event (\<open>rename_all = "snake_case"\<close>) and the fields it prints
  after it; an entry of the tape printed with them, in the order of the fields.
\<close>

fun event_tag :: "audit_event \<Rightarrow> string" where
  "event_tag (ElevationGranted s c m) = ''elevation_granted''"
| "event_tag (ElevationRevoked s r) = ''elevation_revoked''"
| "event_tag (ConfirmApproved s t) = ''confirm_approved''"
| "event_tag (WriteToolInvoked s t) = ''write_tool_invoked''"
| "event_tag (ConfirmRejected s t) = ''confirm_rejected''"
| "event_tag (ElevationDenied s c r) = ''elevation_denied''"

fun event_fields :: "audit_event \<Rightarrow> (string \<times> string) list" where
  "event_fields (ElevationGranted s c m) = [(''server_id'', s), (''client_id'', c), (''mode'', m)]"
| "event_fields (ElevationRevoked s r) = [(''server_id'', s), (''reason'', r)]"
| "event_fields (ConfirmApproved s t) = [(''server_id'', s), (''tool'', t)]"
| "event_fields (WriteToolInvoked s t) = [(''server_id'', s), (''tool'', t)]"
| "event_fields (ConfirmRejected s t) = [(''server_id'', s), (''tool'', t)]"
| "event_fields (ElevationDenied s c r) = [(''server_id'', s), (''client_id'', c), (''reason'', r)]"

definition json_string :: "string \<Rightarrow> string" where
  "json_string s = CHR 0x22 # s @ [CHR 0x22]"

definition fixture_entry :: "u64 \<Rightarrow> audit_event \<Rightarrow> string option" where
  "fixture_entry ts ev =
     Some (''{'' @ json_string ''ts'' @ '':'' @ dec (unat ts) @ concat
       (map (\<lambda>(k, v). '','' @ json_string k @ '':'' @ json_string v) ((''event'', event_tag ev) # event_fields ev)) @ ''}'')"

end
