(* ===== verification/CoreTests.thy ===== *)
theory CoreTests
  imports Harness ExecPlatform Auth
begin

text \<open>
  The tests of \<open>crates/core\<close>: \<open>policy.rs\<close>, \<open>broker.rs\<close>, \<open>manifest.rs\<close>, \<open>auth.rs\<close>, \<open>audit.rs\<close>,
  \<open>exec.rs\<close>, \<open>error.rs\<close>, \<open>platform/macos.rs\<close> and the fail-closed invariants of
  \<open>tests/fail_closed.rs\<close>, under the names they have there. The tests of the JSON parser itself
  (unknown fields, unknown classes) and of SHA-256 are about libraries and not among them.
\<close>

section \<open>\<open>policy.rs\<close>\<close>

definition policy_tools :: "classified_tool list" where
  "policy_tools =
     (let m = sm_collect [(''read_a'', Read), (''write_b'', Write), (''send_c'', Confirm)]
      in classify_advertised m [''read_a'', ''write_b'', ''send_c'', ''undeclared_d''])"

definition undeclared_tool_defaults_to_write :: test where
  "undeclared_tool_defaults_to_write = do {
     d \<leftarrow> find (\<lambda>t. ct_name t = ''undeclared_d'') policy_tools;
     check (ct_class d = Write) }"

definition without_elevation_only_read_tools_are_exposed :: test where
  "without_elevation_only_read_tools_are_exposed =
     check (resolve_exposure policy_tools Running None 100 = [''read_a''])"

definition active_elevation_exposes_write_and_confirm_too :: test where
  "active_elevation_exposes_write_and_confirm_too =
     (let e = for_duration 100 60
      in check (resolve_exposure policy_tools Running (Some e) 120
           = [''read_a'', ''send_c'', ''undeclared_d'', ''write_b'']))"

definition expired_elevation_falls_back_to_read_only :: test where
  "expired_elevation_falls_back_to_read_only =
     (let e = for_duration 100 60 in do {
        check (resolve_exposure policy_tools Running (Some e) 160 = [''read_a'']);
        check (resolve_exposure policy_tools Running (Some e) 9999 = [''read_a'']) })"

definition paused_and_stopped_expose_nothing_even_when_elevated :: test where
  "paused_and_stopped_expose_nothing_even_when_elevated =
     (let e = for_duration 100 600
      in check (list_all (\<lambda>st. resolve_exposure policy_tools st (Some e) 120 = []) [Paused, Stopped]))"

definition until_revoked_is_active_until_revoked :: test where
  "until_revoked_is_active_until_revoked =
     (let e = until_revoked 100 in do {
        check (is_active e 1000000);
        check (mode e = UntilRevoked) })"

definition duration_saturates_and_stays_bounded :: test where
  "duration_saturates_and_stays_bounded =
     (let e = for_duration 10 (- 1) in do {
        check (expires_at e = Some (- 1));
        check (mode e = Duration) })"

lemma policy_tests:
  "undeclared_tool_defaults_to_write = Some ()"
  "without_elevation_only_read_tools_are_exposed = Some ()"
  "active_elevation_exposes_write_and_confirm_too = Some ()"
  "expired_elevation_falls_back_to_read_only = Some ()"
  "paused_and_stopped_expose_nothing_even_when_elevated = Some ()"
  "until_revoked_is_active_until_revoked = Some ()"
  "duration_saturates_and_stays_bounded = Some ()"
  by code_simp+

section \<open>\<open>broker.rs\<close>\<close>

definition broker_fixture :: manifest where
  "broker_fixture = \<lparr>mf_servers = [fixture_server ''mail'' ''mcp-lock-mail''
     [(''search'', Read), (''fetch_message'', Read), (''send_message'', Confirm),
      (''delete_message'', Write)]]\<rparr>"

definition loaded_state :: "manifest \<Rightarrow> broker_state option" where
  "loaded_state m = map_option from_manifest (unwrap (load m))"

definition cold_start_has_zero_elevations_and_is_read_only :: test where
  "cold_start_has_zero_elevations_and_is_read_only = do {
     b \<leftarrow> loaded_state broker_fixture;
     check (elevation_count b = 0);
     mail \<leftarrow> server b ''mail'';
     check (exposed mail 0 = [''fetch_message'', ''search'']) }"

definition granting_elevation_exposes_write_and_confirm :: test where
  "granting_elevation_exposes_write_and_confirm = do {
     b \<leftarrow> loaded_state broker_fixture;
     b \<leftarrow> on_server ''mail'' (grant_elevation (for_duration 0 300)) b;
     mail \<leftarrow> server b ''mail'';
     check (exposed mail 100 = [''delete_message'', ''fetch_message'', ''search'', ''send_message'']) }"

definition fault_reverts_to_read_only :: test where
  "fault_reverts_to_read_only = do {
     b \<leftarrow> loaded_state broker_fixture;
     b \<leftarrow> on_server ''mail'' (grant_elevation (for_duration 0 300)) b;
     mail \<leftarrow> server b ''mail'';
     check (length (exposed mail 100) = 4);
     b \<leftarrow> on_server ''mail'' fail_closed b;
     mail \<leftarrow> server b ''mail'';
     check (exposed mail 100 = [''fetch_message'', ''search'']);
     check (elevation_count b = 0) }"

definition expiry_reverts_to_read_only_without_any_action :: test where
  "expiry_reverts_to_read_only_without_any_action = do {
     b \<leftarrow> loaded_state broker_fixture;
     b \<leftarrow> on_server ''mail'' (grant_elevation (for_duration 0 300)) b;
     mail \<leftarrow> server b ''mail'';
     check (length (exposed mail 299) = 4);
     check (exposed mail 300 = [''fetch_message'', ''search'']) }"

definition pause_and_stop_immediately_reduce_exposure :: test where
  "pause_and_stop_immediately_reduce_exposure = do {
     b \<leftarrow> loaded_state broker_fixture;
     b \<leftarrow> on_server ''mail'' (grant_elevation (for_duration 0 300)) b;
     b \<leftarrow> on_server ''mail'' (set_slot_state Paused) b;
     mail \<leftarrow> server b ''mail'';
     check (exposed mail 100 = []);
     b \<leftarrow> on_server ''mail'' (set_slot_state Stopped) b;
     mail \<leftarrow> server b ''mail'';
     check (exposed mail 100 = []) }"

definition resume_re_exposes_read_tools_only_not_the_old_elevation :: test where
  "resume_re_exposes_read_tools_only_not_the_old_elevation = do {
     b \<leftarrow> loaded_state broker_fixture;
     b \<leftarrow> on_server ''mail'' (grant_elevation (for_duration 0 300)) b;
     b \<leftarrow> on_server ''mail'' (set_slot_state Paused) b;
     b \<leftarrow> on_server ''mail'' (set_slot_state Running) b;
     mail \<leftarrow> server b ''mail'';
     check (length (exposed mail 100) = 4) }"

definition restart_does_not_carry_elevation :: test where
  "restart_does_not_carry_elevation = do {
     b \<leftarrow> loaded_state broker_fixture;
     b \<leftarrow> on_server ''mail'' (grant_elevation (until_revoked 0)) b;
     check (elevation_count b = 1);
     after \<leftarrow> loaded_state broker_fixture;
     check (elevation_count after = 0);
     mail \<leftarrow> server after ''mail'';
     check (exposed mail 1000000 = [''fetch_message'', ''search'']) }"

definition confirm_tools_are_flagged_for_per_action_presence :: test where
  "confirm_tools_are_flagged_for_per_action_presence = do {
     b \<leftarrow> loaded_state broker_fixture;
     mail \<leftarrow> server b ''mail'';
     t \<leftarrow> find (\<lambda>t. ct_name t = ''send_message'') (slot_tools mail);
     check (ct_class t = Confirm);
     check (requires_per_action_presence (ct_class t)) }"

definition exposure_snapshot_tracks_changes :: test where
  "exposure_snapshot_tracks_changes = do {
     b \<leftarrow> loaded_state broker_fixture;
     let before = exposure_snapshot b 100;
     b \<leftarrow> on_server ''mail'' (grant_elevation (for_duration 0 300)) b;
     check (before \<noteq> exposure_snapshot b 100) }"

definition undeclared_advertised_tool_is_gated :: test where
  "undeclared_advertised_tool_is_gated =
     (let tools = [\<lparr>ct_name = ''read_x'', ct_class = Read\<rparr>, classify [] ''surprise_tool''];
          slot = new_running ''s'' tools
      in do {
        check (exposed slot 0 = [''read_x'']);
        let slot = grant_elevation (until_revoked 0) slot;
        check (exposed slot 0 = [''read_x'', ''surprise_tool'']) })"

lemma broker_tests:
  "cold_start_has_zero_elevations_and_is_read_only = Some ()"
  "granting_elevation_exposes_write_and_confirm = Some ()"
  "fault_reverts_to_read_only = Some ()"
  "expiry_reverts_to_read_only_without_any_action = Some ()"
  "pause_and_stop_immediately_reduce_exposure = Some ()"
  "resume_re_exposes_read_tools_only_not_the_old_elevation = Some ()"
  "restart_does_not_carry_elevation = Some ()"
  "confirm_tools_are_flagged_for_per_action_presence = Some ()"
  "exposure_snapshot_tracks_changes = Some ()"
  "undeclared_advertised_tool_is_gated = Some ()"
  by code_simp+

section \<open>\<open>manifest.rs\<close>\<close>

definition sample_manifest :: manifest where
  "sample_manifest = \<lparr>mf_servers = [fixture_server ''mail'' ''mcp-lock-mail''
     [(''search'', Read), (''list_messages'', Read), (''fetch_message'', Read),
      (''send_message'', Confirm)]]\<rparr>"

fun is_invalid :: "manifest_error \<Rightarrow> bool" where
  "is_invalid (MfInvalid e) = True"
| "is_invalid (MfParse e) = False"
| "is_invalid (MfIo e) = False"

text \<open>The server \<open>x\<close> with one environment variable.\<close>

definition env_manifest :: "string \<Rightarrow> string \<Rightarrow> manifest" where
  "env_manifest key val = \<lparr>mf_servers = [(fixture_server ''x'' ''a'' [])\<lparr>srv_env := [(key, val)]\<rparr>]\<rparr>"

definition loads_and_classifies_from_manifest :: test where
  "loads_and_classifies_from_manifest = do {
     l \<leftarrow> unwrap (load sample_manifest);
     srv \<leftarrow> manifest_server (lm_manifest l) ''mail'';
     check (sm_get (srv_tools srv) ''search'' = Some Read);
     check (sm_get (srv_tools srv) ''send_message'' = Some Confirm);
     c \<leftarrow> sm_get (srv_tools srv) ''send_message'';
     check (requires_per_action_presence c) }"

definition rejects_duplicate_ids :: test where
  "rejects_duplicate_ids =
     check (fails is_invalid (load \<lparr>mf_servers = [fixture_server ''x'' ''a'' [], fixture_server ''x'' ''b'' []]\<rparr>))"

definition rejects_empty_command :: test where
  "rejects_empty_command = check (fails is_invalid (load \<lparr>mf_servers = [fixture_server ''x'' [] []]\<rparr>))"

definition empty_manifest_is_valid :: test where
  "empty_manifest_is_valid = do {
     l \<leftarrow> unwrap (load \<lparr>mf_servers = []\<rparr>);
     check (mf_servers (lm_manifest l) = []) }"

definition rejects_loader_injection_env_keys :: test where
  "rejects_loader_injection_env_keys =
     check (list_all (\<lambda>key. fails is_invalid (load (env_manifest key ''/evil'')))
       [''LD_PRELOAD'', ''DYLD_INSERT_LIBRARIES'', ''dyld_library_path''])"

definition rejects_malformed_env_keys :: test where
  "rejects_malformed_env_keys =
     check (list_all (\<lambda>key. fails is_invalid (load (env_manifest key ''v'')))
       [[], ''HAS=EQUALS'', ''HAS SPACE''])"

definition accepts_normal_env_keys :: test where
  "accepts_normal_env_keys =
     check (is_ok (load \<lparr>mf_servers = [(fixture_server ''x'' ''a'' [])
       \<lparr>srv_env := sm_collect [(''IMAP_HOST'', ''mail.example.com''), (''RUST_LOG'', ''info'')]\<rparr>]\<rparr>))"

definition rejects_overlong_id :: test where
  "rejects_overlong_id =
     (let long_id = replicate (max_id_len + 1) CHR ''x''
      in check (fails is_invalid (load \<lparr>mf_servers = [fixture_server long_id ''a'' []]\<rparr>)))"

definition rejects_oversized_manifest :: "(string \<Rightarrow> string + manifest) \<Rightarrow> (string \<Rightarrow> u8 list) \<Rightarrow> test" where
  "rejects_oversized_manifest parse sha =
     check (fails is_invalid (load_from_bytes parse sha (replicate (max_manifest_bytes + 1) CHR '' '')))"

definition hint_prefill_fails_safe :: test where
  "hint_prefill_fails_safe = do {
     check (propose_from_hint (Some True) = Read);
     check (propose_from_hint (Some False) = Write);
     check (propose_from_hint None = Write) }"

lemma manifest_tests:
  "loads_and_classifies_from_manifest = Some ()"
  "rejects_duplicate_ids = Some ()"
  "rejects_empty_command = Some ()"
  "empty_manifest_is_valid = Some ()"
  "rejects_loader_injection_env_keys = Some ()"
  "rejects_malformed_env_keys = Some ()"
  "accepts_normal_env_keys = Some ()"
  "rejects_overlong_id = Some ()"
  "hint_prefill_fails_safe = Some ()"
  by code_simp+

text \<open>
  The digest test for any manifest text that loads, and a changed text that loads: the integrity
  hash is 64 characters, the same for the same bytes, and another one when the digest differs.
\<close>

definition integrity_hash_is_stable_and_sensitive ::
  "(string \<Rightarrow> string + manifest) \<Rightarrow> (string \<Rightarrow> u8 list) \<Rightarrow> string \<Rightarrow> string \<Rightarrow> test" where
  "integrity_hash_is_stable_and_sensitive parse sha sample mutated = do {
     a \<leftarrow> unwrap (load_from_bytes parse sha sample);
     b \<leftarrow> unwrap (load_from_bytes parse sha sample);
     check (lm_integrity a = lm_integrity b);
     check (length (lm_integrity a) = 64);
     c \<leftarrow> unwrap (load_from_bytes parse sha mutated);
     check (lm_integrity a \<noteq> lm_integrity c) }"

lemma integrity_test:
  assumes "load_from_bytes parse sha sample = Ok a" and "load_from_bytes parse sha mutated = Ok c"
    and "length (sha sample) = 32" and "sha sample \<noteq> sha mutated"
  shows "integrity_hash_is_stable_and_sensitive parse sha sample mutated = Some ()"
proof -
  have "lm_integrity a = to_hex (sha sample)" "lm_integrity c = to_hex (sha mutated)"
    using assms(1,2) by (simp_all add: load_from_bytes_ok)
  then show ?thesis
    using assms(3,4)
    by (simp add: integrity_hash_is_stable_and_sensitive_def assms(1,2) to_hex_inj check_def)
qed

text \<open>The oversized blob is refused whatever the parser and the digest would make of it.\<close>

lemma oversized_test: "rejects_oversized_manifest parse sha = Some ()"
  by (simp add: rejects_oversized_manifest_def load_from_bytes_def)

section \<open>\<open>auth.rs\<close>\<close>

definition scrub_zeroes_the_buffer :: test where
  "scrub_zeroes_the_buffer = check (list_all (\<lambda>b. b = 0) (scrub (as_bytes ''s3cr3t-placeholder'')))"

definition accepts_the_configured_token :: test where
  "accepts_the_configured_token = do {
     v \<leftarrow> bearer_new ''s3cr3t-placeholder'' ''claude-client'';
     client \<leftarrow> unwrap (validate_bearer v (Some ''s3cr3t-placeholder''));
     check (client_id client = ''claude-client'') }"

definition rejects_a_wrong_token :: test where
  "rejects_a_wrong_token = do {
     v \<leftarrow> bearer_new ''s3cr3t-placeholder'' ''c'';
     check (validate_bearer v (Some ''wrong'') = Err Invalid);
     check (validate_bearer v (Some ''s3cr3t-placeholde'') = Err Invalid);
     check (validate_bearer v (Some ''s3cr3t-placeholder-extra'') = Err Invalid) }"

definition rejects_missing_or_empty_credential :: test where
  "rejects_missing_or_empty_credential = do {
     v \<leftarrow> bearer_new ''s3cr3t-placeholder'' ''c'';
     check (validate_bearer v None = Err Missing);
     check (validate_bearer v (Some []) = Err Missing) }"

definition ships_closed_on_empty_configured_token :: test where
  "ships_closed_on_empty_configured_token = check (bearer_new [] ''c'' = None)"

definition debug_does_not_leak_the_token :: test where
  "debug_does_not_leak_the_token = do {
     v \<leftarrow> bearer_new ''top-secret-placeholder'' ''c'';
     client \<leftarrow> unwrap (validate_bearer v (Some ''top-secret-placeholder''));
     let rendered = debug_validated_client (\<lambda>u. u) client;
     check (\<not> str_contains ''top-secret-placeholder'' rendered) }"

text \<open>The same for the validator, which does hold the token.\<close>

definition validator_debug_does_not_leak :: test where
  "validator_debug_does_not_leak = do {
     v \<leftarrow> bearer_new ''top-secret-placeholder'' ''c'';
     let rendered = debug_static_bearer (\<lambda>u. u) v;
     check (\<not> str_contains ''top-secret-placeholder'' rendered);
     check (str_contains ''<redacted>'' rendered) }"

definition constant_time_eq_matches_semantics :: test where
  "constant_time_eq_matches_semantics = do {
     check (constant_time_eq (as_bytes ''abc'') (as_bytes ''abc''));
     check (\<not> constant_time_eq (as_bytes ''abc'') (as_bytes ''abd''));
     check (\<not> constant_time_eq (as_bytes ''abc'') (as_bytes ''ab''));
     check (constant_time_eq (as_bytes []) (as_bytes [])) }"

definition trait_object_is_usable_as_a_seam :: test where
  "trait_object_is_usable_as_a_seam = do {
     v \<leftarrow> map_option validate_bearer (bearer_new ''tok-placeholder'' ''c'');
     check (is_ok (v (Some ''tok-placeholder'')));
     check (\<not> is_ok (v (Some ''nope''))) }"

lemma auth_tests:
  "scrub_zeroes_the_buffer = Some ()"
  "accepts_the_configured_token = Some ()"
  "rejects_a_wrong_token = Some ()"
  "rejects_missing_or_empty_credential = Some ()"
  "ships_closed_on_empty_configured_token = Some ()"
  "constant_time_eq_matches_semantics = Some ()"
  "trait_object_is_usable_as_a_seam = Some ()"
  "debug_does_not_leak_the_token = Some ()"
  "validator_debug_does_not_leak = Some ()"
  by code_simp+

section \<open>\<open>audit.rs\<close>\<close>

text \<open>A record whose writes all succeed, at the wall-clock second 9.\<close>

definition tape_event :: "audit_event \<Rightarrow> audit_log \<Rightarrow> audit_log" where
  "tape_event ev log = audit_record fixture_entry (Some 9) (None, None) ev log"

definition records_appear_in_recent_in_order :: test where
  "records_appear_in_recent_in_order =
     (let log = tape_event (ElevationGranted ''mail'' ''client-1'' ''duration'') audit_in_memory;
          log = tape_event (WriteToolInvoked ''mail'' ''send_message'') log;
          recent = audit_recent 10 log
      in do {
        check (length recent = 2);
        first \<leftarrow> at recent 0;
        second \<leftarrow> at recent 1;
        check (str_contains ''elevation_granted'' first);
        check (str_contains (json_string ''ts'' @ '':'') first);
        check (str_contains ''write_tool_invoked'' second);
        check (str_contains ''send_message'' second) })"

text \<open>The file is absent before the log opens it, so it opens empty.\<close>

definition file_backed_log_persists_lines :: test where
  "file_backed_log_persists_lines = do {
     log \<leftarrow> unwrap (audit_to_file (Inr []));
     let log = tape_event (ConfirmApproved ''mail'' ''delete_message'') log;
     let contents = tape log;
     check (str_contains ''confirm_approved'' contents);
     check (str_contains ''delete_message'' contents);
     check (length (filter (\<lambda>c. c = CHR 0x0A) contents) = 1) }"

definition records_denied_attempts_for_incident_review :: test where
  "records_denied_attempts_for_incident_review =
     (let log = tape_event (ElevationDenied ''mail'' ''attacker'' ''bad signature'') audit_in_memory;
          recent = audit_recent 10 log
      in do {
        check (length recent = 1);
        line \<leftarrow> at recent 0;
        check (str_contains ''elevation_denied'' line);
        check (str_contains ''bad signature'' line);
        check (str_contains ''attacker'' line) })"

definition recent_respects_limit :: test where
  "recent_respects_limit =
     (let log = (tape_event (ElevationRevoked ''mail'' ''operator'') ^^ 5) audit_in_memory
      in do {
        check (length (audit_recent 2 log) = 2);
        check (length (audit_recent 100 log) = 5) })"

lemma audit_tests:
  "records_appear_in_recent_in_order = Some ()"
  "file_backed_log_persists_lines = Some ()"
  "records_denied_attempts_for_incident_review = Some ()"
  "recent_respects_limit = Some ()"
  by code_simp+

section \<open>\<open>error.rs\<close>, \<open>exec.rs\<close> and \<open>platform/macos.rs\<close>\<close>

definition unsupported_names_the_capability :: test where
  "unsupported_names_the_capability =
     check (str_contains ''presence'' (platform_error_text (unsupported ''presence'')))"

definition os_error_exposes_its_source :: test where
  "os_error_exposes_its_source = check (platform_error_source (OsError ''spawn child'' ''boom'') \<noteq> None)"

definition first_party_is_broker_identity_and_unsandboxed :: test where
  "first_party_is_broker_identity_and_unsandboxed =
     (let ctx = first_party [] in do {
        check (ec_identity ctx = BrokerServiceAccount);
        check (\<not> is_sandboxed ctx);
        check (ec_scoped_credentials ctx = []) })"

definition credentials_are_scoped_to_the_child_that_is_granted_them :: test where
  "credentials_are_scoped_to_the_child_that_is_granted_them =
     (let ctx = first_party [\<lparr>cg_key_name = ''mail.imap_password'', cg_env_var = ''IMAP_PASSWORD''\<rparr>]
      in do {
        check (length (ec_scoped_credentials ctx) = 1);
        c \<leftarrow> at (ec_scoped_credentials ctx) 0;
        check (cg_env_var c = ''IMAP_PASSWORD'') })"

definition presence_stub_fails_closed :: test where
  "presence_stub_fails_closed = check (\<not> is_ok (macos_assert_presence ''client-1'' (as_bytes ''challenge'')))"

definition key_store_stub_fails_closed :: test where
  "key_store_stub_fails_closed = check (\<not> is_ok (macos_get_secret ''mail.imap_password''))"

definition peer_verifier_stub_fails_closed :: test where
  "peer_verifier_stub_fails_closed = check (\<not> is_ok (macos_verify_peer (- 1)))"

definition isolator_is_noop_for_unsandboxed_v1_context :: test where
  "isolator_is_noop_for_unsandboxed_v1_context =
     (let ctx = first_party [] in check (is_ok (macos_prepare ctx)))"

lemma platform_tests:
  "unsupported_names_the_capability = Some ()"
  "os_error_exposes_its_source = Some ()"
  "first_party_is_broker_identity_and_unsandboxed = Some ()"
  "credentials_are_scoped_to_the_child_that_is_granted_them = Some ()"
  "presence_stub_fails_closed = Some ()"
  "key_store_stub_fails_closed = Some ()"
  "peer_verifier_stub_fails_closed = Some ()"
  "isolator_is_noop_for_unsandboxed_v1_context = Some ()"
  by code_simp+

section \<open>\<open>tests/fail_closed.rs\<close>\<close>

definition invariant_manifest :: manifest where
  "invariant_manifest = \<lparr>mf_servers = [fixture_server ''mail'' ''mcp-lock-mail''
     [(''search'', Read), (''list_messages'', Read), (''fetch_message'', Read),
      (''send_message'', Confirm), (''delete_message'', Write)]]\<rparr>"

definition fresh :: "broker_state option" where
  "fresh = loaded_state invariant_manifest"

definition read_only :: "string list" where
  "read_only = [''fetch_message'', ''list_messages'', ''search'']"

definition cold_start_is_read_only_with_zero_elevations :: test where
  "cold_start_is_read_only_with_zero_elevations = do {
     b \<leftarrow> fresh;
     check (elevation_count b = 0);
     mail \<leftarrow> server b ''mail'';
     check (exposed mail 0 = read_only) }"

definition elevation_never_survives_restart :: test where
  "elevation_never_survives_restart = do {
     b \<leftarrow> fresh;
     b \<leftarrow> on_server ''mail'' (grant_elevation (until_revoked 0)) b;
     check (elevation_count b = 1);
     after \<leftarrow> fresh;
     check (elevation_count after = 0);
     mail \<leftarrow> server after ''mail'';
     check (exposed mail (- 1) = read_only) }"

definition any_fault_reverts_to_read_only :: test where
  "any_fault_reverts_to_read_only = do {
     b \<leftarrow> fresh;
     b \<leftarrow> on_server ''mail'' (grant_elevation (for_duration 0 600)) b;
     mail \<leftarrow> server b ''mail'';
     check (length (exposed mail 1) = 5);
     b \<leftarrow> on_server ''mail'' fail_closed b;
     mail \<leftarrow> server b ''mail'';
     check (exposed mail 1 = read_only) }"

text \<open>The loop over the two states a server can go down to, on the same state.\<close>

fun going_down :: "server_state list \<Rightarrow> broker_state \<Rightarrow> test" where
  "going_down [] b = Some ()"
| "going_down (down # ds) b = do {
     b \<leftarrow> on_server ''mail'' (set_slot_state down) b;
     mail \<leftarrow> server b ''mail'';
     check (exposed mail 1 = []);
     going_down ds b }"

definition pause_and_stop_recompute_exposure_downward :: test where
  "pause_and_stop_recompute_exposure_downward = do {
     b \<leftarrow> fresh;
     b \<leftarrow> on_server ''mail'' (grant_elevation (for_duration 0 600)) b;
     going_down [Paused, Stopped] b }"

definition elevation_expiry_is_fail_closed_at_the_boundary :: test where
  "elevation_expiry_is_fail_closed_at_the_boundary = do {
     b \<leftarrow> fresh;
     b \<leftarrow> on_server ''mail'' (grant_elevation (for_duration 100 60)) b;
     mail \<leftarrow> server b ''mail'';
     check (length (exposed mail 159) = 5);
     check (exposed mail 160 = read_only) }"

definition confirm_tools_are_flagged_even_when_exposed :: test where
  "confirm_tools_are_flagged_even_when_exposed = do {
     b \<leftarrow> fresh;
     b \<leftarrow> on_server ''mail'' (grant_elevation (for_duration 0 600)) b;
     mail \<leftarrow> server b ''mail'';
     check (''send_message'' \<in> set (exposed mail 1));
     t \<leftarrow> find (\<lambda>t. ct_name t = ''send_message'') (slot_tools mail);
     check (requires_per_action_presence (ct_class t)) }"

definition first_run_ships_closed :: test where
  "first_run_ships_closed = do {
     b \<leftarrow> fresh;
     mail \<leftarrow> server b ''mail'';
     check (''send_message'' \<notin> set (exposed mail 0));
     check (''delete_message'' \<notin> set (exposed mail 0));
     check (exposed mail 0 = read_only) }"

lemma fail_closed_tests:
  "cold_start_is_read_only_with_zero_elevations = Some ()"
  "elevation_never_survives_restart = Some ()"
  "any_fault_reverts_to_read_only = Some ()"
  "pause_and_stop_recompute_exposure_downward = Some ()"
  "elevation_expiry_is_fail_closed_at_the_boundary = Some ()"
  "confirm_tools_are_flagged_even_when_exposed = Some ()"
  "first_run_ships_closed = Some ()"
  by code_simp+

end
