(* ===== verification/AggregatorTests.thy ===== *)
theory AggregatorTests
  imports Harness Aggregator
begin

text \<open>
  The tests of \<open>crates/broker/src/aggregator.rs\<close>, with their fake child: an in-process child
  with fixed tools that echoes calls back, whose faults are configurable.
\<close>

section \<open>The fake child\<close>

record fake_child =
  fc_tools :: "tool_def list"
  fc_call_error :: "child_error option"
  fc_alive :: bool

definition with_tools :: "string list \<Rightarrow> fake_child" where
  "with_tools ns =
     \<lparr>fc_tools = map (\<lambda>n. \<lparr>td_name = n,
        td_definition = jobj [(''name'', JStr n), (''description'', JStr (''tool '' @ n))]\<rparr>) ns,
      fc_call_error = None, fc_alive = True\<rparr>"

definition failing :: "child_error \<Rightarrow> fake_child \<Rightarrow> fake_child" where
  "failing e c = c\<lparr>fc_call_error := Some e\<rparr>"

definition dead :: "fake_child \<Rightarrow> fake_child" where
  "dead c = c\<lparr>fc_alive := False\<rparr>"

definition fake_list_tools :: "fake_child \<Rightarrow> (child_error + tool_def list) \<times> fake_child" where
  "fake_list_tools c = (Ok (fc_tools c), c)"

text \<open>\<open>Option::take\<close> leaves \<open>None\<close>, so a failing child fails once.\<close>

definition fake_call_tool :: "fake_child \<Rightarrow> string \<Rightarrow> json \<Rightarrow> (child_error + json) \<times> fake_child" where
  "fake_call_tool c name arguments =
     (case fc_call_error c of
        Some e \<Rightarrow> (Err e, c\<lparr>fc_call_error := None\<rparr>)
      | None \<Rightarrow> (Ok (jobj [(''called'', JStr name), (''arguments'', arguments)]), c))"

definition fake_is_alive :: "fake_child \<Rightarrow> bool \<times> fake_child" where
  "fake_is_alive c = (fc_alive c, c)"

definition fake_child_api :: "fake_child child_api" where
  "fake_child_api = \<lparr>api_list_tools = fake_list_tools, api_call_tool = fake_call_tool,
     api_is_alive = fake_is_alive\<rparr>"

text \<open>The spawner closures of the tests capture nothing that changes.\<close>

definition spawner :: "(server_manifest \<Rightarrow> child_error + fake_child) \<Rightarrow> (fake_child, unit) host" where
  "spawner f = \<lparr>host_spawn = (\<lambda>srv sp. (f srv, sp)), host_api = fake_child_api\<rparr>"

lemma with_tools_named: "t \<in> set (fc_tools (with_tools ns)) \<Longrightarrow> carries_name t"
  by (auto simp: with_tools_def carries_name_def jget_jobj)

section \<open>Fixtures\<close>

type_synonym fake_aggregator = "(fake_child, unit) aggregator"

definition aggregator_fixture :: manifest where
  "aggregator_fixture = \<lparr>mf_servers = [fixture_server ''mail'' ''mcp-lock-mail''
     [(''search'', Read), (''fetch_message'', Read), (''delete_message'', Write)]]\<rparr>"

definition build_with :: "manifest \<Rightarrow> (server_manifest \<Rightarrow> child_error + fake_child) \<Rightarrow> fake_aggregator option" where
  "build_with m f = do {
     loaded \<leftarrow> unwrap (load m);
     unwrap (build (spawner f) loaded ()) }"

definition all_tools :: "server_manifest \<Rightarrow> child_error + fake_child" where
  "all_tools srv = Ok (with_tools [''search'', ''fetch_message'', ''delete_message'', ''undeclared''])"

definition build_with_fake :: "fake_aggregator option" where
  "build_with_fake = build_with aggregator_fixture all_tools"

text \<open>\<open>t["name"].as_str().unwrap()\<close> of every tool, sorted.\<close>

definition tool_names :: "json list \<Rightarrow> string list option" where
  "tool_names tools = map_option sort (those (map (\<lambda>t. Option.bind (jget t ''name'') as_str) tools))"

definition on_slot :: "string \<Rightarrow> (server_slot \<Rightarrow> server_slot) \<Rightarrow> fake_aggregator \<Rightarrow> fake_aggregator option" where
  "on_slot i f agg = map_option (\<lambda>b. agg\<lparr>ag_state := b\<rparr>) (on_server i f (ag_state agg))"

definition call_at :: "string \<Rightarrow> json \<Rightarrow> timestamp \<Rightarrow> fake_aggregator \<Rightarrow> (aggregator_error + json) \<times> fake_aggregator" where
  "call_at external args now agg = call fake_child_api external args now agg"

text \<open>The variant of an error, without its fields.\<close>

datatype error_variant = VInvalidServerId | VUnknownServer | VUnknownTool | VNotExposed | VNotConfirmed | VChild

fun variant :: "aggregator_error \<Rightarrow> error_variant" where
  "variant (InvalidServerId i) = VInvalidServerId"
| "variant (UnknownServer i) = VUnknownServer"
| "variant (UnknownTool i) = VUnknownTool"
| "variant (NotExposed i) = VNotExposed"
| "variant (NotConfirmed i) = VNotConfirmed"
| "variant (AgChild e) = VChild"

definition fails_as :: "error_variant \<Rightarrow> aggregator_error + 'a \<Rightarrow> bool" where
  "fails_as v r = fails (\<lambda>e. variant e = v) r"

section \<open>The tests\<close>

definition aggregated_tools_are_namespaced_and_read_only_by_default :: test where
  "aggregated_tools_are_namespaced_and_read_only_by_default = do {
     agg \<leftarrow> build_with_fake;
     check (tool_names (aggregated_tools agg 0) = Some [''mail.fetch_message'', ''mail.search'']) }"

definition elevation_exposes_write_and_default_denied_tools :: test where
  "elevation_exposes_write_and_default_denied_tools = do {
     agg \<leftarrow> build_with_fake;
     agg \<leftarrow> on_slot ''mail'' (grant_elevation (for_duration 0 300)) agg;
     check (tool_names (aggregated_tools agg 10) =
       Some [''mail.delete_message'', ''mail.fetch_message'', ''mail.search'', ''mail.undeclared'']) }"

definition call_routes_to_child_for_exposed_tool :: test where
  "call_routes_to_child_for_exposed_tool = do {
     agg \<leftarrow> build_with_fake;
     let (r, agg) = call_at ''mail.search'' (jobj [(''query'', JStr ''hi'')]) 0 agg;
     result \<leftarrow> unwrap r;
     check (jget result ''called'' = Some (JStr ''search''));
     arguments \<leftarrow> jget result ''arguments'';
     check (jget arguments ''query'' = Some (JStr ''hi'')) }"

definition call_to_gated_tool_is_rejected_until_elevated :: test where
  "call_to_gated_tool_is_rejected_until_elevated = do {
     agg \<leftarrow> build_with_fake;
     let (r, agg) = call_at ''mail.delete_message'' (jobj []) 0 agg;
     check (fails_as VNotExposed r);
     agg \<leftarrow> on_slot ''mail'' (grant_elevation (for_duration 0 300)) agg;
     let (r, agg) = call_at ''mail.delete_message'' (jobj []) 10 agg;
     check (is_ok r) }"

definition call_to_unknown_tool_or_server_is_unknown :: test where
  "call_to_unknown_tool_or_server_is_unknown = do {
     agg \<leftarrow> build_with_fake;
     let (r, agg) = call_at ''no_separator'' (jobj []) 0 agg;
     check (fails_as VUnknownTool r);
     let (r, agg) = call_at ''other.search'' (jobj []) 0 agg;
     check (fails_as VUnknownTool r) }"

definition exposure_snapshot_changes_signal_list_changed :: test where
  "exposure_snapshot_changes_signal_list_changed = do {
     agg \<leftarrow> build_with_fake;
     let before = ag_exposure_snapshot agg 0;
     agg \<leftarrow> on_slot ''mail'' (grant_elevation (for_duration 0 300)) agg;
     check (before \<noteq> ag_exposure_snapshot agg 0) }"

text \<open>
  \<open>server_id_with_separator_is_rejected\<close> and \<open>build_keeps_invalid_server_id_a_hard_error\<close> are one
  test under two names.
\<close>

definition server_id_with_separator_is_rejected :: test where
  "server_id_with_separator_is_rejected = do {
     loaded \<leftarrow> unwrap (load \<lparr>mf_servers = [fixture_server ''a.b'' ''x'' []]\<rparr>);
     check (fails_as VInvalidServerId (build (spawner (\<lambda>srv. Ok (with_tools []))) loaded ())) }"

definition build_keeps_invalid_server_id_a_hard_error :: test where
  "build_keeps_invalid_server_id_a_hard_error = do {
     loaded \<leftarrow> unwrap (load \<lparr>mf_servers = [fixture_server ''a.b'' ''x'' []]\<rparr>);
     check (fails_as VInvalidServerId (build (spawner (\<lambda>srv. Ok (with_tools []))) loaded ())) }"

definition call_to_crashed_child_fails_the_server_closed :: test where
  "call_to_crashed_child_fails_the_server_closed = do {
     agg \<leftarrow> build_with aggregator_fixture
       (\<lambda>srv. Ok (failing ChildExited (with_tools [''search'', ''fetch_message'', ''delete_message''])));
     agg \<leftarrow> on_slot ''mail'' (grant_elevation (for_duration 0 300)) agg;
     check (elevation_count (ag_state agg) = 1);
     let (r, agg) = call_at ''mail.search'' (jobj []) 0 agg;
     check (r = Err (AgChild ChildExited));
     slot \<leftarrow> server (ag_state agg) ''mail'';
     check (slot_state slot = Stopped);
     check (elevation_count (ag_state agg) = 0);
     check (aggregated_tools agg 0 = []) }"

definition reap_exited_children_fails_dead_children_closed :: test where
  "reap_exited_children_fails_dead_children_closed = do {
     agg \<leftarrow> build_with aggregator_fixture
       (\<lambda>srv. Ok (dead (with_tools [''search'', ''fetch_message''])));
     agg \<leftarrow> on_slot ''mail'' (grant_elevation (for_duration 0 300)) agg;
     check (aggregated_tools agg 0 \<noteq> []);
     let agg = reap_exited_children fake_child_api agg;
     slot \<leftarrow> server (ag_state agg) ''mail'';
     check (slot_state slot = Stopped);
     check (elevation_count (ag_state agg) = 0);
     check (aggregated_tools agg 0 = []) }"

definition two_server_fixture :: manifest where
  "two_server_fixture = \<lparr>mf_servers =
     [fixture_server ''mail'' ''mcp-lock-mail'' [(''search'', Read), (''delete_message'', Write)],
      fixture_server ''cal'' ''mcp-lock-cal'' [(''list_events'', Read), (''create_event'', Write)]]\<rparr>"

definition build_degrades_one_failed_spawn_and_keeps_healthy_servers :: test where
  "build_degrades_one_failed_spawn_and_keeps_healthy_servers = do {
     agg \<leftarrow> build_with two_server_fixture
       (\<lambda>srv. if srv_id srv = ''mail'' then Err (ChildIo ''no such binary'')
          else Ok (with_tools [''list_events'', ''create_event'']));
     mail \<leftarrow> server (ag_state agg) ''mail'';
     check (slot_state mail = Stopped);
     check (tool_names (aggregated_tools agg 0) = Some [''cal.list_events'']) }"

definition pause_hides_tools_and_resume_restores :: test where
  "pause_hides_tools_and_resume_restores = do {
     agg \<leftarrow> build_with_fake;
     check (aggregated_tools agg 0 \<noteq> []);
     let (r, agg) = pause ''mail'' agg;
     u \<leftarrow> unwrap r;
     check (aggregated_tools agg 0 = []);
     let (r, agg) = resume ''mail'' agg;
     u \<leftarrow> unwrap r;
     check (tool_names (aggregated_tools agg 0) = Some [''mail.fetch_message'', ''mail.search'']) }"

definition stop_then_start_respawns_read_only :: test where
  "stop_then_start_respawns_read_only = do {
     agg \<leftarrow> build_with_fake;
     let (r, agg) = stop ''mail'' agg;
     u \<leftarrow> unwrap r;
     check (aggregated_tools agg 0 = []);
     let (r, agg) = start (spawner all_tools) ''mail'' agg;
     u \<leftarrow> unwrap r;
     check (tool_names (aggregated_tools agg 0) = Some [''mail.fetch_message'', ''mail.search'']) }"

definition confirm_tool_requires_fresh_approval_even_when_elevated :: test where
  "confirm_tool_requires_fresh_approval_even_when_elevated = do {
     agg \<leftarrow> build_with \<lparr>mf_servers = [fixture_server ''mail'' ''x'' [(''send'', Confirm)]]\<rparr>
       (\<lambda>srv. Ok (with_tools [''send'']));
     agg \<leftarrow> on_slot ''mail'' (grant_elevation (until_revoked 0)) agg;
     let (r, agg) = call_at ''mail.send'' (jobj []) 0 agg;
     check (fails_as VNotConfirmed r);
     let agg = approve_action ''mail'' ''send'' 0 agg;
     let (r, agg) = call_at ''mail.send'' (jobj []) 0 agg;
     check (is_ok r);
     let (r, agg) = call_at ''mail.send'' (jobj []) 0 agg;
     check (fails_as VNotConfirmed r) }"

definition lifecycle_on_unknown_server_errors :: test where
  "lifecycle_on_unknown_server_errors = do {
     agg \<leftarrow> build_with_fake;
     let (r, agg) = pause ''nope'' agg;
     check (fails_as VUnknownServer r);
     let (r, agg) = start (spawner all_tools) ''nope'' agg;
     check (fails_as VUnknownServer r) }"

lemma exposure_tests:
  "aggregated_tools_are_namespaced_and_read_only_by_default = Some ()"
  "elevation_exposes_write_and_default_denied_tools = Some ()"
  "exposure_snapshot_changes_signal_list_changed = Some ()"
  "server_id_with_separator_is_rejected = Some ()"
  "build_keeps_invalid_server_id_a_hard_error = Some ()"
  "build_degrades_one_failed_spawn_and_keeps_healthy_servers = Some ()"
  by code_simp+

lemma call_tests:
  "call_routes_to_child_for_exposed_tool = Some ()"
  "call_to_gated_tool_is_rejected_until_elevated = Some ()"
  "call_to_unknown_tool_or_server_is_unknown = Some ()"
  "call_to_crashed_child_fails_the_server_closed = Some ()"
  "confirm_tool_requires_fresh_approval_even_when_elevated = Some ()"
  by code_simp+

lemma lifecycle_tests:
  "reap_exited_children_fails_dead_children_closed = Some ()"
  "pause_hides_tools_and_resume_restores = Some ()"
  "stop_then_start_respawns_read_only = Some ()"
  "lifecycle_on_unknown_server_errors = Some ()"
  by code_simp+

end
