(* ===== verification/ElevationTests.thy ===== *)
theory ElevationTests
  imports Harness Elevation
begin

text \<open>
  The tests of \<open>crates/core/src/elevation.rs\<close>. They sign with keys of \<open>ed25519_dalek\<close>; here a
  deterministic scheme stands for it, in which a signature is the key followed by a checksum
  of the message, so that only the holder's key over the very message verifies.
\<close>

section \<open>A signature scheme for the tests\<close>

definition checksum :: "string \<Rightarrow> nat" where
  "checksum m = foldl (\<lambda>h c. h + byte c) 0 m"

definition nat_bytes :: "nat \<Rightarrow> u8 list" where
  "nat_bytes n = map of_nat [n mod 256, n div 256 mod 256]"

text \<open>\<open>key.sign(message)\<close>: 64 bytes.\<close>

definition fixture_sign :: "u8 list \<Rightarrow> string \<Rightarrow> u8 list" where
  "fixture_sign key m = key @ nat_bytes (checksum m) @ replicate 30 0"

definition print_option :: "('a \<Rightarrow> string) \<Rightarrow> 'a option \<Rightarrow> string" where
  "print_option f v = (case v of None \<Rightarrow> ''null'' | Some a \<Rightarrow> f a)"

definition fixture_doc :: "doc \<Rightarrow> string option" where
  "fixture_doc d =
     Some (join '','' [dec (unat (doc_v d)), json_string (doc_purpose d), json_string (doc_client d),
       json_string (doc_nonce d), json_string (doc_server d), print_option json_string (doc_tool d),
       print_option json_string (doc_mode d), print_option (\<lambda>t. dec (unat t)) (doc_ttl d)])"

definition fixture_crypto :: "(u8 list) crypto" where
  "fixture_crypto =
     \<lparr>key_from_bytes = (\<lambda>bs. if length bs = public_key_len then Some bs else None),
      verify_strict = (\<lambda>key m sig. sig = fixture_sign key m), print_doc = fixture_doc\<rparr>"

section \<open>Fixtures\<close>

text \<open>\<open>TestSigner\<close>: the key made from a seed, and the signature over a challenge.\<close>

record test_signer =
  ts_key :: "u8 list"

definition signer_new :: "u8 \<Rightarrow> test_signer" where
  "signer_new seed = \<lparr>ts_key = replicate 32 seed\<rparr>"

definition signer_sign :: "test_signer \<Rightarrow> nonce \<Rightarrow> string \<Rightarrow> purpose \<Rightarrow> u8 list" where
  "signer_sign s n client p = fixture_sign (ts_key s) (challenge_message fixture_doc n client p)"

definition setup_store :: "nonce_store \<times> (u8 list) client_registry \<times> test_signer" where
  "setup_store =
     (let signer = signer_new 7;
          (r, reg) = register fixture_crypto ''client-1'' (ts_key signer) registry_new
      in (nonces_new, reg, signer))"

definition elevate_purpose :: purpose where
  "elevate_purpose = Elevate ''mail'' (ReqDuration 300)"

text \<open>The bytes the operating system gives to each nonce.\<close>

definition fixture_random :: "u8 list option" where
  "fixture_random = Some (replicate nonce_len 42)"

text \<open>\<open>store.issue(client, purpose, now).unwrap()\<close>.\<close>

definition issued :: "nonce_store \<Rightarrow> purpose \<Rightarrow> timestamp \<Rightarrow> (nonce \<times> nonce_store) option" where
  "issued st p now =
     (case issue st ''client-1'' p now fixture_random of
        (Inl e, st') \<Rightarrow> None
      | (Inr n, st') \<Rightarrow> Some (n, st'))"

definition verify ::
  "nonce_store \<Rightarrow> nonce \<Rightarrow> u8 list \<Rightarrow> (u8 list) client_registry \<Rightarrow> timestamp \<Rightarrow>
     (elevation_error + verified) \<times> nonce_store" where
  "verify st n sig reg now = verify_and_consume fixture_crypto st ''client-1'' n sig reg now"

section \<open>The tests\<close>

definition happy_path_yields_a_time_boxed_elevation :: test where
  "happy_path_yields_a_time_boxed_elevation =
     (let (st, reg, signer) = setup_store in do {
        (n, st) \<leftarrow> issued st elevate_purpose 100;
        let sig = signer_sign signer n ''client-1'' elevate_purpose;
        let (r, st) = verify st n sig reg 110;
        v \<leftarrow> unwrap r;
        (case v of
           VElevation sid e \<Rightarrow> do {
             check (sid = ''mail'');
             check (is_active e 110);
             check (\<not> is_active e 410) }
         | VConfirm sid tool \<Rightarrow> None);
        check (pending_count st = 0) })"

definition a_nonce_cannot_be_replayed :: test where
  "a_nonce_cannot_be_replayed =
     (let (st, reg, signer) = setup_store in do {
        (n, st) \<leftarrow> issued st elevate_purpose 0;
        let sig = signer_sign signer n ''client-1'' elevate_purpose;
        let (r, st) = verify st n sig reg 1;
        check (is_ok r);
        check (fst (verify st n sig reg 1) = Err UnknownOrUsedNonce) })"

definition a_bad_signature_still_consumes_the_nonce :: test where
  "a_bad_signature_still_consumes_the_nonce =
     (let (st, reg, signer) = setup_store in do {
        (n, st) \<leftarrow> issued st elevate_purpose 0;
        let bad = replicate signature_length 0;
        let (r, st) = verify st n bad reg 1;
        check (r = Err BadSignature);
        check (pending_count st = 0) })"

definition a_signature_for_one_server_does_not_authorise_another :: test where
  "a_signature_for_one_server_does_not_authorise_another =
     (let (st, reg, signer) = setup_store in do {
        (n, st) \<leftarrow> issued st elevate_purpose 0;
        let other = Elevate ''files'' (ReqDuration 300);
        let sig = signer_sign signer n ''client-1'' other;
        check (fst (verify st n sig reg 1) = Err BadSignature) })"

definition an_expired_nonce_is_rejected :: test where
  "an_expired_nonce_is_rejected =
     (let (st, reg, signer) = setup_store in do {
        (n, st) \<leftarrow> issued st elevate_purpose 0;
        let sig = signer_sign signer n ''client-1'' elevate_purpose;
        let too_late = nonce_ttl_secs + 1;
        check (fst (verify st n sig reg too_late) = Err NonceExpired) })"

definition an_unregistered_client_cannot_elevate :: test where
  "an_unregistered_client_cannot_elevate =
     (let (st, reg, signer) = setup_store; empty = (registry_new :: (u8 list) client_registry) in do {
        check (registry_is_empty empty);
        (n, st) \<leftarrow> issued st elevate_purpose 0;
        let sig = signer_sign signer n ''client-1'' elevate_purpose;
        check (fst (verify st n sig empty 1) = Err UnknownClient) })"

definition a_signature_from_the_wrong_key_is_rejected :: test where
  "a_signature_from_the_wrong_key_is_rejected =
     (let (st, reg, signer) = setup_store; attacker = signer_new 99 in do {
        (n, st) \<leftarrow> issued st elevate_purpose 0;
        let sig = signer_sign attacker n ''client-1'' elevate_purpose;
        check (fst (verify st n sig reg 1) = Err BadSignature) })"

definition confirm_purpose_round_trips_and_binds_the_tool :: test where
  "confirm_purpose_round_trips_and_binds_the_tool =
     (let (st, reg, signer) = setup_store; p = ConfirmTool ''mail'' ''send_message'' in do {
        (n, st) \<leftarrow> issued st p 0;
        let sig = signer_sign signer n ''client-1'' p;
        v \<leftarrow> unwrap (fst (verify st n sig reg 1));
        check (v = VConfirm ''mail'' ''send_message'') })"

definition nonce_hex_round_trips :: test where
  "nonce_hex_round_trips = do {
     n \<leftarrow> unwrap (nonce_generate fixture_random);
     check (nonce_from_hex (nonce_to_hex n) = Some n);
     check (nonce_from_hex ''zz'' = None) }"

lemma happy_path_yields_a_time_boxed_elevation_passes: "happy_path_yields_a_time_boxed_elevation = Some ()"
  by code_simp

lemma a_nonce_cannot_be_replayed_passes: "a_nonce_cannot_be_replayed = Some ()"
  by code_simp

lemma a_bad_signature_still_consumes_the_nonce_passes: "a_bad_signature_still_consumes_the_nonce = Some ()"
  by code_simp

lemma a_signature_for_one_server_does_not_authorise_another_passes: "a_signature_for_one_server_does_not_authorise_another = Some ()"
  by code_simp

lemma an_expired_nonce_is_rejected_passes: "an_expired_nonce_is_rejected = Some ()"
  by code_simp

lemma an_unregistered_client_cannot_elevate_passes: "an_unregistered_client_cannot_elevate = Some ()"
  by code_simp

lemma a_signature_from_the_wrong_key_is_rejected_passes: "a_signature_from_the_wrong_key_is_rejected = Some ()"
  by code_simp

lemma confirm_purpose_round_trips_and_binds_the_tool_passes: "confirm_purpose_round_trips_and_binds_the_tool = Some ()"
  by code_simp

lemma nonce_hex_round_trips_passes: "nonce_hex_round_trips = Some ()"
  by code_simp

text \<open>The loop that issues \<open>k\<close> nonces at time 0; \<open>random\<close> is what the operating system gives.\<close>

fun fill :: "nat \<Rightarrow> nonce_store \<Rightarrow> nonce_store option" where
  "fill 0 st = Some st"
| "fill (Suc k) st = do { (n, st) \<leftarrow> issued st elevate_purpose 0; fill k st }"

definition issue_is_bounded_against_a_flood :: test where
  "issue_is_bounded_against_a_flood =
     (let (st, reg, signer) = setup_store in do {
        st \<leftarrow> fill max_pending_nonces st;
        check (pending_count st = max_pending_nonces);
        let (r, st) = issue st ''client-1'' elevate_purpose 0 fixture_random;
        check (r = Err TooManyPending);
        let later = nonce_ttl_secs + 1;
        check (is_ok (fst (issue st ''client-1'' elevate_purpose later fixture_random))) })"

definition flood_entry :: pending where
  "flood_entry = \<lparr>pd_nonce = Nonce (replicate nonce_len 42), pd_client = ''client-1'',
     pd_purpose = elevate_purpose, pd_issued_at = 0\<rparr>"

lemma prune_flood [simp]: "nonces_prune 0 (replicate n flood_entry) = replicate n flood_entry"
  by (simp add: nonces_prune_def flood_entry_def nonce_ttl_secs_def)

lemma prune_flood_later [simp]: "nonces_prune 61 (replicate n flood_entry) = []"
  by (simp add: nonces_prune_def flood_entry_def nonce_ttl_secs_def sat_sub_def)

lemma fill_flood:
  "n + k \<le> max_pending_nonces \<Longrightarrow> fill k (replicate n flood_entry) = Some (replicate (n + k) flood_entry)"
proof (induction k arbitrary: n)
  case 0
  then show ?case by simp
next
  case (Suc k)
  then have "issued (replicate n flood_entry) elevate_purpose 0 =
      Some (Nonce (replicate nonce_len 42), replicate (Suc n) flood_entry)"
    by (simp add: issued_def issue_def nonce_generate_def fixture_random_def flood_entry_def [symmetric]
        replicate_append_same)
  with Suc.IH [of "Suc n"] Suc.prems show ?case by simp
qed

lemma issue_is_bounded_against_a_flood_passes: "issue_is_bounded_against_a_flood = Some ()"
proof -
  obtain reg signer where fixture: "setup_store = ([], reg, signer)"
    by (simp add: setup_store_def nonces_new_def Let_def split_def)
  have "fill 1024 [] = Some (replicate 1024 flood_entry)"
    using fill_flood [of 0 1024] by (simp add: max_pending_nonces_def del: replicate.simps(2))
  then show ?thesis
    unfolding issue_is_bounded_against_a_flood_def fixture
    by (simp add: issue_def nonce_generate_def fixture_random_def pending_count_def
        max_pending_nonces_def nonce_ttl_secs_def Let_def check_def del: replicate.simps)
qed

end
