(* ===== verification/HandlerTests.thy ===== *)
theory HandlerTests
  imports ElevationTests McpHandler
begin

text \<open>
  The fake child and the broker of the tests of both handlers, and the tests of
  \<open>crates/broker/src/control_handler.rs\<close>. The clock of a test reads 0 throughout;
  the tape succeeds and prints what \<open>serde\<close> prints.
\<close>

section \<open>Fixtures\<close>

text \<open>
  A fake child is the list of the tools it advertises. It answers a call as the child of
  \<open>handler.rs\<close> does; no test of \<open>control_handler.rs\<close> calls its child.
\<close>

type_synonym fixed_child = "string list"

definition fixed_list :: "fixed_child \<Rightarrow> (child_error + tool_def list) \<times> fixed_child" where
  "fixed_list c = (Ok (map (\<lambda>n. \<lparr>td_name = n, td_definition = jobj [(''name'', JStr n)]\<rparr>) c), c)"

definition fixed_call :: "fixed_child \<Rightarrow> string \<Rightarrow> json \<Rightarrow> (child_error + json) \<times> fixed_child" where
  "fixed_call c name args =
     (Ok (jobj [(''content'', JArr [jobj [(''type'', JStr ''text''), (''text'', JStr (''ran '' @ name))]]),
        (''isError'', JBool False)]), c)"

definition fixed_api :: "fixed_child child_api" where
  "fixed_api = \<lparr>api_list_tools = fixed_list, api_call_tool = fixed_call, api_is_alive = (\<lambda>c. (True, c))\<rparr>"

lemma fixed_list_named: "fixed_list c = (Ok ts, c') \<Longrightarrow> t \<in> set ts \<Longrightarrow> carries_name t"
  by (auto simp: fixed_list_def carries_name_def jget_jobj)

interpretation fixed: mcp_child fixed_list
  by unfold_locales (rule fixed_list_named)

type_synonym fixed_broker = "(u8 list, fixed_child, unit) broker"

definition fixed_libs :: "string list \<Rightarrow> (u8 list, fixed_child, unit) libs" where
  "fixed_libs advertised =
     \<lparr>lib_host = \<lparr>host_spawn = (\<lambda>srv sp. (Ok advertised, sp)), host_api = fixed_api\<rparr>,
      lib_crypto = fixture_crypto, lib_entry = fixture_entry, lib_text = (\<lambda>v. [])\<rparr>"

definition test_tick :: tick where
  "test_tick = \<lparr>tk_now = 0, tk_log_now = 0, tk_wall = Some 9, tk_random = fixture_random,
     tk_io = (None, None)\<rparr>"

definition handler_fixture :: manifest where
  "handler_fixture = \<lparr>mf_servers = [fixture_server ''mail'' ''x''
     [(''search'', Read), (''delete_message'', Write)]]\<rparr>"

definition mail_libs :: "(u8 list, fixed_child, unit) libs" where
  "mail_libs = fixed_libs [''search'', ''delete_message'']"

definition handler_over ::
  "(u8 list, fixed_child, unit) libs \<Rightarrow> manifest \<Rightarrow> (u8 list) client_registry \<Rightarrow> fixed_broker option" where
  "handler_over lb m reg = do {
     loaded \<leftarrow> unwrap (load m);
     agg \<leftarrow> unwrap (build (lib_host lb) loaded ());
     Some (handler_new test_tick (mutex_new agg) notifier_new reg audit_in_memory) }"

definition handler_with_registry :: "(u8 list) client_registry \<Rightarrow> fixed_broker option" where
  "handler_with_registry reg = handler_over mail_libs handler_fixture reg"

definition handler :: "fixed_broker option" where
  "handler = handler_with_registry registry_new"

definition ask :: "control_request \<Rightarrow> fixed_broker \<Rightarrow> control_response \<times> fixed_broker" where
  "ask req b = handle_control mail_libs test_tick req b"

text \<open>The patterns of \<open>let ... else { panic! }\<close> and \<open>matches!\<close> on a response.\<close>

fun as_status :: "control_response \<Rightarrow> server_status list option" where
  "as_status (RStatus servers) = Some servers"
| "as_status _ = None"

fun as_list :: "control_response \<Rightarrow> string list option" where
  "as_list (RList tools) = Some tools"
| "as_list _ = None"

fun as_logs :: "control_response \<Rightarrow> string list option" where
  "as_logs (RLogs entries) = Some entries"
| "as_logs _ = None"

fun as_nonce :: "control_response \<Rightarrow> string option" where
  "as_nonce (RNonce n) = Some n"
| "as_nonce _ = None"

fun is_done :: "control_response \<Rightarrow> bool" where
  "is_done (RDone m) = True"
| "is_done _ = False"

fun is_error :: "control_response \<Rightarrow> bool" where
  "is_error (RError m) = True"
| "is_error _ = False"

text \<open>\<open>servers[0]\<close> of a fresh status.\<close>

definition first_status :: "fixed_broker \<Rightarrow> (server_status \<times> fixed_broker) option" where
  "first_status b =
     (let (r, b) = ask CStatus b in do { servers \<leftarrow> as_status r; s \<leftarrow> at servers 0; Some (s, b) })"

section \<open>\<open>control_handler.rs\<close>\<close>

definition status_reports_running_read_only :: test where
  "status_reports_running_read_only = do {
     h \<leftarrow> handler;
     let (r, h) = ask CStatus h;
     servers \<leftarrow> as_status r;
     check (length servers = 1);
     s \<leftarrow> at servers 0;
     check (ss_state s = ''running'');
     check (ss_exposed_tools s = 1);
     check (\<not> ss_elevated s) }"

definition list_shows_namespaced_read_tools :: test where
  "list_shows_namespaced_read_tools = do {
     h \<leftarrow> handler;
     let (r, h) = ask CList h;
     tools \<leftarrow> as_list r;
     check (tools = [''mail.search'']) }"

definition pause_then_status_shows_paused_and_logs_it :: test where
  "pause_then_status_shows_paused_and_logs_it = do {
     h \<leftarrow> handler;
     let (r, h) = ask (CPause ''mail'') h;
     check (is_done r);
     (s, h) \<leftarrow> first_status h;
     check (ss_state s = ''paused'');
     check (ss_exposed_tools s = 0);
     let (r, h) = ask (CLogs None) h;
     entries \<leftarrow> as_logs r;
     check (list_ex (str_contains ''pause mail'') entries) }"

definition lifecycle_on_unknown_server_is_an_error :: test where
  "lifecycle_on_unknown_server_is_an_error = do {
     h \<leftarrow> handler;
     let (r, h) = ask (CStop ''nope'') h;
     check (is_error r) }"

definition stop_then_start_returns_to_running :: test where
  "stop_then_start_returns_to_running = do {
     h \<leftarrow> handler;
     let (r, h) = ask (CStop ''mail'') h;
     check (is_done r);
     (s, h) \<leftarrow> first_status h;
     check (ss_state s = ''stopped'');
     let (r, h) = ask (CStart ''mail'') h;
     check (is_done r);
     (s, h) \<leftarrow> first_status h;
     check (ss_state s = ''running'');
     check (ss_exposed_tools s = 1) }"

text \<open>\<open>"00".repeat(64)\<close>.\<close>

definition zero_signature :: string where
  "zero_signature = to_hex (replicate signature_length 0)"

definition unregistered_client_cannot_elevate :: test where
  "unregistered_client_cannot_elevate = do {
     h \<leftarrow> handler;
     let (r, h) = ask (CRequestElevation ''client-1'' ''mail'' ''duration'' (Some 300)) h;
     n \<leftarrow> as_nonce r;
     let (r, h) = ask (CSubmitElevation ''client-1'' n zero_signature) h;
     check (is_error r) }"

definition a_failed_submission_is_recorded_on_the_audit_tape :: test where
  "a_failed_submission_is_recorded_on_the_audit_tape = do {
     h \<leftarrow> handler;
     let (r, h) = ask (CRequestElevation ''attacker'' ''mail'' ''duration'' (Some 300)) h;
     n \<leftarrow> as_nonce r;
     let (r, h) = ask (CSubmitElevation ''attacker'' n zero_signature) h;
     check (is_error r);
     check (list_ex (\<lambda>e. str_contains ''elevation_denied'' e \<and> str_contains ''attacker'' e)
       (audit_recent 10 (bk_audit h))) }"

definition full_elevation_round_trip_flips_exposure_and_audits :: test where
  "full_elevation_round_trip_flips_exposure_and_audits =
     (let signing = signer_new 5;
          (r, reg) = register fixture_crypto ''client-1'' (ts_key signing) registry_new
      in do {
        u \<leftarrow> unwrap r;
        h \<leftarrow> handler_with_registry reg;
        (s, h) \<leftarrow> first_status h;
        check (ss_exposed_tools s = 1);
        let (r, h) = ask (CRequestElevation ''client-1'' ''mail'' ''duration'' (Some 300)) h;
        n_hex \<leftarrow> as_nonce r;
        n \<leftarrow> nonce_from_hex n_hex;
        let sig = signer_sign signing n ''client-1'' (Elevate ''mail'' (ReqDuration 300));
        let (r, h) = ask (CSubmitElevation ''client-1'' n_hex (to_hex sig)) h;
        check (is_done r);
        (s, h) \<leftarrow> first_status h;
        check (ss_exposed_tools s = 2);
        check (ss_elevated s);
        check (list_ex (str_contains ''elevation_granted'') (audit_recent 10 (bk_audit h)));
        let (r, h) = ask (CRevoke ''mail'') h;
        check (is_done r);
        (s, h) \<leftarrow> first_status h;
        check (ss_exposed_tools s = 1);
        check (\<not> ss_elevated s) })"

lemma control_tests:
  "status_reports_running_read_only = Some ()"
  "list_shows_namespaced_read_tools = Some ()"
  "pause_then_status_shows_paused_and_logs_it = Some ()"
  "lifecycle_on_unknown_server_is_an_error = Some ()"
  "stop_then_start_returns_to_running = Some ()"
  by code_simp+

lemma unregistered_test: "unregistered_client_cannot_elevate = Some ()"
  by code_simp

lemma failed_submission_test: "a_failed_submission_is_recorded_on_the_audit_tape = Some ()"
  by code_simp

lemma round_trip_test: "full_elevation_round_trip_flips_exposure_and_audits = Some ()"
  by code_simp

end
