(* ===== verification/McpTests.thy ===== *)
theory McpTests
  imports HandlerTests Clock
begin

text \<open>
  The tests of \<open>crates/broker/src/handler.rs\<close>: JSON-RPC requests to the MCP handler, on the
  broker of the control tests.
\<close>

section \<open>Fixtures\<close>

definition request_params :: "nat \<Rightarrow> string \<Rightarrow> (string \<times> json) list \<Rightarrow> json" where
  "request_params i meth params =
     jobj ([(''jsonrpc'', JStr ''2.0''), (''id'', JNum (PosInt (of_nat i))), (''method'', JStr meth)] @ params)"

definition tool_call :: "string \<Rightarrow> json \<Rightarrow> json" where
  "tool_call name arguments =
     request_params 1 ''tools/call'' [(''params'', jobj [(''name'', JStr name), (''arguments'', arguments)])]"

text \<open>The client comes from the real validator, the only way to get one.\<close>

definition fake_client :: "validated_client option" where
  "fake_client = do { v \<leftarrow> bearer_new ''t'' ''c''; unwrap (validate_bearer v (Some ''t'')) }"

definition send_to ::
  "(u8 list, fixed_child, unit) libs \<Rightarrow> json \<Rightarrow> fixed_broker \<Rightarrow> (json \<times> fixed_broker) option" where
  "send_to lb req h = do {
     client \<leftarrow> fake_client;
     Some (handle_mcp lb ''0.1.0'' test_tick req client h) }"

text \<open>\<open>h.aggregator.lock().unwrap().state_mut().server_mut("mail").unwrap().grant_elevation(e)\<close>.\<close>

definition elevate_mail :: "elevation \<Rightarrow> fixed_broker \<Rightarrow> fixed_broker option" where
  "elevate_mail e h = do {
     agg \<leftarrow> lock (bk_agg h);
     b \<leftarrow> on_server ''mail'' (grant_elevation e) (ag_state agg);
     Some (h\<lparr>bk_agg := put (bk_agg h) (agg\<lparr>ag_state := b\<rparr>)\<rparr>) }"

section \<open>The tests\<close>

definition initialize_advertises_list_changed :: test where
  "initialize_advertises_list_changed = do {
     h \<leftarrow> handler;
     (resp, h) \<leftarrow> send_to mail_libs (request_params 1 ''initialize'' []) h;
     check (field ''listChanged'' (field ''tools'' (field ''capabilities'' (field ''result'' resp)))
       = JBool True) }"

definition tools_list_is_read_only_then_changes_after_elevation :: test where
  "tools_list_is_read_only_then_changes_after_elevation = do {
     h \<leftarrow> handler;
     (resp, h) \<leftarrow> send_to mail_libs (request_params 1 ''tools/list'' []) h;
     tools \<leftarrow> as_array (field ''tools'' (field ''result'' resp));
     ns \<leftarrow> those (map (\<lambda>t. as_str (field ''name'' t)) tools);
     check (ns = [''mail.search'']);
     h \<leftarrow> elevate_mail (until_revoked 0) h;
     (resp, h) \<leftarrow> send_to mail_libs (request_params 2 ''tools/list'' []) h;
     tools \<leftarrow> as_array (field ''tools'' (field ''result'' resp));
     check (length tools = 2) }"

definition call_to_gated_tool_is_a_tool_error_not_protocol_error :: test where
  "call_to_gated_tool_is_a_tool_error_not_protocol_error = do {
     h \<leftarrow> handler;
     (resp, h) \<leftarrow> send_to mail_libs (tool_call ''mail.delete_message'' (jobj [])) h;
     check (field ''error'' resp = JNull);
     check (field ''isError'' (field ''result'' resp) = JBool True) }"

definition exposed_call_routes_to_child :: test where
  "exposed_call_routes_to_child = do {
     h \<leftarrow> handler;
     (resp, h) \<leftarrow> send_to mail_libs (tool_call ''mail.search'' (jobj [(''query'', JStr ''x'')])) h;
     check (field ''isError'' (field ''result'' resp) = JBool False);
     answer \<leftarrow> as_str (field ''text'' (element 0 (field ''content'' (field ''result'' resp))));
     check (str_contains ''ran search'' answer) }"

definition unknown_method_is_method_not_found :: test where
  "unknown_method_is_method_not_found = do {
     h \<leftarrow> handler;
     (resp, h) \<leftarrow> send_to mail_libs (request_params 1 ''nope'' []) h;
     check (field ''code'' (field ''error'' resp) = JNum (NegInt (- 32601))) }"

definition malformed_tools_call_is_invalid_params :: test where
  "malformed_tools_call_is_invalid_params = do {
     h \<leftarrow> handler;
     (resp, h) \<leftarrow> send_to mail_libs (request_params 1 ''tools/call'' [(''params'', jobj [])]) h;
     check (field ''code'' (field ''error'' resp) = JNum (NegInt (- 32602))) }"

definition confirm_tool_without_approval_is_refused_and_audited :: test where
  "confirm_tool_without_approval_is_refused_and_audited =
     (let lb = fixed_libs [''send_message''] in do {
        h \<leftarrow> handler_over lb
          \<lparr>mf_servers = [fixture_server ''mail'' ''x'' [(''send_message'', Confirm)]]\<rparr> registry_new;
        h \<leftarrow> elevate_mail (until_revoked 0) h;
        (resp, h) \<leftarrow> send_to lb (tool_call ''mail.send_message'' (jobj [])) h;
        check (field ''isError'' (field ''result'' resp) = JBool True);
        check (list_ex (\<lambda>e. str_contains ''confirm_rejected'' e \<and> str_contains ''send_message'' e)
          (audit_recent 10 (bk_audit h))) })"

lemma mcp_tests:
  "initialize_advertises_list_changed = Some ()"
  "tools_list_is_read_only_then_changes_after_elevation = Some ()"
  "call_to_gated_tool_is_a_tool_error_not_protocol_error = Some ()"
  "exposed_call_routes_to_child = Some ()"
  "unknown_method_is_method_not_found = Some ()"
  "malformed_tools_call_is_invalid_params = Some ()"
  by code_simp+

lemma confirm_test: "confirm_tool_without_approval_is_refused_and_audited = Some ()"
  by code_simp

section \<open>\<open>clock.rs\<close>\<close>

text \<open>The clock is made at one instant and each of the two is read at one.\<close>

definition clones_share_the_same_epoch :: "nat \<Rightarrow> nat \<Rightarrow> nat \<Rightarrow> test" where
  "clones_share_the_same_epoch made first second =
     (let a = clock_new made; b = a in check (clock_now a first = clock_now b second))"

text \<open>
  The test passes when both readings fall into the same second after the clock was made, and
  fails when a second ends between them: equal epochs do not make two readings equal.
\<close>

lemma clock_test:
  "(first - made) div nanos = (second - made) div nanos \<Longrightarrow>
     clones_share_the_same_epoch made first second = Some ()"
  by (simp add: clones_share_the_same_epoch_def clock_now_def clock_new_def check_def)

lemma clock_test_can_fail: "clones_share_the_same_epoch 0 999999999 1000000000 = None"
  by (simp add: clones_share_the_same_epoch_def clock_now_def clock_new_def check_def nanos_def)

end
