(* ===== verification/MailTests.thy ===== *)
theory MailTests
  imports Harness MailMain ImapBackend
begin

text \<open>
  The tests of \<open>config.rs\<close>, \<open>fake.rs\<close>, \<open>imap_backend.rs\<close> and \<open>tools.rs\<close> of \<open>crates/mail\<close>. A test that
  reads a printed JSON text back is stated for every printer and reader of \<open>serde_json\<close> that are
  inverse to each other.
\<close>

section \<open>\<open>config.rs\<close>\<close>

definition lookup_from :: "(string \<times> string) list \<Rightarrow> string \<Rightarrow> string option" where
  "lookup_from m k = map_of m k"

definition missing_required_vars_are_all_reported :: test where
  "missing_required_vars_are_all_reported =
     (case config_from_lookup (lookup_from []) of
        Inl (MissingVars names) \<Rightarrow> do {
          check (HOST \<in> set names);
          check (USERNAME \<in> set names);
          check (PASSWORD \<in> set names) }
      | _ \<Rightarrow> None)"

definition required_vars :: "string \<Rightarrow> (string \<times> string) list" where
  "required_vars password =
     [(HOST, ''imap.example.test''), (USERNAME, ''user''), (PASSWORD, password)]"

definition defaults_apply_for_port_and_mailbox :: test where
  "defaults_apply_for_port_and_mailbox = do {
     cfg \<leftarrow> unwrap (config_from_lookup (lookup_from (required_vars ''placeholder-not-a-real-secret'')));
     check (ic_port cfg = 993);
     check (ic_default_mailbox cfg = ''INBOX'') }"

fun is_invalid_value :: "config_error \<Rightarrow> bool" where
  "is_invalid_value (InvalidValue name reason) = True"
| "is_invalid_value (MissingVars names) = False"

definition invalid_port_is_rejected :: test where
  "invalid_port_is_rejected =
     (let m = required_vars ''placeholder-not-a-real-secret'' @ [(PORT, ''not-a-number'')]
      in check (fails is_invalid_value (config_from_lookup (lookup_from m))))"

definition debug_redacts_password :: test where
  "debug_redacts_password = do {
     cfg \<leftarrow> unwrap (config_from_lookup (lookup_from (required_vars ''super-secret-placeholder'')));
     let rendered = debug_imap_config (\<lambda>u. u) cfg;
     check (\<not> str_contains ''super-secret-placeholder'' rendered);
     check (str_contains ''<redacted>'' rendered) }"

lemma config_tests:
  "missing_required_vars_are_all_reported = Some ()"
  "defaults_apply_for_port_and_mailbox = Some ()"
  "invalid_port_is_rejected = Some ()"
  "debug_redacts_password = Some ()"
  by code_simp+

section \<open>\<open>fake.rs\<close>\<close>

text \<open>\<open>str::to_lowercase\<close> on the ASCII text of the fixture.\<close>

definition ascii_lowercase :: "string \<Rightarrow> string" where
  "ascii_lowercase s =
     map (\<lambda>c. case map_of (zip ''ABCDEFGHIJKLMNOPQRSTUVWXYZ'' ''abcdefghijklmnopqrstuvwxyz'') c of
        Some l \<Rightarrow> l | None \<Rightarrow> c) s"

lemma contains_text_code [code]: "contains_text needle s = str_contains needle s"
  by (simp add: contains_text_iff str_contains_iff)

definition list_returns_newest_first_and_respects_limit :: test where
  "list_returns_newest_first_and_respects_limit = do {
     msgs \<leftarrow> unwrap (fst (fake_list ''INBOX'' 2 demo_store));
     check (length msgs = 2);
     first \<leftarrow> at msgs 0;
     check (ms_uid first = 3);
     second \<leftarrow> at msgs 1;
     check (ms_uid second = 2) }"

definition found :: "string \<Rightarrow> message_summary list option" where
  "found query = unwrap (fst (fake_search ascii_lowercase ''INBOX'' query 200 demo_store))"

definition search_matches_subject_from_and_body_case_insensitively :: test where
  "search_matches_subject_from_and_body_case_insensitively = do {
     ms \<leftarrow> found ''lunch'';
     check (length ms = 1);
     ms \<leftarrow> found ''ATTACKER'';
     check (length ms = 1);
     ms \<leftarrow> found ''no-such-text'';
     check (ms = []) }"

definition fetch_returns_full_message_or_not_found :: test where
  "fetch_returns_full_message_or_not_found = do {
     m \<leftarrow> unwrap (fst (fake_fetch ''INBOX'' 1 demo_store));
     check (mg_subject m = ''Welcome to MCP-Lock'');
     check (fst (fake_fetch ''INBOX'' 999 demo_store) = Err (MessageNotFound 999)) }"

definition unknown_mailbox_is_unavailable :: test where
  "unknown_mailbox_is_unavailable =
     check (fst (fake_list ''Archive'' 10 demo_store) = Err (MailboxUnavailable ''Archive''))"

lemma fake_tests:
  "list_returns_newest_first_and_respects_limit = Some ()"
  "search_matches_subject_from_and_body_case_insensitively = Some ()"
  "fetch_returns_full_message_or_not_found = Some ()"
  "unknown_mailbox_is_unavailable = Some ()"
  by code_simp+

section \<open>\<open>imap_backend.rs\<close>\<close>

definition search_query_is_quoted_and_crlf_stripped :: test where
  "search_query_is_quoted_and_crlf_stripped = do {
     check (build_text_search ''hello'' = ''TEXT '' @ json_string ''hello'');
     check (build_text_search (''a'' @ [CHR 0x22] @ ''b'' @ [CHR 0x5C] @ ''c'' @ [CHR 0x0D, CHR 0x0A] @ ''LOGOUT'')
       = ''TEXT '' @ [CHR 0x22] @ ''a'' @ [CHR 0x5C, CHR 0x22] @ ''b'' @ [CHR 0x5C, CHR 0x5C] @ ''cLOGOUT''
           @ [CHR 0x22]) }"

definition address_formatting_handles_name_and_bare_forms :: test where
  "address_formatting_handles_name_and_bare_forms =
     (let addrs = AddrList [\<lparr>ad_name = Some ''Alice'', ad_address = Some ''alice@example.test''\<rparr>,
                            \<lparr>ad_name = None, ad_address = Some ''bob@example.test''\<rparr>]
      in do {
        check (format_address (Some addrs) = ''Alice <alice@example.test>, bob@example.test'');
        check (format_address None = []) })"

lemma imap_tests:
  "search_query_is_quoted_and_crlf_stripped = Some ()"
  "address_formatting_handles_name_and_bare_forms = Some ()"
  by code_simp+

section \<open>\<open>tools.rs\<close>\<close>

text \<open>A printer and a reader of JSON text: what is printed is read back.\<close>

definition value_codec :: "(json \<Rightarrow> string option) \<Rightarrow> (string \<Rightarrow> json option) \<Rightarrow> bool" where
  "value_codec pretty read \<longleftrightarrow> (\<forall>v. \<exists>s. pretty v = Some s \<and> read s = Some v)"

definition content_text :: "json \<Rightarrow> string option" where
  "content_text result = as_str (field ''text'' (element 0 (field ''content'' result)))"

definition result_count :: "(string \<Rightarrow> json option) \<Rightarrow> json \<Rightarrow> u64 option" where
  "result_count read result = do {
     check (field ''isError'' result = JBool False);
     text \<leftarrow> content_text result;
     parsed \<leftarrow> read text;
     as_u64 (field ''count'' parsed) }"

definition match_message :: "nat \<Rightarrow> message" where
  "match_message uid =
     \<lparr>mg_uid = of_nat uid, mg_subject = ''match'', mg_from = ''a@example.test'',
      mg_to = ''b@example.test'', mg_date = [], mg_body_text = ''match''\<rparr>"

definition store_with :: "nat \<Rightarrow> fake_store" where
  "store_with n =
     foldl (\<lambda>store uid. add_message ''INBOX'' (match_message uid) False store) fake_new [1..<Suc n]"

definition tool_on ::
  "(json \<Rightarrow> string option) \<Rightarrow> fake_store \<Rightarrow> string \<Rightarrow> (string \<times> json) list \<Rightarrow> tool_error + json" where
  "tool_on pretty store name args =
     fst (mail_call pretty (fake_api ascii_lowercase) name (Some (jobj args)) ''INBOX'' store)"

definition number :: "nat \<Rightarrow> json" where
  "number n = JNum (PosInt (of_nat n))"

definition list_limit_over_max_is_clamped_to_max ::
  "(json \<Rightarrow> string option) \<Rightarrow> (string \<Rightarrow> json option) \<Rightarrow> test" where
  "list_limit_over_max_is_clamped_to_max pretty read =
     (let store = store_with (max_list_limit + 50) in do {
        result \<leftarrow> unwrap (tool_on pretty store ''list_messages'' [(''limit'', number (max_list_limit + 50))]);
        n \<leftarrow> result_count read result;
        check (n = of_nat max_list_limit) })"

definition list_limit_zero_is_rejected :: "(json \<Rightarrow> string option) \<Rightarrow> test" where
  "list_limit_zero_is_rejected pretty =
     (case tool_on pretty demo_store ''list_messages'' [(''limit'', number 0)] of
        Inr v \<Rightarrow> None
      | Inl (ToolError message) \<Rightarrow> check (str_contains ''at least 1'' message))"

definition search_limit_over_max_is_clamped_to_max ::
  "(json \<Rightarrow> string option) \<Rightarrow> (string \<Rightarrow> json option) \<Rightarrow> test" where
  "search_limit_over_max_is_clamped_to_max pretty read =
     (let store = store_with (max_list_limit + 50) in do {
        result \<leftarrow> unwrap (tool_on pretty store ''search''
          [(''query'', JStr ''match''), (''limit'', number (max_list_limit + 50))]);
        n \<leftarrow> result_count read result;
        check (n = of_nat max_list_limit) })"

definition search_caps_results_at_max_when_limit_absent ::
  "(json \<Rightarrow> string option) \<Rightarrow> (string \<Rightarrow> json option) \<Rightarrow> test" where
  "search_caps_results_at_max_when_limit_absent pretty read =
     (let store = store_with (max_list_limit + 50) in do {
        result \<leftarrow> unwrap (tool_on pretty store ''search'' [(''query'', JStr ''match'')]);
        n \<leftarrow> result_count read result;
        check (n = of_nat max_list_limit) })"

definition require_uid_rejects_zero_negative_and_overflow :: "(json \<Rightarrow> string option) \<Rightarrow> test" where
  "require_uid_rejects_zero_negative_and_overflow pretty =
     (let fetch = (\<lambda>uid. tool_on pretty demo_store ''fetch_message'' [(''uid'', JNum uid)]) in do {
        check (\<not> is_ok (fetch (PosInt 0)));
        check (\<not> is_ok (fetch (NegInt (- 1))));
        check (\<not> is_ok (fetch (PosInt (4294967295 + 1))));
        check (is_ok (fetch (PosInt 1))) })"

definition require_uid_accepts_u32_max_boundary :: "(json \<Rightarrow> string option) \<Rightarrow> test" where
  "require_uid_accepts_u32_max_boundary pretty =
     check (is_ok (tool_on pretty demo_store ''fetch_message'' [(''uid'', JNum (PosInt 4294967295))]))"

lemma argument_tests:
  "list_limit_zero_is_rejected pretty = Some ()"
  "require_uid_rejects_zero_negative_and_overflow pretty = Some ()"
  "require_uid_accepts_u32_max_boundary pretty = Some ()"
  by code_simp+

subsection \<open>The stores of many messages\<close>

lemma value_codecD: "value_codec pretty read \<Longrightarrow> \<exists>s. pretty v = Some s \<and> read s = Some v"
  by (simp add: value_codec_def)

lemma result_count_summaries:
  assumes "value_codec pretty read"
  shows "result_count read (summaries_to_result pretty (Ok ss)) = Some (of_nat (length ss))"
proof -
  let ?v = "jobj [(''count'', JNum (PosInt (of_nat (length (map summary_json ss))))), (''messages'', JArr (map summary_json ss))]"
  obtain s where "pretty ?v = Some s" "read s = Some ?v"
    using value_codecD [OF assms] by blast
  then show ?thesis
    by (simp add: result_count_def summaries_to_result_def pretty_or_def ok_text_def text_result_def
        field_def element_def content_text_def at_def check_def jget_jobj Let_def)
qed

lemma store_with_Suc: "store_with (Suc n) = add_message ''INBOX'' (match_message (Suc n)) False (store_with n)"
  by (simp add: store_with_def)

lemma store_with_mailbox:
  "0 < n \<Longrightarrow> \<exists>mb. fake_mailbox (store_with n) ''INBOX'' = Ok mb \<and> length (mb_messages mb) = n
     \<and> (\<forall>s \<in> set (mb_messages mb). mg_subject (st_message s) = ''match'')"
proof (induction n)
  case 0
  then show ?case by simp
next
  case (Suc n)
  show ?case
  proof (cases n)
    case 0
    then show ?thesis
      by (simp add: store_with_Suc mailbox_add) (simp add: store_with_def fake_mailbox_def fake_new_def match_message_def)
  next
    case (Suc k)
    with Suc.IH obtain mb where "fake_mailbox (store_with n) ''INBOX'' = Ok mb" "length (mb_messages mb) = n"
      "\<forall>s \<in> set (mb_messages mb). mg_subject (st_message s) = ''match''"
      by auto
    then show ?thesis by (auto simp: store_with_Suc [of n] mailbox_add match_message_def)
  qed
qed

lemma lower_match: "ascii_lowercase ''match'' = ''match''"
  by code_simp

lemma listed_all:
  assumes "0 < n"
  shows "\<exists>ss. fake_list ''INBOX'' k (store_with n) = (Ok ss, store_with n) \<and> length ss = min k n"
  using store_with_mailbox [OF assms] by (auto simp: fake_list_def)

lemma found_all:
  assumes "0 < n"
  shows "\<exists>ss. fake_search ascii_lowercase ''INBOX'' ''match'' k (store_with n) = (Ok ss, store_with n)
    \<and> length ss = min k n"
proof -
  obtain mb where mb: "fake_mailbox (store_with n) ''INBOX'' = Ok mb" "length (mb_messages mb) = n"
    "\<forall>s \<in> set (mb_messages mb). mg_subject (st_message s) = ''match''"
    using store_with_mailbox [OF assms] by blast
  have "contains_text ''match'' ''match''"
    unfolding contains_text_iff by (intro exI [of _ "[]"]) simp
  with mb(3) have "filter (fake_matches ascii_lowercase ''match'') (rev (mb_messages mb)) = rev (mb_messages mb)"
    by (auto simp: fake_matches_def lower_match intro: filter_True)
  with mb(1,2) show ?thesis by (simp add: fake_search_def lower_match)
qed

lemmas tool_simps =
  tool_on_def mail_call_def call_list_def call_search_def require_object_def require_string_def
  optional_mailbox_def optional_limit_def fake_api_def max_list_limit_def number_def jobj_def sm_collect_def

lemma clamp_tests:
  assumes "value_codec pretty read"
  shows "list_limit_over_max_is_clamped_to_max pretty read = Some ()"
    "search_limit_over_max_is_clamped_to_max pretty read = Some ()"
    "search_caps_results_at_max_when_limit_absent pretty read = Some ()"
  using listed_all [of 250 200] found_all [of 250 200]
  by (auto simp: list_limit_over_max_is_clamped_to_max_def search_limit_over_max_is_clamped_to_max_def
      search_caps_results_at_max_when_limit_absent_def tool_simps result_count_summaries [OF assms])

end
