(* ===== verification/MailProtocolTests.thy ===== *)
theory MailProtocolTests
  imports MailTests "HOL-Library.Countable"
begin

text \<open>
  The tests of \<open>crates/mail/tests/protocol.rs\<close>: JSON-RPC lines to the mail server over the
  demonstration fixture. The tests write their requests and read the answers with \<open>serde_json\<close>,
  so they are stated for every text codec with the laws of \<open>serde\<close> below; there is one.
\<close>

section \<open>The text codec\<close>

record text_codec =
  tx_mail :: mail_json
  tx_line :: "rpc_request \<Rightarrow> string"
  tx_read :: "string \<Rightarrow> json option"

definition not_json :: string where
  "not_json = ''this is not json''"

text \<open>
  A request written on a line is read back, and so is a response; a line is one line and not
  blank; a text that is not JSON is refused.
\<close>

definition serde :: "text_codec \<Rightarrow> bool" where
  "serde tx \<longleftrightarrow>
     (\<forall>req. mj_parse (tx_mail tx) (tx_line tx req) = Some req
        \<and> plain_line (tx_line tx req) \<and> \<not> blank (tx_line tx req))
     \<and> (\<forall>r. \<exists>s. mj_write (tx_mail tx) r = Some s \<and> tx_read tx s = Some (response_value r)
        \<and> plain_line s)
     \<and> value_codec (mj_pretty (tx_mail tx)) (tx_read tx)
     \<and> mj_parse (tx_mail tx) not_json = None"

lemma serde_request:
  assumes "serde tx"
  shows "mj_parse (tx_mail tx) (tx_line tx req) = Some req" "plain_line (tx_line tx req)"
    "\<not> blank (tx_line tx req)"
  using assms by (auto simp: serde_def)

lemma serde_response:
  assumes "serde tx"
  obtains s where "write_or_internal (tx_mail tx) r = s" "tx_read tx s = Some (response_value r)"
    "plain_line s"
  using assms by (auto simp: serde_def write_or_internal_def) (metis option.simps(5))

lemma serde_values: "serde tx \<Longrightarrow> value_codec (mj_pretty (tx_mail tx)) (tx_read tx)"
  by (simp add: serde_def)

lemma serde_not_json: "serde tx \<Longrightarrow> mj_parse (tx_mail tx) not_json = None"
  by (simp add: serde_def)

subsection \<open>There is such a codec\<close>

instance jnum :: countable
  by countable_datatype

instance json :: countable
  by countable_datatype

definition unary :: "nat \<Rightarrow> string" where
  "unary n = replicate (Suc n) CHR ''x''"

definition request_tuple :: "rpc_request \<Rightarrow> string \<times> json option \<times> string \<times> json option" where
  "request_tuple req = (rq_jsonrpc req, rq_id req, rq_method req, rq_params req)"

definition unary_codec :: text_codec where
  "unary_codec =
     \<lparr>tx_mail =
        \<lparr>mj_parse = (\<lambda>l. if set l \<subseteq> {CHR ''x''}
           then (let (v, i, m, p) = from_nat (length l - 1) in
             Some \<lparr>rq_jsonrpc = v, rq_id = i, rq_method = m, rq_params = p\<rparr>)
           else None),
         mj_write = (\<lambda>r. Some (unary (to_nat (response_value r)))),
         mj_pretty = (\<lambda>v. Some (unary (to_nat v)))\<rparr>,
      tx_line = (\<lambda>req. unary (to_nat (request_tuple req))),
      tx_read = (\<lambda>s. Some (from_nat (length s - 1)))\<rparr>"

lemma trim_x:
  "trim_start (CHR ''x'' # s) = CHR ''x'' # s" "trim_rev (CHR ''x'' # s) = CHR ''x'' # s"
  by (cases "CHR ''x'' # s" rule: trim_start.cases; auto simp: ws1_def ws2_def ws3_def)
    (cases "CHR ''x'' # s" rule: trim_rev.cases; auto simp: ws1_def ws2_def ws3_def)

lemma unary_line [simp]:
  "plain_line (unary n)" "\<not> blank (unary n)" "CHR 0x0A \<notin> set (unary n)" "length (unary n) = Suc n"
  "set (unary n) = {CHR ''x''}"
proof -
  show "plain_line (unary n)"
    by (simp add: plain_line_def unary_def utf8_ascii list_all_iff del: replicate.simps)
  show "length (unary n) = Suc n" "set (unary n) = {CHR ''x''}" "CHR 0x0A \<notin> set (unary n)"
    by (auto simp: unary_def)
  have "rev (unary n) = unary n"
    by (simp add: unary_def del: replicate.simps)
  moreover have x: "unary n = CHR ''x'' # replicate n CHR ''x''"
    by (simp add: unary_def)
  moreover have "trim_start (unary n) = unary n" "trim_rev (unary n) = unary n"
    by (simp_all add: x trim_x)
  ultimately show "\<not> blank (unary n)"
    by (simp add: blank_def trim_def trim_end_def)
qed

lemma serde_unary: "serde unary_codec"
  by (auto simp: serde_def unary_codec_def unary_line value_codec_def request_tuple_def not_json_def)

section \<open>Fixtures\<close>

definition protocol_server :: "fake_store mail_server" where
  "protocol_server = server_new (fake_api ascii_lowercase) ''mcp-lock-mail'' ''test'' ''INBOX''"

definition message_of :: "nat option \<Rightarrow> string \<Rightarrow> (string \<times> json) list option \<Rightarrow> rpc_request" where
  "message_of i meth params =
     \<lparr>rq_jsonrpc = ''2.0'', rq_id = map_option number i, rq_method = meth, rq_params = map_option jobj params\<rparr>"

definition tool_request :: "nat \<Rightarrow> string \<Rightarrow> (string \<times> json) list \<Rightarrow> rpc_request" where
  "tool_request i name args =
     message_of (Some i) ''tools/call'' (Some [(''name'', JStr name), (''arguments'', jobj args)])"

definition send_line :: "text_codec \<Rightarrow> string \<Rightarrow> string option" where
  "send_line tx line = fst (mail_process_line (tx_mail tx) protocol_server line demo_store)"

definition request_value :: "text_codec \<Rightarrow> rpc_request \<Rightarrow> json option" where
  "request_value tx msg = do { response \<leftarrow> send_line tx (tx_line tx msg); tx_read tx response }"

definition tool_payload :: "text_codec \<Rightarrow> json \<Rightarrow> json option" where
  "tool_payload tx result = do { text \<leftarrow> content_text (field ''result'' result); tx_read tx text }"

section \<open>The tests\<close>

definition initialize_reports_protocol_and_server_info :: "text_codec \<Rightarrow> test" where
  "initialize_reports_protocol_and_server_info tx = do {
     resp \<leftarrow> request_value tx (message_of (Some 1) ''initialize'' (Some []));
     check (field ''id'' resp = number 1);
     check (field ''protocolVersion'' (field ''result'' resp) = JStr ''2024-11-05'');
     check (field ''name'' (field ''serverInfo'' (field ''result'' resp)) = JStr ''mcp-lock-mail'');
     check (as_object (field ''tools'' (field ''capabilities'' (field ''result'' resp))) \<noteq> None) }"

definition tools_list_advertises_three_readonly_tools :: "text_codec \<Rightarrow> test" where
  "tools_list_advertises_three_readonly_tools tx = do {
     resp \<leftarrow> request_value tx (message_of (Some 2) ''tools/list'' None);
     tools \<leftarrow> as_array (field ''tools'' (field ''result'' resp));
     names \<leftarrow> those (map (\<lambda>t. as_str (field ''name'' t)) tools);
     check (names = [''search'', ''list_messages'', ''fetch_message'']);
     check (list_all (\<lambda>forbidden. forbidden \<notin> set names)
       [''send'', ''delete'', ''move'', ''write'', ''send_message'', ''delete_message'']) }"

definition list_messages_returns_newest_first :: "text_codec \<Rightarrow> test" where
  "list_messages_returns_newest_first tx = do {
     resp \<leftarrow> request_value tx (tool_request 3 ''list_messages'' [(''limit'', number 2)]);
     check (field ''isError'' (field ''result'' resp) = JBool False);
     payload \<leftarrow> tool_payload tx resp;
     check (field ''count'' payload = number 2);
     check (field ''uid'' (element 0 (field ''messages'' payload)) = number 3) }"

definition list_messages_works_without_arguments :: "text_codec \<Rightarrow> test" where
  "list_messages_works_without_arguments tx = do {
     resp \<leftarrow> request_value tx (message_of (Some 4) ''tools/call'' (Some [(''name'', JStr ''list_messages'')]));
     check (field ''isError'' (field ''result'' resp) = JBool False);
     payload \<leftarrow> tool_payload tx resp;
     check (field ''count'' payload = number 3) }"

definition search_matches_body_content :: "text_codec \<Rightarrow> test" where
  "search_matches_body_content tx = do {
     resp \<leftarrow> request_value tx (tool_request 5 ''search'' [(''query'', JStr ''lunch'')]);
     payload \<leftarrow> tool_payload tx resp;
     check (field ''count'' payload = number 1);
     check (field ''uid'' (element 0 (field ''messages'' payload)) = number 2) }"

definition fetch_message_returns_full_body :: "text_codec \<Rightarrow> test" where
  "fetch_message_returns_full_body tx = do {
     resp \<leftarrow> request_value tx (tool_request 6 ''fetch_message'' [(''uid'', number 1)]);
     check (field ''isError'' (field ''result'' resp) = JBool False);
     payload \<leftarrow> tool_payload tx resp;
     check (field ''subject'' payload = JStr ''Welcome to MCP-Lock'');
     body \<leftarrow> as_str (field ''body_text'' payload);
     check (str_contains ''demo message'' body) }"

definition injection_content_is_returned_inert_not_acted_on :: "text_codec \<Rightarrow> test" where
  "injection_content_is_returned_inert_not_acted_on tx = do {
     resp \<leftarrow> request_value tx (tool_request 7 ''fetch_message'' [(''uid'', number 3)]);
     payload \<leftarrow> tool_payload tx resp;
     body \<leftarrow> as_str (field ''body_text'' payload);
     check (str_contains ''Ignore previous instructions'' body) }"

definition fetch_unknown_uid_is_tool_error_not_protocol_error :: "text_codec \<Rightarrow> test" where
  "fetch_unknown_uid_is_tool_error_not_protocol_error tx = do {
     resp \<leftarrow> request_value tx (tool_request 8 ''fetch_message'' [(''uid'', number 999)]);
     check (field ''error'' resp = JNull);
     check (field ''isError'' (field ''result'' resp) = JBool True) }"

definition unknown_tool_is_tool_error :: "text_codec \<Rightarrow> test" where
  "unknown_tool_is_tool_error tx = do {
     resp \<leftarrow> request_value tx (tool_request 9 ''delete_everything'' []);
     check (field ''isError'' (field ''result'' resp) = JBool True) }"

definition error_code :: "json \<Rightarrow> json" where
  "error_code resp = field ''code'' (field ''error'' resp)"

definition missing_tool_name_is_invalid_params :: "text_codec \<Rightarrow> test" where
  "missing_tool_name_is_invalid_params tx = do {
     resp \<leftarrow> request_value tx (message_of (Some 10) ''tools/call'' (Some []));
     check (error_code resp = JNum (NegInt (- 32602))) }"

definition missing_required_argument_is_invalid_params :: "text_codec \<Rightarrow> test" where
  "missing_required_argument_is_invalid_params tx = do {
     resp \<leftarrow> request_value tx (tool_request 11 ''search'' []);
     check (error_code resp = JNum (NegInt (- 32602))) }"

definition unknown_method_is_method_not_found_test :: "text_codec \<Rightarrow> test" where
  "unknown_method_is_method_not_found_test tx = do {
     resp \<leftarrow> request_value tx (message_of (Some 12) ''no/such/method'' None);
     check (error_code resp = JNum (NegInt (- 32601))) }"

definition invalid_json_is_parse_error_with_null_id :: "text_codec \<Rightarrow> test" where
  "invalid_json_is_parse_error_with_null_id tx = do {
     response \<leftarrow> send_line tx not_json;
     resp \<leftarrow> tx_read tx response;
     check (error_code resp = JNum (NegInt (- 32700)));
     check (field ''id'' resp = JNull) }"

definition notifications_get_no_response :: "text_codec \<Rightarrow> test" where
  "notifications_get_no_response tx =
     check (send_line tx (tx_line tx (message_of None ''notifications/initialized'' None)) = None)"

subsection \<open>Evaluation\<close>

text \<open>Under the laws of the codec a request is answered by the handler's response, as a value.\<close>

lemma request_value_eq:
  assumes "serde tx"
  shows "request_value tx msg =
    map_option response_value (fst (mail_handle_request (tx_mail tx) protocol_server msg demo_store))"
proof -
  obtain r w where h: "mail_handle_request (tx_mail tx) protocol_server msg demo_store = (r, w)"
    by force
  show ?thesis
  proof (cases r)
    case None
    with h show ?thesis
      by (simp add: request_value_def send_line_def mail_process_line_def serde_request [OF assms])
  next
    case (Some resp)
    obtain s where "write_or_internal (tx_mail tx) resp = s" "tx_read tx s = Some (response_value resp)"
      by (rule serde_response [OF assms])
    with h Some show ?thesis
      by (simp add: request_value_def send_line_def mail_process_line_def serde_request [OF assms])
  qed
qed

lemma protocol_tests:
  assumes "serde tx"
  shows "initialize_reports_protocol_and_server_info tx = Some ()"
    "tools_list_advertises_three_readonly_tools tx = Some ()"
    "fetch_unknown_uid_is_tool_error_not_protocol_error tx = Some ()"
    "unknown_tool_is_tool_error tx = Some ()"
    "missing_tool_name_is_invalid_params tx = Some ()"
    "missing_required_argument_is_invalid_params tx = Some ()"
    "unknown_method_is_method_not_found_test tx = Some ()"
  unfolding initialize_reports_protocol_and_server_info_def tools_list_advertises_three_readonly_tools_def
    fetch_unknown_uid_is_tool_error_not_protocol_error_def unknown_tool_is_tool_error_def
    missing_tool_name_is_invalid_params_def missing_required_argument_is_invalid_params_def
    unknown_method_is_method_not_found_test_def request_value_eq [OF assms]
  by code_simp+

text \<open>The payload of a tool's answer: the printed value is read back.\<close>

lemma printed:
  assumes "serde tx"
  obtains p where "mj_pretty (tx_mail tx) = (\<lambda>v. Some (p v))" "\<And>v. tx_read tx (p v) = Some v"
proof -
  have "\<forall>v. \<exists>s. mj_pretty (tx_mail tx) v = Some s \<and> tx_read tx s = Some v"
    using serde_values [OF assms] by (simp add: value_codec_def)
  then obtain p where "\<forall>v. mj_pretty (tx_mail tx) v = Some (p v) \<and> tx_read tx (p v) = Some v"
    by metis
  then show thesis by (intro that [of p]) auto
qed

lemma handle_pretty:
  "mail_handle_request mj srv req w =
     mail_handle_request \<lparr>mj_parse = (\<lambda>l. None), mj_write = (\<lambda>r. None), mj_pretty = mj_pretty mj\<rparr> srv req w"
  by (simp only: mail_handle_request_def mail_tools_call_def mail_json.select_convs)

lemma payload_tests:
  assumes "serde tx"
  shows "list_messages_returns_newest_first tx = Some ()"
    "list_messages_works_without_arguments tx = Some ()"
    "search_matches_body_content tx = Some ()"
    "fetch_message_returns_full_body tx = Some ()"
    "injection_content_is_returned_inert_not_acted_on tx = Some ()"
proof -
  obtain p where p: "mj_pretty (tx_mail tx) = (\<lambda>v. Some (p v))" "\<And>v. tx_read tx (p v) = Some v"
    by (rule printed [OF assms]) blast
  note eq = request_value_eq [OF assms] handle_pretty [of "tx_mail tx"] p(1)
  show "list_messages_returns_newest_first tx = Some ()"
    unfolding list_messages_returns_newest_first_def eq by (code_simp, simp only: p(2), code_simp)
  show "list_messages_works_without_arguments tx = Some ()"
    unfolding list_messages_works_without_arguments_def eq by (code_simp, simp only: p(2), code_simp)
  show "search_matches_body_content tx = Some ()"
    unfolding search_matches_body_content_def eq by (code_simp, simp only: p(2), code_simp)
  show "fetch_message_returns_full_body tx = Some ()"
    unfolding fetch_message_returns_full_body_def eq by (code_simp, simp only: p(2), code_simp)
  show "injection_content_is_returned_inert_not_acted_on tx = Some ()"
    unfolding injection_content_is_returned_inert_not_acted_on_def eq by (code_simp, simp only: p(2), code_simp)
qed

lemma refusal_tests:
  assumes "serde tx"
  shows "invalid_json_is_parse_error_with_null_id tx = Some ()" "notifications_get_no_response tx = Some ()"
proof -
  obtain s where s: "write_or_internal (tx_mail tx) (response_error JNull PARSE_ERROR ''invalid JSON'') = s"
    "tx_read tx s = Some (response_value (response_error JNull PARSE_ERROR ''invalid JSON''))"
    by (rule serde_response [OF assms])
  then show "invalid_json_is_parse_error_with_null_id tx = Some ()"
    by (simp add: invalid_json_is_parse_error_with_null_id_def send_line_def mail_process_line_def
        serde_not_json [OF assms] response_error_def response_value_def error_value_def error_code_def
        field_def jget_jobj check_def PARSE_ERROR_def)
  show "notifications_get_no_response tx = Some ()"
    by (simp add: notifications_get_no_response_def send_line_def mail_process_line_def check_def
        serde_request [OF assms] mail_handle_request_def message_of_def is_notification_def)
qed

section \<open>The loop\<close>

text \<open>\<open>str::lines\<close>.\<close>

function text_lines :: "string \<Rightarrow> string list" where
  "text_lines s =
     (case split_once CHR 0x0A s of
        None \<Rightarrow> if s = [] then [] else [s]
      | Some (l, rest) \<Rightarrow> strip_cr l # text_lines rest)"
  by pat_completeness auto
termination
  by (relation "measure length") (auto simp: split_once_Some)

declare text_lines.simps [simp del]

lemma text_lines_unlines: "\<forall>l \<in> set ls. plain_line l \<Longrightarrow> text_lines (unlines ls) = ls"
proof (induction ls)
  case Nil
  then show ?case by (simp add: text_lines.simps)
next
  case (Cons l ls)
  then show ?case by (subst text_lines.simps) (auto simp: plain_line_def strip_cr_def)
qed

definition first_message :: rpc_request where
  "first_message = message_of (Some 1) ''initialize'' (Some [])"

definition second_message :: rpc_request where
  "second_message = message_of (Some 2) ''tools/list'' None"

definition run_loop_processes_multiple_lines_and_skips_blanks :: "text_codec \<Rightarrow> test" where
  "run_loop_processes_multiple_lines_and_skips_blanks tx =
     (let input = unlines [tx_line tx first_message, [],
            tx_line tx (message_of None ''notifications/initialized'' None), tx_line tx second_message];
          (r, w, output) = mail_run (tx_mail tx) protocol_server mem_writer input Eof (demo_store, [])
      in do {
        u \<leftarrow> unwrap r;
        let lines = text_lines output;
        check (length lines = 2);
        l \<leftarrow> at lines 0;
        first \<leftarrow> tx_read tx l;
        l \<leftarrow> at lines 1;
        second \<leftarrow> tx_read tx l;
        check (field ''id'' first = number 1);
        check (field ''id'' second = number 2) })"

lemma plain_empty: "plain_line []"
  by (simp add: plain_line_def utf8_ascii)

lemma answered_id: "field ''id'' (response_value (response_success i v)) = i"
  by (simp add: response_value_def response_success_def field_def jget_jobj)

lemma loop_test:
  assumes "serde tx"
  shows "run_loop_processes_multiple_lines_and_skips_blanks tx = Some ()"
proof -
  let ?r1 = "response_success (number 1) (mail_initialize_result protocol_server)"
  let ?r2 = "response_success (number 2) (jobj [(''tools'', JArr tool_definitions)])"
  obtain s1 where s1: "write_or_internal (tx_mail tx) ?r1 = s1" "tx_read tx s1 = Some (response_value ?r1)"
    "plain_line s1" by (rule serde_response [OF assms])
  obtain s2 where s2: "write_or_internal (tx_mail tx) ?r2 = s2" "tx_read tx s2 = Some (response_value ?r2)"
    "plain_line s2" by (rule serde_response [OF assms])
  let ?ls = "[tx_line tx first_message, [], tx_line tx (message_of None ''notifications/initialized'' None),
    tx_line tx second_message]"
  have "mail_answers (tx_mail tx) protocol_server ?ls demo_store = ([s1, s2], demo_store)"
    using s1(1) s2(1)
    by (simp add: serde_request [OF assms] mail_process_line_def mail_handle_request_def first_message_def
        second_message_def message_of_def is_notification_def)
  moreover have "\<forall>l \<in> set ?ls. plain_line l"
    by (simp add: serde_request [OF assms] plain_empty)
  ultimately have "mail_run (tx_mail tx) protocol_server mem_writer (unlines ?ls) Eof (demo_store, []) =
      (Ok (), demo_store, unlines [s1, s2])"
    by (simp only: run_answers) simp
  moreover have "text_lines (unlines [s1, s2]) = [s1, s2]"
    by (rule text_lines_unlines) (simp add: s1 s2)
  ultimately show ?thesis
    by (simp add: run_loop_processes_multiple_lines_and_skips_blanks_def s1(2) s2(2) answered_id at_def check_def
        del: unlines_simps)
qed

end
