(* ===== verification/TransportTests.thy ===== *)
theory TransportTests
  imports Harness Endpoint ControlBind McpClient
begin

text \<open>
  The tests of \<open>crates/transport\<close> (\<open>endpoint.rs\<close>, \<open>control.rs\<close>, \<open>tests/http.rs\<close>) and of
  \<open>crates/broker/src/mcp_client.rs\<close>. A socket test is the exchange it makes: the request that
  arrives and the answer that is written. What a test reads of a JSON text is stated for every
  codec that reads back what it prints.
\<close>

section \<open>\<open>endpoint.rs\<close>\<close>

text \<open>The subscriber's end: what it was sent, and its being dropped.\<close>

definition received :: "notifier \<Rightarrow> nat \<Rightarrow> string list option" where
  "received n i = do { subs \<leftarrow> lock n; tx \<leftarrow> at subs i; Some (tx_sent tx) }"

definition drop_receiver :: "nat \<Rightarrow> notifier \<Rightarrow> notifier" where
  "drop_receiver i n =
     (case lock n of
        None \<Rightarrow> n
      | Some subs \<Rightarrow> put n (subs[i := (subs ! i)\<lparr>tx_live := False\<rparr>]))"

definition notifier_broadcasts_to_subscribers_and_drops_dead_ones :: "(json \<Rightarrow> string) \<Rightarrow> test" where
  "notifier_broadcasts_to_subscribers_and_drops_dead_ones text =
     (let n = subscribe notifier_new in do {
        check (subscriber_count n = 1);
        let n = notify_tools_list_changed text n;
        messages \<leftarrow> received n 0;
        got \<leftarrow> at messages 0;
        check (str_contains ''notifications/tools/list_changed'' got);
        let n = notify text ''x'' (jobj []) (drop_receiver 0 n);
        check (subscriber_count n = 0) })"

text \<open>The method of a notification stands in its text.\<close>

lemma notifier_test:
  assumes "\<And>params. str_contains ''notifications/tools/list_changed''
    (text (notification ''notifications/tools/list_changed'' params))"
  shows "notifier_broadcasts_to_subscribers_and_drops_dead_ones text = Some ()"
  by (simp add: notifier_broadcasts_to_subscribers_and_drops_dead_ones_def notify_tools_list_changed_def
      notify_def subscribe_def notifier_new_def subscriber_count_def received_def drop_receiver_def at_def
      check_def assms)

text \<open>\<open>read_to_string\<close>: reads of \<open>n\<close> bytes until one delivers nothing.\<close>

fun read_to_end :: "nat \<Rightarrow> nat \<Rightarrow> sse_event list \<Rightarrow> sse_reader \<Rightarrow> string option" where
  "read_to_end 0 n evs r = None"
| "read_to_end (Suc fuel) n evs r =
     (case sse_read n evs r of
        (bs, evs', r') \<Rightarrow>
          if bs = [] then Some [] else map_option ((@) bs) (read_to_end fuel n evs' r'))"

definition sse_reader_emits_connected_comment_then_events_then_eof :: test where
  "sse_reader_emits_connected_comment_then_events_then_eof = do {
     out \<leftarrow> read_to_end 10 32 [Message ''hello'', Gone] sse_new;
     check (starts_with ('': connected'' @ blank_line) out);
     check (str_contains (''data: hello'' @ blank_line) out) }"

definition sse_reader_emits_keepalive_when_idle :: test where
  "sse_reader_emits_keepalive_when_idle =
     (let (first, evs, reader) = sse_read 64 [Idle] (sse_with_keepalive 20);
          (bytes, evs, reader) = sse_read 64 evs reader
      in check (bytes = '': keepalive'' @ blank_line))"

lemma sse_tests:
  "sse_reader_emits_connected_comment_then_events_then_eof = Some ()"
  "sse_reader_emits_keepalive_when_idle = Some ()"
  by code_simp+

section \<open>\<open>tests/http.rs\<close>\<close>

text \<open>A handler that echoes the method back with the client it was given.\<close>

definition echo_mcp :: "unit mcp_handle" where
  "echo_mcp req client h =
     (jobj [(''jsonrpc'', JStr ''2.0''),
        (''id'', case jget req ''id'' of Some i \<Rightarrow> i | None \<Rightarrow> JNull),
        (''result'', jobj [
           (''method'', JStr (case Option.bind (jget req ''method'') as_str of Some m \<Rightarrow> m | None \<Rightarrow> [])),
           (''client'', JStr (client_id client))])], h)"

interpretation echo: mcp_handler echo_mcp
  by unfold_locales (auto simp: echo_mcp_def request_id_def jget_jobj)

definition test_token :: string where
  "test_token = ''test-bearer-placeholder''"

text \<open>
  A codec as the tests use it: what it prints for a response is read back, and the body of a
  request is the text of the value it reads, within the limit of the endpoint.
\<close>

definition prints_back :: "http_json \<Rightarrow> bool" where
  "prints_back hj \<longleftrightarrow>
     (\<forall>v. hj_parse hj (hj_text hj v) = Some v \<and> hj_print hj v = Some (hj_text hj v))"

definition sent_as :: "http_json \<Rightarrow> json \<Rightarrow> string \<Rightarrow> bool" where
  "sent_as hj v body \<longleftrightarrow> hj_parse hj body = Some v \<and> utf8_valid body \<and> length body \<le> max_body_bytes"

text \<open>One POST, and the endpoint with the validator of the tests.\<close>

definition post_request :: "string option \<Rightarrow> string \<Rightarrow> http_request" where
  "post_request auth body =
     \<lparr>hq_method = Post,
      hq_headers = (case auth of Some token \<Rightarrow> [(''Authorization'', ''Bearer '' @ token)] | None \<Rightarrow> [])
        @ [(''Content-Type'', ''application/json'')],
      hq_body = body, hq_body_end = Eof\<rparr>"

definition http_request :: "http_json \<Rightarrow> string option \<Rightarrow> string \<Rightarrow> (nat \<times> string) option" where
  "http_request hj auth body = do {
     v \<leftarrow> bearer_new test_token ''claude'';
     (case handle_request hj (=) (validate_bearer v) echo_mcp (post_request auth body) () notifier_new of
        (Response status headers out, h, n) \<Rightarrow> Some (status, out)
      | (EventStream status headers r, h, n) \<Rightarrow> None) }"

definition rejects_request_without_bearer :: "http_json \<Rightarrow> string \<Rightarrow> test" where
  "rejects_request_without_bearer hj body = do {
     (status, out) \<leftarrow> http_request hj None body;
     check (status = 401) }"

definition rejects_request_with_wrong_bearer :: "http_json \<Rightarrow> string \<Rightarrow> test" where
  "rejects_request_with_wrong_bearer hj body = do {
     (status, out) \<leftarrow> http_request hj (Some ''wrong-token'') body;
     check (status = 401) }"

definition accepts_authenticated_request_and_dispatches_to_handler :: "http_json \<Rightarrow> string \<Rightarrow> test" where
  "accepts_authenticated_request_and_dispatches_to_handler hj body = do {
     (status, out) \<leftarrow> http_request hj (Some test_token) body;
     check (status = 200);
     parsed \<leftarrow> hj_parse hj out;
     check (field ''id'' parsed = JNum (PosInt 7));
     check (field ''method'' (field ''result'' parsed) = JStr ''tools/list'');
     check (field ''client'' (field ''result'' parsed) = JStr ''claude'') }"

definition batched_request_array_is_rejected_as_invalid :: "http_json \<Rightarrow> string \<Rightarrow> test" where
  "batched_request_array_is_rejected_as_invalid hj body = do {
     (status, out) \<leftarrow> http_request hj (Some test_token) body;
     check (status = 400);
     parsed \<leftarrow> hj_parse hj out;
     check (field ''code'' (field ''error'' parsed) = JNum (NegInt (- 32600))) }"

definition notification_is_accepted_without_body :: "http_json \<Rightarrow> string \<Rightarrow> test" where
  "notification_is_accepted_without_body hj body = do {
     (status, out) \<leftarrow> http_request hj (Some test_token) body;
     check (status = 202);
     check (blank out) }"

text \<open>The bodies the tests send.\<close>

definition rpc_value :: "(string \<times> json) list \<Rightarrow> string \<Rightarrow> json" where
  "rpc_value extra meth = jobj ([(''jsonrpc'', JStr ''2.0''), (''method'', JStr meth)] @ extra)"

definition batch_value :: json where
  "batch_value = JArr [rpc_value [(''id'', JNum (PosInt 1))] ''a'', rpc_value [(''id'', JNum (PosInt 2))] ''b'']"

lemma refused:
  "http_request hj None body = Some (401, ''unauthorized'')"
  "http_request hj (Some ''wrong-token'') body = Some (401, ''unauthorized'')"
  by code_simp+

lemma authorized:
  "bearer_new test_token ''claude'' = Some \<lparr>sb_expected = as_bytes test_token, sb_client_id = ''claude''\<rparr>"
  "validate_bearer \<lparr>sb_expected = as_bytes test_token, sb_client_id = ''claude''\<rparr>
     (bearer_token (=) (post_request (Some test_token) body)) = Ok (ValidatedClient ''claude'')"
  by code_simp+

lemma post_request_simps [simp]:
  "hq_method (post_request auth body) = Post" "hq_body (post_request auth body) = body"
  "hq_body_end (post_request auth body) = Eof"
  by (simp_all add: post_request_def)

lemma is_array_jobj [simp]: "\<not> is_array (jobj ps)"
  by (simp add: jobj_def)

text \<open>An authorised POST of a value reaches \<open>handle_post\<close> with the value.\<close>

lemma accepted:
  assumes "sent_as hj v body"
  shows "http_request hj (Some test_token) body =
    Some (if is_array v then (400, invalid_request_body (hj_text hj))
      else if jget v ''id'' = None then (202, [])
      else (200, case hj_print hj (fst (echo_mcp v (ValidatedClient ''claude'') ())) of
              Some out \<Rightarrow> out | None \<Rightarrow> internal_error_body (hj_text hj)))"
proof -
  have "read_to_string max_body_bytes body Eof = Some body" "hj_parse hj body = Some v"
    using assms by (auto simp: sent_as_def read_to_string_def)
  then show ?thesis
    by (simp add: http_request_def authorized handle_request_def handle_post_def json_response_def
        split: prod.split)
qed

lemma http_refusal_tests:
  "rejects_request_without_bearer hj body = Some ()"
  "rejects_request_with_wrong_bearer hj body = Some ()"
  by (simp_all add: rejects_request_without_bearer_def rejects_request_with_wrong_bearer_def refused check_def)

lemmas response_fields = field_def jget_jobj check_def rpc_value_def batch_value_def

lemma dispatch_test:
  assumes "prints_back hj" and "sent_as hj (rpc_value [(''id'', JNum (PosInt 7))] ''tools/list'') body"
  shows "accepts_authenticated_request_and_dispatches_to_handler hj body = Some ()"
  using assms(1) accepted [OF assms(2)]
  by (simp add: accepts_authenticated_request_and_dispatches_to_handler_def response_fields echo_mcp_def
      prints_back_def)

lemma batch_test:
  assumes "prints_back hj" and "sent_as hj batch_value body"
  shows "batched_request_array_is_rejected_as_invalid hj body = Some ()"
  using assms(1) accepted [OF assms(2)]
  by (simp add: batched_request_array_is_rejected_as_invalid_def response_fields prints_back_def
      invalid_request_body_def rpc_error_def)

lemma notification_test:
  assumes "sent_as hj (rpc_value [] ''notifications/initialized'') body"
  shows "notification_is_accepted_without_body hj body = Some ()"
  using accepted [OF assms]
  by (simp add: notification_is_accepted_without_body_def response_fields)

section \<open>\<open>control.rs\<close>\<close>

text \<open>\<open>EchoHandler\<close>; \<open>show\<close> is the debug format of a request.\<close>

definition echo_control :: "(control_request \<Rightarrow> string) \<Rightarrow> unit control_handle" where
  "echo_control show_request req h =
     ((case req of CList \<Rightarrow> RList [''mail.search''] | other \<Rightarrow> RDone (show_request other)), h)"

text \<open>A file system whose directory \<open>/tmp\<close> exists, and a process with the mask 022 whose calls succeed.\<close>

definition test_files :: filesystem where
  "test_files = [[''tmp''] \<mapsto> Directory 0x3FF]"

definition test_env :: bind_env where
  "test_env = \<lparr>be_umask = 0x12, be_mkdir_denied = (\<lambda>p. False), be_remove_denied = False,
     be_bind_error = None, be_chmod_error = None, be_text = (\<lambda>e. ''error'')\<rparr>"

fun permissions :: "node \<Rightarrow> u32" where
  "permissions (Directory m) = m AND 0x1FF"
| "permissions (Socket m) = m AND 0x1FF"
| "permissions (File m) = m AND 0x1FF"

definition mode_after_bind :: "path \<Rightarrow> path \<Rightarrow> u32 option" where
  "mode_after_bind sock p =
     (case server_bind test_env sock test_files of
        (Inl e, states) \<Rightarrow> None
      | (Inr u, states) \<Rightarrow> map_option permissions (last (test_files # states) p))"

definition client_server_round_trip_over_a_real_socket ::
  "control_codec \<Rightarrow> (control_request \<Rightarrow> string) \<Rightarrow> test" where
  "client_server_round_trip_over_a_real_socket cd show_request =
     (let path = [''tmp'', ''mcp-lock-test.sock'']; handler = echo_control show_request in do {
        m \<leftarrow> mode_after_bind path path;
        check (m = 0x180);
        resp \<leftarrow> unwrap (client_request cd (broker_peer cd handler ()) CList);
        check (resp = RList [''mail.search'']);
        resp \<leftarrow> unwrap (client_request cd (broker_peer cd handler ()) (CPause ''x''));
        check (case resp of RDone m \<Rightarrow> True | _ \<Rightarrow> False) })"

definition bind_makes_the_socket_parent_owner_only :: test where
  "bind_makes_the_socket_parent_owner_only =
     (let dir = [''tmp'', ''mcp-lock-test-dir'']; path = dir @ [''control.sock''] in do {
        m \<leftarrow> mode_after_bind path dir;
        check (m = 0x1C0) })"

text \<open>The peer reads the request and closes the stream without writing a response.\<close>

definition request_reports_eof_when_broker_closes_without_responding :: "control_codec \<Rightarrow> test" where
  "request_reports_eof_when_broker_closes_without_responding cd =
     check (client_request cd (Ok (\<lambda>line. Ok ([], Eof))) CList
       = Err ''broker closed the control connection without a response'')"

lemma bind_tests:
  "mode_after_bind [''tmp'', ''mcp-lock-test.sock''] [''tmp'', ''mcp-lock-test.sock''] = Some 0x180"
  "bind_makes_the_socket_parent_owner_only = Some ()"
  by code_simp+

lemma eof_test:
  assumes "print_request cd CList = Ok line"
  shows "request_reports_eof_when_broker_closes_without_responding cd = Some ()"
  by (simp add: request_reports_eof_when_broker_closes_without_responding_def client_request_def assms
      read_line_def check_def utf8_ascii)

lemma socket_test:
  assumes requests: "\<And>req. line_codec (print_request cd) (parse_request cd) req"
    and responses: "\<And>resp. line_codec (print_response cd) (parse_response cd) resp"
  shows "client_server_round_trip_over_a_real_socket cd show_request = Some ()"
proof -
  have "client_request cd (broker_peer cd (echo_control show_request) ()) req =
      Ok (fst (echo_control show_request req ()))" for req
    by (rule exchange_returns [OF requests _ responses, where h' = "()"]) (simp add: echo_control_def)
  then show ?thesis
    by (simp add: client_server_round_trip_over_a_real_socket_def bind_tests check_def echo_control_def)
qed

section \<open>\<open>mcp_client.rs\<close>\<close>

text \<open>
  \<open>/bin/sleep\<close>: it is spawned with both pipes, accepts what is written and never answers; the
  spawn happens at \<open>now\<close>.
\<close>

definition sleeping :: "nat \<Rightarrow> spawned_process" where
  "sleeping now =
     \<lparr>sp_stdin = True, sp_stdout = True,
      sp_client = \<lparr>sc_written = [], sc_queue = [], sc_closed = None, sc_next_id = 0, sc_timeout = 0,
        sc_time = now, sc_writes = [], sc_alive = Ok True\<rparr>\<rparr>"

definition hung_child_times_out_quickly ::
  "json_lib \<Rightarrow> (string \<Rightarrow> nat) \<Rightarrow> string \<Rightarrow> nat \<Rightarrow> test" where
  "hung_child_times_out_quickly jl cost version now =
     (let ctx = first_party []; timeout = 200;
          os = (\<lambda>command args env. Ok (sleeping now));
          result = spawn_with_timeout jl cost version os [] ''/bin/sleep'' [''3600''] ctx [] timeout;
          (r, c) = initialize jl cost version ((sp_client (sleeping now))\<lparr>sc_next_id := 1, sc_timeout := timeout\<rparr>)
      in do {
        check (result = Err ChildTimeout);
        check (sc_time c - now < 5000) })"

lemma hung_child_test:
  assumes "\<And>v. \<exists>line. print_json jl v = Ok line"
  shows "hung_child_times_out_quickly jl cost version now = Some ()"
proof -
  obtain print where "\<And>v. print_json jl v = Ok (print v)"
    using assms by metis
  then show ?thesis
    by (simp add: hung_child_times_out_quickly_def spawn_with_timeout_def sleeping_def initialize_def
        request_def write_line_def request_loop.simps recv_timeout_def check_def)
qed

end
