(* ===== verification/SuperviseTests.thy ===== *)
theory SuperviseTests
  imports SuperviseProps AggregatorTests MailTests
begin

text \<open>
  The test of \<open>crates/broker/tests/real_child.rs\<close>: the broker spawns the mail server with \<open>--fake\<close>
  and calls it through its pipes. It is stated for any pair of codecs that convey the messages of the
  test.
\<close>

section \<open>The processes\<close>

definition mail_path :: string where "mail_path = ''target/debug/mcp-lock-mail''"

text \<open>What the operating system starts: the demonstration server of \<open>run_fake\<close>, for this path and flag.\<close>

definition fake_server :: "string \<Rightarrow> fake_store mail_server" where
  "fake_server version = server_new (fake_api ascii_lowercase) SERVER_NAME version ''INBOX''"

definition launch_mail :: "string \<Rightarrow> fake_store launch" where
  "launch_mail version command args env =
     (if command = mail_path \<and> args = [''--fake''] then Ok (fake_server version, demo_store)
      else Err ''No such file or directory'')"

text \<open>It is the server that \<open>main\<close> runs for this command line, over its whole input.\<close>

lemma launch_is_main:
  "mail_main mj ascii_lowercase ml il version [''--fake''] vars wr bytes fin (net, out) =
     (case mail_serve mj (fake_server version) wr bytes fin (demo_store, out) of
        (code, ls, store, out') \<Rightarrow>
          (code, (SERVER_NAME @ '' '' @ version @ '': starting with in-memory demo fixture (no network)'') # ls,
           [], net, out'))"
  by (simp add: mail_main_def run_fake_def fake_server_def split: prod.split)

definition mail_manifest_entry :: server_manifest where
  "mail_manifest_entry =
     \<lparr>srv_id = ''mail'', srv_command = mail_path, srv_args = [''--fake''], srv_env = [],
      srv_tools = sm_collect [(''search'', Read), (''list_messages'', Read), (''fetch_message'', Read)]\<rparr>"

section \<open>The test\<close>

definition broker_supervises_real_mail_server_and_aggregates_tools :: "wire \<Rightarrow> string \<Rightarrow> string \<Rightarrow> test" where
  "broker_supervises_real_mail_server_and_aggregates_tools wi broker_version mail_version = do {
     loaded \<leftarrow> unwrap (load \<lparr>mf_servers = [mail_manifest_entry]\<rparr>);
     agg \<leftarrow> unwrap (build (piped_host wi broker_version (launch_mail mail_version) []) loaded ());
     names \<leftarrow> tool_names (aggregated_tools agg 0);
     check (names = [''mail.fetch_message'', ''mail.list_messages'', ''mail.search'']);
     let (r, agg) = call (piped_api wi) ''mail.fetch_message'' (jobj [(''uid'', number 1)]) 0 agg;
     result \<leftarrow> unwrap r;
     text \<leftarrow> content_text result;
     check (str_contains ''Welcome to MCP-Lock'' text);
     let (r, agg) = call (piped_api wi) ''mail.search'' (jobj [(''query'', JStr ''lunch'')]) 0 agg;
     search \<leftarrow> unwrap r;
     check (field ''isError'' search = JBool False) }"

definition real_child_calls :: "tool_call_at list" where
  "real_child_calls =
     [(0, ''fetch_message'', jobj [(''uid'', number 1)]), (0, ''search'', jobj [(''query'', JStr ''lunch'')])]"

text \<open>A JSON printer writes a string without quotes, backslashes and control characters as it is.\<close>

definition prints_strings :: "(json \<Rightarrow> string option) \<Rightarrow> bool" where
  "prints_strings pretty \<longleftrightarrow>
     (\<forall>v k s. jget v k = Some (JStr s) \<and> list_all (\<lambda>c. c \<notin> {CHR 0x22, CHR 0x5C} \<and> (32 :: nat) \<le> of_char c) s
        \<longrightarrow> (\<exists>t. pretty v = Some t \<and> str_contains s t))"

lemma fetch_welcome:
  assumes "prints_strings pretty"
  shows "\<exists>t. mail_call pretty (fake_api ascii_lowercase) ''fetch_message'' (Some (jobj [(''uid'', number 1)]))
      ''INBOX'' demo_store = (Ok (ok_text t), demo_store) \<and> str_contains ''Welcome to MCP-Lock'' t"
proof -
  have "case fake_fetch ''INBOX'' 1 demo_store of (Inl e, s) \<Rightarrow> False
      | (Inr m, s) \<Rightarrow> mg_subject m = ''Welcome to MCP-Lock''"
    by code_simp
  then obtain m where m: "fst (fake_fetch ''INBOX'' 1 demo_store) = Ok m" "mg_subject m = ''Welcome to MCP-Lock''"
    by (auto split: sum.splits prod.splits)
  have f: "fake_fetch ''INBOX'' 1 demo_store = (Ok m, demo_store)"
    using m(1) by (auto simp: fake_fetch_def split: sum.splits)
  let ?v = "jobj [(''uid'', JNum (PosInt (ucast (mg_uid m)))), (''subject'', JStr (mg_subject m)),
    (''from'', JStr (mg_from m)), (''to'', JStr (mg_to m)), (''date'', JStr (mg_date m)),
    (''body_text'', JStr (mg_body_text m))]"
  have "jget ?v ''subject'' = Some (JStr ''Welcome to MCP-Lock'')" by (simp add: jget_jobj m(2))
  moreover have "list_all (\<lambda>c. c \<notin> {CHR 0x22, CHR 0x5C} \<and> (32 :: nat) \<le> of_char c) ''Welcome to MCP-Lock''"
    by code_simp
  ultimately obtain t where t: "pretty ?v = Some t" "str_contains ''Welcome to MCP-Lock'' t"
    using assms unfolding prints_strings_def by blast
  have args: "require_object (Some (jobj [(''uid'', number 1)])) = Ok (sm_collect [(''uid'', number 1)])"
    "require_uid (sm_collect [(''uid'', number 1)]) ''uid'' = Ok 1"
    "optional_mailbox (sm_collect [(''uid'', number 1)]) ''INBOX'' = Ok ''INBOX''"
    by code_simp+
  have "mail_call pretty (fake_api ascii_lowercase) ''fetch_message'' (Some (jobj [(''uid'', number 1)]))
      ''INBOX'' demo_store = (Ok (message_to_result pretty m), demo_store)"
    by (simp add: mail_call_def call_fetch_def args fake_api_def f del: One_nat_def)
  with t show ?thesis by (auto simp: message_to_result_def pretty_or_def)
qed

lemma search_succeeds:
  "\<exists>t. mail_call pretty (fake_api ascii_lowercase) ''search'' (Some (jobj [(''query'', JStr ''lunch'')]))
      ''INBOX'' demo_store = (Ok (ok_text t), demo_store)"
proof -
  have ok: "\<exists>t. summaries_to_result pretty (Ok ms) = ok_text t" for ms
    by (simp add: summaries_to_result_def Let_def) blast
  have "\<not> fails (\<lambda>e. True) (fst (fake_search ascii_lowercase ''INBOX'' ''lunch'' max_list_limit demo_store))"
    by code_simp
  then obtain ms where "fst (fake_search ascii_lowercase ''INBOX'' ''lunch'' max_list_limit demo_store) = Ok ms"
    by (cases "fst (fake_search ascii_lowercase ''INBOX'' ''lunch'' max_list_limit demo_store)") auto
  then have "fake_search ascii_lowercase ''INBOX'' ''lunch'' max_list_limit demo_store = (Ok ms, demo_store)"
    by (auto simp: fake_search_def Let_def split: sum.splits)
  moreover have "require_object (Some (jobj [(''query'', JStr ''lunch'')])) = Ok (sm_collect [(''query'', JStr ''lunch'')])"
    "require_string (sm_collect [(''query'', JStr ''lunch'')]) ''query'' = Ok ''lunch''"
    "optional_mailbox (sm_collect [(''query'', JStr ''lunch'')]) ''INBOX'' = Ok ''INBOX''"
    "optional_limit (sm_collect [(''query'', JStr ''lunch'')]) max_list_limit = Ok max_list_limit"
    by code_simp+
  ultimately show ?thesis
    using ok by (simp add: mail_call_def call_search_def fake_api_def)
qed

lemma real_child_readable: "name \<in> {''search'', ''list_messages'', ''fetch_message''} \<Longrightarrow>
    readable (srv_tools mail_manifest_entry) name"
  by (auto simp: readable_def mail_manifest_entry_def advertised_names sm_get_collect simp del: set_map)

lemma real_child_listing:
  "adopted wi sv mail_manifest_entry n w a \<Longrightarrow>
     tool_names (aggregated_tools a 0) = Some [''mail.fetch_message'', ''mail.list_messages'', ''mail.search'']"
proof -
  have "tool_names (concat (map (slot_listing [(srv_id mail_manifest_entry,
      sm_collect (map (\<lambda>t. (td_name t, td_definition t)) advertised_tools))] 0) [adopted_slot mail_manifest_entry]))
      = Some [''mail.fetch_message'', ''mail.list_messages'', ''mail.search'']"
    by code_simp
  then show "adopted wi sv mail_manifest_entry n w a \<Longrightarrow> ?thesis"
    by (simp add: aggregated_tools_def adopted_def cold_start_def)
qed

lemma real_child_test:
  assumes "wi_delay wi \<le> default_request_timeout" and "prints_strings (mj_pretty (wi_mail wi))"
    and "conveys_handshake wi broker_version (fake_server mail_version)"
    and "conveys_calls wi (fake_server mail_version) mail_manifest_entry 3 real_child_calls demo_store"
  shows "broker_supervises_real_mail_server_and_aggregates_tools wi broker_version mail_version = Some ()"
proof -
  let ?srv = "mail_manifest_entry" and ?sv = "fake_server mail_version"
  have "map_option lm_manifest (unwrap (load \<lparr>mf_servers = [?srv]\<rparr>)) = Some \<lparr>mf_servers = [?srv]\<rparr>"
    by code_simp
  then obtain i where load: "unwrap (load \<lparr>mf_servers = [?srv]\<rparr>) = Some (one_server ?srv i)"
    by (auto simp: one_server_def) (metis loaded_manifest.surjective old.unit.exhaust)
  have id: "namespace_sep \<notin> set (srv_id ?srv)" "srv_id ?srv = ''mail''"
    by (simp_all add: mail_manifest_entry_def namespace_sep_def)
  have "launch_mail mail_version (srv_command ?srv) (srv_args ?srv) (command_env [] (srv_env ?srv))
      = Ok (?sv, demo_store)"
    by (simp add: launch_mail_def mail_manifest_entry_def)
  from build_adopts [where integrity = i and launch = "launch_mail mail_version", OF id(1) assms(1) this assms(3)] obtain a where
    build: "build (piped_host wi broker_version (launch_mail mail_version) []) (one_server ?srv i) () = Ok a"
    and a: "adopted wi ?sv ?srv 3 demo_store a" by blast
  have srv: "sv_store ?sv = fake_api ascii_lowercase" "sv_mailbox ?sv = ''INBOX''"
    by (simp_all add: fake_server_def server_new_def)
  obtain t where t: "direct_call (wi_mail wi) ?sv ''fetch_message'' (jobj [(''uid'', number 1)]) demo_store
      = (Ok (ok_text t), demo_store)" "str_contains ''Welcome to MCP-Lock'' t"
    using fetch_welcome [OF assms(2)] by (auto simp: direct_call_def srv)
  obtain u where u: "direct_call (wi_mail wi) ?sv ''search'' (jobj [(''query'', JStr ''lunch'')]) demo_store
      = (Ok (ok_text u), demo_store)"
    using search_succeeds [of "mj_pretty (wi_mail wi)"] by (auto simp: direct_call_def srv)
  obtain a1 a2 where calls:
    "call (piped_api wi) ''mail.fetch_message'' (jobj [(''uid'', number 1)]) 0 a = (Ok (ok_text t), a1)"
    "call (piped_api wi) ''mail.search'' (jobj [(''query'', JStr ''lunch'')]) 0 a1 = (Ok (ok_text u), a2)"
    using adopted_calls [OF a id(1) assms(4)] real_child_readable
    by (auto simp: real_child_calls_def t(1) u id(2) call_result_def external_name_def namespace_sep_def
        simp del: One_nat_def split: prod.splits)
  have "content_text (ok_text t) = Some t" "field ''isError'' (ok_text u) = JBool False"
    by (simp_all add: content_text_def ok_text_def text_result_def field_def element_def at_def jget_jobj)
  then show ?thesis
    by (simp add: broker_supervises_real_mail_server_and_aggregates_tools_def load build
        real_child_listing [OF a] calls t(2) check_def del: One_nat_def)
qed

end
