(* ===== verification/Spec2Isabelle.thy ===== *)
theory Spec2Isabelle
  imports CoreProps ConfirmProps DaemonProps MailMain ImapSession ExecPlatform ConcProps Clock ControlBind Gateway
    CoreTests AggregatorTests McpTests MailProtocolTests TransportTests SuperviseTests
begin

text \<open>
  A verification development of MCP-Lock (\<open>StevieHeyes/MCP-Lock\<close>), a local control plane for MCP
  servers written in Rust.

  The program. A broker (\<open>crates/broker\<close>, the daemon \<open>mcp-lockd\<close>) supervises child MCP servers
  that an operator's manifest declares. It lists and calls their tools on behalf of a model, over
  an authenticated HTTP endpoint (\<open>crates/transport/src/endpoint.rs\<close>). Tools classified \<open>Read\<close>
  are exposed while their server runs; \<open>Write\<close> and \<open>Confirm\<close> tools only under an elevation, and a
  \<open>Confirm\<close> tool in addition needs a single-use approval per call. Elevations and approvals are
  requested over a control socket (\<open>crates/transport/src/control.rs\<close>) by the client \<open>mcp-lock\<close>
  (\<open>crates/cli\<close>), which signs a challenge that the broker issued. The rules live in
  \<open>crates/core\<close>. \<open>crates/mail\<close> is a read-only mail server, one of the children.

  The theories, in the order of their imports, and the files under \<open>src/crates\<close> they model.

  \<^item> \<open>Prelude\<close>, \<open>Strings\<close>, \<open>OrdMap\<close>, \<open>Numeric\<close>, \<open>Render\<close>, \<open>Json\<close>: what the program uses of Rust's
    standard library (its formatting included) and of \<open>serde_json\<close>'s values. A \<open>Result\<close> is a sum with the error on the left; a
    \<open>String\<close> is its UTF-8 bytes as a \<open>char list\<close>; \<open>u64\<close> is a 64-bit word, \<open>usize\<close> a natural number;
    a \<open>BTreeMap\<close> is a list of pairs ordered by key; a \<open>Mutex\<close> is a value with a poison flag and a
    critical section is one update of it.
  \<^item> \<open>Manifest\<close> (\<open>core/src/manifest.rs\<close>), \<open>Policy\<close> (\<open>policy.rs\<close>), \<open>BrokerCore\<close> (\<open>broker.rs\<close>):
    validation with its early exits against the specification \<open>good_manifest\<close>, classification and
    the exposure gate, and the slots of the supervised servers.
  \<^item> \<open>SingleUse\<close>, \<open>Elevation\<close> (\<open>elevation.rs\<close>), \<open>Auth\<close> (\<open>auth.rs\<close>), \<open>AuditLog\<close> (\<open>audit.rs\<close>),
    \<open>ExecPlatform\<close> (\<open>exec.rs\<close>, \<open>error.rs\<close>, \<open>platform\<close>): nonces, challenges and their verification;
    the locale \<open>single_use\<close> is the contract of an expiring store of single-use tokens, interpreted
    on the nonce store and on the aggregator's confirmations; \<open>credential_validator\<close> is the
    contract of the endpoint's validator, interpreted on the static bearer.
  \<^item> \<open>CoreProps\<close>: the properties of \<open>crates/core\<close>.
  \<^item> \<open>McpClient\<close> (\<open>broker/src/mcp_client.rs\<close>), \<open>Aggregator\<close>, \<open>AggregatorFacts\<close>, \<open>AggregatorProps\<close>
    (\<open>aggregator.rs\<close>): the stdio client with its reader thread and deadlines; the aggregator over an
    arbitrary host of children, its invariant \<open>agg_ok\<close>, the contract \<open>lifecycle_op\<close> of the four
    lifecycle operations, and its properties.
  \<^item> \<open>Endpoint\<close>, \<open>Control\<close> (\<open>transport/src\<close>), \<open>ControlHandler\<close> (\<open>control_handler.rs\<close>), \<open>McpHandler\<close>
    (\<open>handler.rs\<close>), \<open>BrokerMain\<close> (\<open>main.rs\<close>): authentication, POST and SSE, notifications, the control
    exchange, the handlers of all requests over the state \<open>broker\<close>, and the daemon's \<open>main\<close> with
    what it prints. \<open>DaemonProps\<close>: what it does with its environment. The locale \<open>mcp_handler\<close> is what the endpoint asks of a handler.
  \<^item> \<open>BrokerSystem\<close>, \<open>BrokerRuns\<close>, \<open>BrokerProps\<close>: the broker as a transition system. \<open>agg_step\<close> is an
    abstract machine of six kinds of steps (nothing, lifecycle, grant, revoke, approve, call);
    \<open>control_refines\<close> and \<open>mcp_refines\<close> show that every request is one of its steps, allowed by
    what was verified. \<open>broker_run\<close> are the sequences of requests at instants that never decrease,
    and the properties of \<open>BrokerProps\<close> hold in every state such a run reaches.
  \<^item> \<open>Jobs\<close>, \<open>ConcBroker\<close>, \<open>ConcRuns\<close>, \<open>ConcSched\<close>, \<open>ConcAudit\<close>, \<open>ConcProps\<close>: the broker as its threads run
    it. A job is a request with the point its thread has reached (\<open>JSubmitAt\<close>, \<open>JVerified\<close>,
    \<open>JAfter\<close> and so on); \<open>job_step\<close> runs it up to and including its next critical section, with
    what it read before kept in the job. \<open>conc_step\<close> lets the accept loops (\<open>spawn_http\<close>,
    \<open>spawn_connection\<close>) add jobs and any unfinished job step, at a clock that only moves forward.
    \<open>ConcRuns\<close> has the invariants, \<open>ConcSched\<close> the steps a thread takes and the schedules of the atomic
    runs, \<open>ConcAudit\<close> the accounts between what is decided, serialised, written and pushed.
  \<^item> \<open>Clock\<close> (\<open>broker/src/clock.rs\<close>): readings in seconds of a nanosecond clock. \<open>ControlBind\<close>
    (\<open>ControlServer::bind\<close> of \<open>transport/src/control.rs\<close>): the making of the control socket, call by
    call, on a file system with modes.
  \<^item> \<open>Cli\<close>, \<open>CliProps\<close>, \<open>ConfirmProps\<close> (\<open>cli/src/main.rs\<close>): the control client, and its two signed
    exchanges from the command line to the elevated server and to the call that is let through.
  \<^item> \<open>MailStore\<close> (\<open>mail/src/mailstore.rs\<close>, \<open>fake.rs\<close>), \<open>MailConfig\<close> (\<open>config.rs\<close>), \<open>ImapBackend\<close>,
    \<open>ImapSession\<close> (\<open>imap_backend.rs\<close>), \<open>MailTools\<close> (\<open>tools.rs\<close>), \<open>MailServer\<close> (\<open>jsonrpc.rs\<close>,
    \<open>server.rs\<close>), \<open>MailMain\<close> (\<open>main.rs\<close>): the mail server. \<open>ImapSession\<close> is the backend's
    conversation as the sequence of its calls of the IMAP library. \<open>mail_store\<close> is the contract of a store, interpreted on both backends, and
    \<open>capped_store\<close> the stronger one of the fixture.
  \<^item> \<open>Supervise\<close>, \<open>SuperviseProps\<close>: the broker with the mail server as its child, two processes joined by
    pipes. \<open>react\<close> runs an operation of the stdio client against the server's loop over the bytes that
    the operation writes; \<open>gated_calls\<close> is the specification without broker and pipes. \<open>Gateway\<close>: the
    whole way of a tool call, from an HTTP request to the endpoint of the daemon that \<open>serve\<close> started to
    the store of the mail server, and back.
  \<^item> \<open>Harness\<close>, \<open>CoreTests\<close>, \<open>ElevationTests\<close>, \<open>AggregatorTests\<close>, \<open>HandlerTests\<close>, \<open>McpTests\<close>, \<open>MailTests\<close>,
    \<open>MailProtocolTests\<close>, \<open>TransportTests\<close>, \<open>SuperviseTests\<close>: the repository's own tests, translated one by one under the
    names they have in the crates and evaluated on the model. A test is a computation in the option
    monad that panics with \<open>None\<close>; each lemma \<open>t = Some ()\<close> says that the model passes the test \<open>t\<close>.
    They tie the definitions to the behaviour that the authors of the code checked. Where a test
    reads JSON text back, it is proved for every codec that reads back what it prints.

  What the properties show. Safety of the whole broker under every interleaving of its threads: an
  exposed write tool, and a confirm tool that reaches its child, have a verified signature in the
  execution's past, made under a registered key over exactly that server, tool and mode, and still
  valid (C1, C2); nonces are not replayed (C3); without registered clients nothing is ever elevated
  (C4); resources are bounded and the tape only grows (C5). Liveness: an operator with a registered
  key gets exactly the elevation asked for (C6) and one call of a confirmed tool (C7), over HTTP the
  daemon is the mail server behind its token and its gate (C8), and every
  request is served in at most eight steps of its thread (C14). The atomic handlers, on which the
  other properties of the handlers rest, are a special case of the threads (C15, C16), and the tape
  is complete (C17). The components: the call gate, its listing and its failures (C9, C18 to C20),
  verification and challenges (C10, C11), the exposure gate (C12), manifests (C13), notifications,
  submissions, responses and the start of the daemon (C21 to C25), the environment of the children
  and the secrecy of the token (C26, C27), authentication (C28), real time (C29), the control socket
  (C30), lifecycle (C31, C32), the stdio client (C33), control and event streams (C34, C35) and
  the mail server (C36 to C40). C26 and C32 state behaviours that the documentation excludes: every
  child sees the secrets of the daemon's environment, and a restart keeps an elevation. The lemmas
  hold more of the same kind: the properties of the atomic broker (\<open>write_exposure_authorised\<close>,
  \<open>no_replay\<close>, \<open>broker_invariant\<close> and others), loading, default deny (\<open>default_deny\<close>), the
  comparison of the bearer (\<open>bearer_exact\<close>), monotonicity of exposure, pause, stop and the start
  after a crash, the audit ring, the secrecy of the mail password (\<open>password_never_shown\<close>), and the
  client's command line.

  Arguments of the model. Code outside the repository is a parameter: Ed25519 and the JSON printer of
  a challenge (\<open>crypto\<close>, \<open>signer\<close>), SHA-256, \<open>serde_json\<close>'s text parser and printers (\<open>json_lib\<close>,
  \<open>http_json\<close>, \<open>control_codec\<close>, \<open>mail_json\<close>), the IMAP and MIME libraries (\<open>imap_client\<close>, \<open>mail_lib\<close>), the Unicode tables by which
  the standard library prints what is not ASCII, the
  operating system's files, environment, processes, clocks and random bytes (\<open>os\<close>, \<open>host\<close>,
  \<open>spawned_process\<close>, \<open>tick\<close>). Where a property needs one of them to keep its documented contract
  (a printer is injective, a codec reads back what it prints, a signature verifies under its own
  key), that is a named hypothesis and the property's witness satisfies it.

  Termination. Every loop of the code is a total function here: loops over input decrease its
  length, \<open>request_loop\<close> decreases the items of the channel, \<open>drop_poll\<close> the time left to its
  deadline. Fuel appears in one test only (\<open>read_to_end\<close>: ten reads, of which the stream needs three).

  Concurrency. Every request runs on a thread of its own. A mutex is held for one step of a job, and
  no step takes two mutexes, so a deadlock cannot arise and is not a state of the model; a lock that
  is never released (a thread that panics) is the poisoned mutex. The clock is read before the
  lock is taken, as in the code: a job's instant may lie behind the clock, and the properties of the
  threads say so. The atomic broker (\<open>BrokerRuns\<close>) is the schedule in which requests do not overlap.

  Not modelled: the module declarations and re-exports of the crate roots, the trait \<open>FramedTransport\<close>
  that nothing implements, and what the derive macros generate (the JSON codecs of the declared
  types, which are arguments, and the derived \<open>Debug\<close> output other than the one the daemon prints).
  Of the tests, those of the libraries (the JSON parser's refusals, the derived codecs of the control
  messages, the SHA-256 vector), and the one that compiles a trait. A child is either any value with
  the operations of \<open>McpChild\<close>, or the mail server of this repository at the end of two pipes; the
  scheduling between the two processes is that an answer arrives a fixed time after it is asked for.
\<close>

end
